(* ===== verification/GoPrelude.thy ===== *)
theory GoPrelude
  imports Main "HOL-Library.Word" "HOL-Library.Signed_Division"
begin

text \<open>
  Shared material of the development: the machine types of Go, results of Go functions that
  may panic, decimal printing and the part of \<open>fmt.Sprintf\<close> the sources use, and generic lemmas
  on association lists and on signed 64-bit words.

  Go's \<open>int\<close>, \<open>int64\<close>, \<open>uint64\<close> and \<open>time.Duration\<close> are all 64 bits wide on the platforms the
  package targets; conversions between them keep the bits, so one HOL type serves for all of them
  and signedness is in the operator (\<open><s\<close> and \<open>sint\<close> for signed readings).
\<close>

section \<open>Machine types\<close>

type_synonym byte = "8 word"
type_synonym bytes = "byte list"
type_synonym int64 = "64 word"
type_synonym uint64 = "64 word"
type_synonym duration = "64 word"

named_theorems lru_simps \<open>refinement equations of the doubly linked LRU list\<close>
named_theorems arc_invs \<open>invariant preservation of the ARC operations\<close>
named_theorems store_defs \<open>definitions unfolded to evaluate store operations\<close>

text \<open>Integer division of signed 64-bit values truncates towards zero, as in Go.\<close>

definition go_div :: "int64 \<Rightarrow> int64 \<Rightarrow> int64" where
  "go_div a b = word_of_int (sint a sdiv sint b)"

text \<open>
  A call either returns or panics; \<open>Panic\<close> carries the reason. Errors are ordinary values of the
  returned tuples, as in Go.
\<close>

datatype 'a outcome = Ret 'a | Panic string

fun panics :: "'a outcome \<Rightarrow> bool" where
  "panics (Ret _) = False"
| "panics (Panic _) = True"

section \<open>Decimal printing and formatting\<close>

fun show_nat :: "nat \<Rightarrow> string" where
  "show_nat n = (if n < 10 then [char_of (n + 48)] else show_nat (n div 10) @ [char_of (n mod 10 + 48)])"

declare show_nat.simps [simp del]

definition show_int :: "int64 \<Rightarrow> string" where
  "show_int w = (let i = sint w in if i < 0 then CHR ''-'' # show_nat (nat (- i)) else show_nat (nat i))"

text \<open>
  \<open>fmt.Sprintf\<close> for the verbs \<open>%s\<close>, \<open>%v\<close> and \<open>%d\<close>: each verb takes the next argument, whose
  rendering is given; a verb without an argument prints Go's \<open>MISSING\<close> marker.
\<close>

fun Sprintf :: "string \<Rightarrow> string list \<Rightarrow> string" where
  "Sprintf [] as = []"
| "Sprintf [c] as = [c]"
| "Sprintf (c # d # cs) as =
     (if c = CHR ''%'' \<and> d \<in> {CHR ''s'', CHR ''v'', CHR ''d''}
      then (case as of [] \<Rightarrow> ''%!'' @ [d] @ ''(MISSING)'' @ Sprintf cs []
                     | a # as' \<Rightarrow> a @ Sprintf cs as')
      else c # Sprintf (d # cs) as)"

definition bytes_of_string :: "string \<Rightarrow> bytes" where
  "bytes_of_string s = map (\<lambda>c. of_char c) s"

definition string_of_bytes :: "bytes \<Rightarrow> string" where
  "string_of_bytes b = map (\<lambda>w. char_of (unat w)) b"

lemma string_of_bytes_of_string [simp]: "string_of_bytes (bytes_of_string s) = s"
proof -
  have "char_of (unat (of_char c :: byte)) = c" for c
  proof -
    have "unat (of_char c :: byte) = unat (word_of_nat (of_char c) :: byte)" by (simp only: of_nat_of_char)
    also have "\<dots> = of_char c" using nat_of_char_less_256 [of c] by (simp add: unsigned_of_nat take_bit_nat_eq_self)
    finally show ?thesis by simp
  qed
  then show ?thesis by (simp add: string_of_bytes_def bytes_of_string_def comp_def)
qed

lemma bytes_of_string_of_bytes [simp]: "bytes_of_string (string_of_bytes b) = b"
proof -
  have "(of_char (char_of (unat w)) :: byte) = w" for w :: byte
  proof -
    have "(of_char (char_of (unat w)) :: byte) = word_of_nat (of_char (char_of (unat w) :: char))" by (simp only: of_nat_of_char)
    also have "\<dots> = word_of_nat (unat w)" using unsigned_less [of w, where 'a = nat] by simp
    finally show ?thesis by simp
  qed
  then show ?thesis by (simp add: string_of_bytes_def bytes_of_string_def comp_def)
qed

section \<open>Association lists\<close>

definition alist_remove :: "'k \<Rightarrow> ('k \<times> 'v) list \<Rightarrow> ('k \<times> 'v) list" where
  "alist_remove k xs = filter (\<lambda>p. fst p \<noteq> k) xs"

lemma map_of_alist_remove [simp]: "map_of (alist_remove k xs) = (map_of xs)(k := None)"
  by (induction xs) (auto simp: alist_remove_def fun_eq_iff)

lemma keys_alist_remove [simp]: "map fst (alist_remove k xs) = filter (\<lambda>j. j \<noteq> k) (map fst xs)"
  by (induction xs) (auto simp: alist_remove_def)

lemma set_alist_remove: "set (alist_remove k xs) = {p \<in> set xs. fst p \<noteq> k}"
  by (simp add: alist_remove_def)

lemma alist_remove_absent [simp]: "k \<notin> fst ` set xs \<Longrightarrow> alist_remove k xs = xs"
  by (auto simp: alist_remove_def filter_id_conv)

lemma alist_remove_Nil [simp]: "alist_remove k [] = []"
  by (simp add: alist_remove_def)

lemma alist_remove_Cons [simp]:
  "alist_remove k (p # xs) = (if fst p = k then alist_remove k xs else p # alist_remove k xs)"
  by (simp add: alist_remove_def)

lemma length_alist_remove:
  "distinct (map fst xs) \<Longrightarrow> k \<in> fst ` set xs \<Longrightarrow> Suc (length (alist_remove k xs)) = length xs"
  by (induction xs) (auto simp: image_iff)

lemma length_alist_remove_le: "length (alist_remove k xs) \<le> length xs"
  by (simp add: alist_remove_def)

lemma map_of_butlast:
  "distinct (map fst xs) \<Longrightarrow> xs \<noteq> [] \<Longrightarrow> map_of (butlast xs) = (map_of xs)(fst (last xs) := None)"
proof (induction xs)
  case Nil
  then show ?case by simp
next
  case (Cons p xs)
  show ?case
  proof (cases "xs = []")
    case True
    then show ?thesis by (simp add: fun_eq_iff)
  next
    case False
    then have "fst (last xs) \<in> fst ` set xs" by simp
    with Cons.prems(1) have "fst p \<noteq> fst (last xs)" by (metis distinct.simps(2) list.map(2) list.set_map)
    with Cons False show ?thesis by (auto simp: fun_eq_iff)
  qed
qed

lemma map_of_append_disjoint:
  "map_of (xs @ ys) k = (case map_of xs k of Some v \<Rightarrow> Some v | None \<Rightarrow> map_of ys k)"
  by (simp add: map_add_def)

section \<open>Signed words\<close>

lemma sint_bounds64: "- (2 ^ 63) \<le> sint (w :: int64)" "sint (w :: int64) < 2 ^ 63"
  using sint_greater_eq [of w] sint_less [of w] by simp_all

lemma sint_word_of_int64:
  "- (2 ^ 63) \<le> i \<Longrightarrow> i < 2 ^ 63 \<Longrightarrow> sint (word_of_int i :: int64) = i"
  by (simp add: signed_of_int signed_take_bit_int_eq_self)

lemma sint_add64:
  assumes "- (2 ^ 63) \<le> sint a + sint b" "sint a + sint b < 2 ^ 63"
  shows "sint (a + b :: int64) = sint a + sint b"
proof -
  have "a + b = word_of_int (sint a + sint b)" by (simp add: of_int_sint)
  then show ?thesis using assms sint_word_of_int64 by metis
qed

lemma sint_eq_uint64:
  assumes "uint (n :: int64) < 2 ^ 63" shows "sint n = uint n"
proof -
  have "- (2 ^ 63) \<le> uint n" by (rule order_trans [of _ 0]) simp_all
  with assms have "signed_take_bit 63 (uint n) = uint n" by (rule signed_take_bit_int_eq_self [rotated])
  then show ?thesis by (simp add: sint_uint)
qed

end
