(* ===== verification/SimpleLRU.thy ===== *)
theory SimpleLRU
  imports GoPrelude
begin

text \<open>
  The fixed-size LRU list of \<open>vendor/github.com/hashicorp/golang-lru/simplelru/lru.go\<close>, from which
  the ARC cache of the in-memory store is built.

  The Go type keeps a doubly linked list \<open>evictList\<close> of heap-allocated elements and a map \<open>items\<close>
  from keys to these elements; both alias the same elements. The model keeps that sharing: an
  element is an address, \<open>elems\<close> is the heap of elements (each holding its \<open>entry\<close>, a key and a
  value), \<open>evictList\<close> is the list of addresses from front (newest) to back (oldest) and \<open>items\<close> maps
  a key to an address. \<open>entries\<close> reads the heap through the list and is the abstraction: every
  operation refines a plain function on association lists, under the invariant \<open>lru_inv\<close> that list,
  heap and map agree. The locale \<open>lru_list\<close> is the interface the ARC cache relies on.
\<close>

section \<open>The list as the code has it\<close>

record ('k, 'v) LRU =
  lru_size :: int
  evictList :: "nat list"
  elems :: "nat \<rightharpoonup> 'k \<times> 'v"
  items :: "'k \<rightharpoonup> nat"
  nextel :: nat

text \<open>\<open>NewLRU\<close>: \<open>None\<close> is the error \<open>Must provide a positive size\<close>; the callback is always nil here.\<close>

definition NewLRU :: "int \<Rightarrow> ('k, 'v) LRU option" where
  "NewLRU sz = (if sz \<le> 0 then None
     else Some \<lparr>lru_size = sz, evictList = [], elems = Map.empty, items = Map.empty, nextel = 0\<rparr>)"

definition lru_Purge :: "('k, 'v) LRU \<Rightarrow> ('k, 'v) LRU" where
  "lru_Purge c = c\<lparr>items := Map.empty, evictList := []\<rparr>"

text \<open>\<open>container/list\<close>: \<open>MoveToFront\<close> does nothing for an element that is not of the list.\<close>

definition MoveToFront :: "nat \<Rightarrow> nat list \<Rightarrow> nat list" where
  "MoveToFront e l = (if e \<in> set l then e # remove1 e l else l)"

definition removeElement :: "nat \<Rightarrow> ('k, 'v) LRU \<Rightarrow> ('k, 'v) LRU" where
  "removeElement e c = (case elems c e of
     None \<Rightarrow> c\<lparr>evictList := remove1 e (evictList c)\<rparr>
   | Some kv \<Rightarrow> c\<lparr>evictList := remove1 e (evictList c), items := (items c)(fst kv := None)\<rparr>)"

definition removeOldest :: "('k, 'v) LRU \<Rightarrow> ('k, 'v) LRU" where
  "removeOldest c = (if evictList c = [] then c else removeElement (last (evictList c)) c)"

text \<open>\<open>Add\<close> also returns whether an eviction occurred.\<close>

definition lru_Add :: "'k \<Rightarrow> 'v \<Rightarrow> ('k, 'v) LRU \<Rightarrow> bool \<times> ('k, 'v) LRU" where
  "lru_Add k v c = (case items c k of
     Some ent \<Rightarrow>
       (False, c\<lparr>evictList := MoveToFront ent (evictList c),
                 elems := (elems c)(ent := map_option (\<lambda>kv. (fst kv, v)) (elems c ent))\<rparr>)
   | None \<Rightarrow>
       let ent = nextel c;
           c1 = c\<lparr>evictList := ent # evictList c, elems := (elems c)(ent \<mapsto> (k, v)),
                  items := (items c)(k \<mapsto> ent), nextel := Suc ent\<rparr>;
           evict = (int (length (evictList c1)) > lru_size c1)
       in (evict, if evict then removeOldest c1 else c1))"

text \<open>
  \<open>Get\<close> moves a hit to the front. An element always holds an entry, so the nil test of the code
  is the \<open>None\<close> of the heap lookup.
\<close>

definition lru_Get :: "'k \<Rightarrow> ('k, 'v) LRU \<Rightarrow> 'v option \<times> ('k, 'v) LRU" where
  "lru_Get k c = (case items c k of
     Some ent \<Rightarrow> (map_option snd (elems c ent), c\<lparr>evictList := MoveToFront ent (evictList c)\<rparr>)
   | None \<Rightarrow> (None, c))"

definition lru_Contains :: "'k \<Rightarrow> ('k, 'v) LRU \<Rightarrow> bool" where
  "lru_Contains k c = (items c k \<noteq> None)"

definition lru_Peek :: "'k \<Rightarrow> ('k, 'v) LRU \<Rightarrow> 'v option" where
  "lru_Peek k c = (case items c k of Some ent \<Rightarrow> map_option snd (elems c ent) | None \<Rightarrow> None)"

definition lru_Remove :: "'k \<Rightarrow> ('k, 'v) LRU \<Rightarrow> bool \<times> ('k, 'v) LRU" where
  "lru_Remove k c = (case items c k of Some ent \<Rightarrow> (True, removeElement ent c) | None \<Rightarrow> (False, c))"

definition lru_RemoveOldest :: "('k, 'v) LRU \<Rightarrow> ('k \<times> 'v) option \<times> ('k, 'v) LRU" where
  "lru_RemoveOldest c = (if evictList c = [] then (None, c)
     else let ent = last (evictList c) in (elems c ent, removeElement ent c))"

definition lru_GetOldest :: "('k, 'v) LRU \<Rightarrow> ('k \<times> 'v) option" where
  "lru_GetOldest c = (if evictList c = [] then None else elems c (last (evictList c)))"

definition lru_Len :: "('k, 'v) LRU \<Rightarrow> int" where
  "lru_Len c = int (length (evictList c))"

text \<open>
  \<open>Resize\<close> does not check the new size: the difference is a 64-bit subtraction, the loop calls
  \<open>removeOldest\<close> that many times, also on a list that is empty by then, and returns the number of calls.
\<close>

fun removeOldest_times :: "nat \<Rightarrow> ('k, 'v) LRU \<Rightarrow> ('k, 'v) LRU" where
  "removeOldest_times 0 c = c"
| "removeOldest_times (Suc i) c = removeOldest_times i (removeOldest c)"

definition resize_diff :: "int \<Rightarrow> int \<Rightarrow> int" where
  "resize_diff len sz = (let diff = sint (word_of_int (len - sz) :: int64) in if diff < 0 then 0 else diff)"

definition lru_Resize :: "int \<Rightarrow> ('k, 'v) LRU \<Rightarrow> int \<times> ('k, 'v) LRU" where
  "lru_Resize sz c = (let diff = resize_diff (lru_Len c) sz
     in (diff, (removeOldest_times (nat diff) c)\<lparr>lru_size := sz\<rparr>))"

text \<open>The abstraction: keys and values from newest to oldest.\<close>

definition entries :: "('k, 'v) LRU \<Rightarrow> ('k \<times> 'v) list" where
  "entries c = map (\<lambda>e. the (elems c e)) (evictList c)"

text \<open>\<open>Keys\<close> walks the list from the back, so it lists the oldest key first.\<close>

definition lru_Keys :: "('k, 'v) LRU \<Rightarrow> 'k list" where
  "lru_Keys c = map (\<lambda>e. fst (the (elems c e))) (rev (evictList c))"

definition lru_wf :: "('k, 'v) LRU \<Rightarrow> bool" where
  "lru_wf c \<longleftrightarrow> distinct (evictList c) \<and> (\<forall>e \<in> set (evictList c). e < nextel c)
     \<and> (\<forall>e \<in> set (evictList c). \<exists>k v. elems c e = Some (k, v) \<and> items c k = Some e)
     \<and> (\<forall>k e. items c k = Some e \<longrightarrow> e \<in> set (evictList c) \<and> (\<exists>v. elems c e = Some (k, v)))"

definition lru_inv :: "('k, 'v) LRU \<Rightarrow> bool" where
  "lru_inv c \<longleftrightarrow> lru_wf c \<and> 0 < lru_size c \<and> lru_Len c \<le> lru_size c"

section \<open>The reference: an LRU as an association list\<close>

definition alist_add :: "int \<Rightarrow> 'k \<Rightarrow> 'v \<Rightarrow> ('k \<times> 'v) list \<Rightarrow> ('k \<times> 'v) list" where
  "alist_add cap k v xs = (if k \<in> fst ` set xs then (k, v) # alist_remove k xs
     else if int (length xs) < cap then (k, v) # xs else (k, v) # butlast xs)"

text \<open>The same without the bound on the length, which a list that was resized to less than one entry does not have.\<close>

definition alist_push :: "int \<Rightarrow> 'k \<Rightarrow> 'v \<Rightarrow> ('k \<times> 'v) list \<Rightarrow> ('k \<times> 'v) list" where
  "alist_push cap k v xs = (if k \<in> fst ` set xs then (k, v) # alist_remove k xs
     else if int (length xs) < cap then (k, v) # xs else butlast ((k, v) # xs))"

definition alist_touch :: "'k \<Rightarrow> ('k \<times> 'v) list \<Rightarrow> ('k \<times> 'v) list" where
  "alist_touch k xs = (case map_of xs k of None \<Rightarrow> xs | Some v \<Rightarrow> (k, v) # alist_remove k xs)"

section \<open>The code refines the reference\<close>

lemma lru_wfD:
  assumes "lru_wf c"
  shows "distinct (evictList c)"
    "\<And>e. e \<in> set (evictList c) \<Longrightarrow> e < nextel c"
    "\<And>e. e \<in> set (evictList c) \<Longrightarrow> \<exists>k v. elems c e = Some (k, v) \<and> items c k = Some e"
    "\<And>k e. items c k = Some e \<Longrightarrow> e \<in> set (evictList c)"
    "\<And>k e. items c k = Some e \<Longrightarrow> \<exists>v. elems c e = Some (k, v)"
  using assms unfolding lru_wf_def by blast+

lemma elem_of_item:
  assumes "lru_wf c" "items c k = Some e"
  obtains v where "elems c e = Some (k, v)" "e \<in> set (evictList c)"
  using assms lru_wfD(4,5) by metis

lemma elem_in_entries: "e \<in> set (evictList c) \<Longrightarrow> elems c e = Some kv \<Longrightarrow> kv \<in> set (entries c)"
  by (auto simp: entries_def image_iff intro!: bexI [of _ e])

lemma distinct_keys:
  assumes inv: "lru_wf c" shows "distinct (map fst (entries c))"
proof -
  have "inj_on (\<lambda>e. fst (the (elems c e))) (set (evictList c))"
  proof (rule inj_onI)
    fix e e' assume "e \<in> set (evictList c)" "e' \<in> set (evictList c)"
      and "fst (the (elems c e)) = fst (the (elems c e'))"
    with lru_wfD(3) [OF inv] show "e = e'" by (metis fst_conv option.inject option.sel)
  qed
  with lru_wfD(1) [OF inv] show ?thesis by (simp add: entries_def distinct_map comp_def)
qed

lemma key_in_entries:
  assumes inv: "lru_wf c" shows "k \<in> fst ` set (entries c) \<longleftrightarrow> items c k \<noteq> None"
proof
  assume "k \<in> fst ` set (entries c)"
  then obtain e where e: "e \<in> set (evictList c)" "k = fst (the (elems c e))"
    by (auto simp: entries_def)
  from lru_wfD(3) [OF inv e(1)] e(2) show "items c k \<noteq> None" by auto
next
  assume "items c k \<noteq> None"
  then obtain e where e: "items c k = Some e" by blast
  from inv e obtain v where v: "elems c e = Some (k, v)" "e \<in> set (evictList c)"
    by (rule elem_of_item)
  then have "(k, v) \<in> set (entries c)" by (rule elem_in_entries [rotated])
  then show "k \<in> fst ` set (entries c)" by force
qed

lemma map_of_entries:
  assumes inv: "lru_wf c"
  shows "map_of (entries c) k = lru_Peek k c"
proof (cases "items c k")
  case None
  with key_in_entries [OF inv] have "k \<notin> fst ` set (entries c)" by simp
  with None show ?thesis by (simp add: lru_Peek_def map_of_eq_None_iff)
next
  case (Some e)
  with inv obtain v where v: "elems c e = Some (k, v)" "e \<in> set (evictList c)"
    by (rule elem_of_item)
  then have "(k, v) \<in> set (entries c)" by (rule elem_in_entries [rotated])
  with distinct_keys [OF inv] have "map_of (entries c) k = Some v" by (rule map_of_is_SomeI)
  with v Some show ?thesis by (simp add: lru_Peek_def)
qed

text \<open>Removing one address from the list removes one key from the abstraction.\<close>

lemma entries_without:
  assumes inv: "lru_wf c" and e: "e \<in> set (evictList c)" and kv: "elems c e = Some (k, v)"
  shows "map (\<lambda>e. the (elems c e)) (remove1 e (evictList c)) = alist_remove k (entries c)"
proof -
  have key: "fst (the (elems c e')) \<noteq> k" if "e' \<in> set (evictList c)" "e' \<noteq> e" for e'
    using lru_wfD(3) [OF inv that(1)] lru_wfD(3) [OF inv e] kv that(2) by auto
  have "remove1 e (evictList c) = filter (\<lambda>e'. e' \<noteq> e) (evictList c)"
    using lru_wfD(1) [OF inv]
    by (auto simp: distinct_remove1_removeAll removeAll_filter_not_eq intro: filter_cong)
  also have "\<dots> = filter (\<lambda>e'. fst (the (elems c e')) \<noteq> k) (evictList c)"
    using key kv by (intro filter_cong) auto
  finally show ?thesis by (simp add: alist_remove_def entries_def filter_map comp_def)
qed

lemma removeElement_refines:
  assumes inv: "lru_wf c" and e: "e \<in> set (evictList c)" and kv: "elems c e = Some (k, v)"
  shows "entries (removeElement e c) = alist_remove k (entries c)" "lru_wf (removeElement e c)"
    "lru_size (removeElement e c) = lru_size c"
proof -
  show "entries (removeElement e c) = alist_remove k (entries c)"
    using entries_without [OF assms] kv by (simp add: removeElement_def entries_def)
  show "lru_size (removeElement e c) = lru_size c" using kv by (simp add: removeElement_def)
  have "\<exists>k' v'. elems c e' = Some (k', v') \<and> ((items c)(k := None)) k' = Some e'"
    if "e' \<in> set (remove1 e (evictList c))" for e'
  proof -
    from that lru_wfD(1) [OF inv] have e': "e' \<in> set (evictList c)" "e' \<noteq> e" by auto
    from lru_wfD(3) [OF inv e'(1)] obtain k' v' where kv': "elems c e' = Some (k', v')" "items c k' = Some e'"
      by blast
    from lru_wfD(3) [OF inv e] kv have "items c k = Some e" by auto
    with kv' e'(2) have "k' \<noteq> k" by auto
    with kv' show ?thesis by auto
  qed
  moreover have "e' \<in> set (remove1 e (evictList c)) \<and> (\<exists>v'. elems c e' = Some (k', v'))"
    if "((items c)(k := None)) k' = Some e'" for k' e'
  proof -
    from that have it: "items c k' = Some e'" "k' \<noteq> k" by (auto split: if_splits)
    with inv obtain v' where v': "elems c e' = Some (k', v')" "e' \<in> set (evictList c)"
      by (metis elem_of_item)
    with kv it have "e' \<noteq> e" by auto
    with v' show ?thesis by auto
  qed
  moreover have "e' < nextel c" if "e' \<in> set (remove1 e (evictList c))" for e'
    using that set_remove1_subset [of e "evictList c"] lru_wfD(2) [OF inv] by blast
  ultimately show "lru_wf (removeElement e c)"
    using lru_wfD(1) [OF inv] kv by (auto simp: lru_wf_def removeElement_def distinct_remove1)
qed

lemma last_is_oldest:
  assumes inv: "lru_wf c" and ne: "evictList c \<noteq> []"
  obtains k v where "elems c (last (evictList c)) = Some (k, v)" "last (evictList c) \<in> set (evictList c)"
    "last (entries c) = (k, v)" "alist_remove k (entries c) = butlast (entries c)"
proof -
  let ?e = "last (evictList c)"
  from ne have e: "?e \<in> set (evictList c)" by simp
  from lru_wfD(3) [OF inv e] obtain k v where kv: "elems c ?e = Some (k, v)" by blast
  have l: "last (entries c) = (k, v)" using ne kv by (simp add: entries_def last_map)
  have "entries c \<noteq> []" using ne by (simp add: entries_def)
  then have split: "entries c = butlast (entries c) @ [(k, v)]" using l by (metis append_butlast_last_id)
  from arg_cong [OF this, of "map fst"] have "map fst (entries c) = map fst (butlast (entries c)) @ [k]"
    by (simp only: map_append list.map fst_conv)
  with distinct_keys [OF inv] have "k \<notin> fst ` set (butlast (entries c))"
    by (simp only: distinct_append) simp
  then have "alist_remove k (entries c) = butlast (entries c)"
    by (subst split) (simp add: alist_remove_def filter_id_conv, force)
  with that kv e l show ?thesis by blast
qed

lemma removeOldest_refines:
  assumes "lru_wf c"
  shows "entries (removeOldest c) = butlast (entries c)" "lru_wf (removeOldest c)"
    "lru_size (removeOldest c) = lru_size c"
proof -
  have "entries (removeOldest c) = butlast (entries c) \<and> lru_wf (removeOldest c)
    \<and> lru_size (removeOldest c) = lru_size c"
  proof (cases "evictList c = []")
    case True
    with assms show ?thesis by (simp add: removeOldest_def entries_def)
  next
    case False
    with assms obtain k v where "elems c (last (evictList c)) = Some (k, v)"
        "last (evictList c) \<in> set (evictList c)" "alist_remove k (entries c) = butlast (entries c)"
      by (metis last_is_oldest)
    with removeElement_refines [OF assms] False show ?thesis by (simp add: removeOldest_def)
  qed
  then show "entries (removeOldest c) = butlast (entries c)" "lru_wf (removeOldest c)"
    "lru_size (removeOldest c) = lru_size c" by blast+
qed

text \<open>A hit of \<open>Add\<close> or \<open>Get\<close>: the element moves to the front, its value possibly rewritten.\<close>

lemma touch_refines:
  assumes inv: "lru_wf c" and it: "items c k = Some e"
    and c': "c' = c\<lparr>evictList := MoveToFront e (evictList c), elems := (elems c)(e \<mapsto> (k, v))\<rparr>"
  shows "entries c' = (k, v) # alist_remove k (entries c)" "lru_wf c'" "lru_size c' = lru_size c"
proof -
  from inv it obtain v0 where v0: "elems c e = Some (k, v0)" and e: "e \<in> set (evictList c)"
    by (rule elem_of_item)
  have rest: "e \<notin> set (remove1 e (evictList c))" using lru_wfD(1) [OF inv] by simp
  have "map (\<lambda>e'. the (elems c' e')) (remove1 e (evictList c)) = alist_remove k (entries c)"
    using rest entries_without [OF inv e v0] c' by (auto intro: map_cong simp flip: entries_without [OF inv e v0])
  then show "entries c' = (k, v) # alist_remove k (entries c)"
    using e c' by (simp add: entries_def MoveToFront_def)
  show "lru_size c' = lru_size c" using c' by simp
  have set_eq: "set (evictList c') = set (evictList c)" "distinct (evictList c')"
    using e lru_wfD(1) [OF inv] c' by (auto simp: MoveToFront_def)
  have "\<exists>k' v'. elems c' e' = Some (k', v') \<and> items c' k' = Some e'" if "e' \<in> set (evictList c)" for e'
    using lru_wfD(3) [OF inv that] it c' by (cases "e' = e") auto
  moreover have "e' \<in> set (evictList c) \<and> (\<exists>v'. elems c' e' = Some (k', v'))" if "items c' k' = Some e'" for k' e'
    using lru_wfD(4,5) [OF inv, of k' e'] that v0 c' by (cases "e' = e") auto
  ultimately show "lru_wf c'"
    using lru_wfD(2) [OF inv] set_eq c' unfolding lru_wf_def by simp
qed

text \<open>A miss of \<open>Add\<close> before the size is checked.\<close>

lemma push_refines:
  assumes inv: "lru_wf c" and it: "items c k = None"
    and c': "c' = c\<lparr>evictList := nextel c # evictList c, elems := (elems c)(nextel c \<mapsto> (k, v)),
                   items := (items c)(k \<mapsto> nextel c), nextel := Suc (nextel c)\<rparr>"
  shows "entries c' = (k, v) # entries c" "lru_wf c'"
proof -
  have fresh: "nextel c \<notin> set (evictList c)" using lru_wfD(2) [OF inv] by blast
  then show "entries c' = (k, v) # entries c"
    using c' by (auto simp: entries_def intro: map_cong)
  have "\<exists>k' v'. elems c' e' = Some (k', v') \<and> items c' k' = Some e'" if "e' \<in> set (evictList c')" for e'
    using that lru_wfD(3) [OF inv, of e'] fresh it c' by (cases "e' = nextel c") force+
  moreover have "e' \<in> set (evictList c') \<and> (\<exists>v'. elems c' e' = Some (k', v'))" if "items c' k' = Some e'" for k' e'
    using that lru_wfD(4,5) [OF inv, of k' e'] fresh c' by (cases "k' = k") auto
  moreover have "e' < nextel c'" if "e' \<in> set (evictList c')" for e'
    using that lru_wfD(2) [OF inv, of e'] c' by auto
  ultimately show "lru_wf c'"
    using lru_wfD(1) [OF inv] fresh c' unfolding lru_wf_def by simp
qed

lemma length_entries: "int (length (entries c)) = lru_Len c"
  by (simp add: entries_def lru_Len_def)

lemma lru_inv_wf: "lru_inv c \<Longrightarrow> lru_wf c"
  by (simp add: lru_inv_def)

lemma lru_inv_iff:
  "lru_inv c \<longleftrightarrow> lru_wf c \<and> 0 < lru_size c \<and> int (length (entries c)) \<le> lru_size c"
  by (simp add: lru_inv_def length_entries)

lemma lru_Peek_refines: "lru_inv c \<Longrightarrow> lru_Peek k c = map_of (entries c) k"
  by (simp add: lru_inv_wf map_of_entries)

lemma lru_Contains_wf: "lru_wf c \<Longrightarrow> lru_Contains k c \<longleftrightarrow> k \<in> fst ` set (entries c)"
  by (simp add: key_in_entries lru_Contains_def)

lemmas lru_Contains_refines = lru_Contains_wf [OF lru_inv_wf]

lemma lru_Keys_refines: "lru_Keys c = rev (map fst (entries c))"
  by (simp add: lru_Keys_def entries_def rev_map comp_def)

lemma lru_Purge_wf:
  "lru_wf (lru_Purge c)" "entries (lru_Purge c) = []" "lru_size (lru_Purge c) = lru_size c"
  by (simp_all add: lru_Purge_def entries_def lru_wf_def)

lemma lru_Purge_refines:
  assumes "lru_inv c"
  shows "entries (lru_Purge c) = []" "lru_inv (lru_Purge c)" "lru_size (lru_Purge c) = lru_size c"
  using assms by (simp_all add: lru_Purge_wf lru_inv_iff)

lemma NewLRU_refines:
  assumes "NewLRU n = Some c"
  shows "entries c = []" "lru_inv c" "lru_size c = n"
  using assms by (auto simp: NewLRU_def entries_def lru_inv_def lru_wf_def lru_Len_def split: if_splits)

lemma lru_Remove_wf:
  assumes wf: "lru_wf c"
  shows "fst (lru_Remove k c) \<longleftrightarrow> k \<in> fst ` set (entries c)"
    "entries (snd (lru_Remove k c)) = alist_remove k (entries c)"
    "lru_wf (snd (lru_Remove k c))" "lru_size (snd (lru_Remove k c)) = lru_size c"
proof -
  have "(fst (lru_Remove k c) \<longleftrightarrow> k \<in> fst ` set (entries c))
    \<and> entries (snd (lru_Remove k c)) = alist_remove k (entries c)
    \<and> lru_wf (snd (lru_Remove k c)) \<and> lru_size (snd (lru_Remove k c)) = lru_size c"
  proof (cases "items c k")
    case None
    with key_in_entries [OF wf] wf show ?thesis by (simp add: lru_Remove_def)
  next
    case (Some e)
    with wf obtain v where "elems c e = Some (k, v)" "e \<in> set (evictList c)" by (rule elem_of_item)
    with removeElement_refines [OF wf] key_in_entries [OF wf] Some show ?thesis
      by (simp add: lru_Remove_def)
  qed
  then show "fst (lru_Remove k c) \<longleftrightarrow> k \<in> fst ` set (entries c)"
    "entries (snd (lru_Remove k c)) = alist_remove k (entries c)"
    "lru_wf (snd (lru_Remove k c))" "lru_size (snd (lru_Remove k c)) = lru_size c" by blast+
qed

lemma lru_Remove_refines:
  assumes inv: "lru_inv c"
  shows "fst (lru_Remove k c) \<longleftrightarrow> k \<in> fst ` set (entries c)"
    "entries (snd (lru_Remove k c)) = alist_remove k (entries c)"
    "lru_inv (snd (lru_Remove k c))" "lru_size (snd (lru_Remove k c)) = lru_size c"
  using lru_Remove_wf [OF lru_inv_wf [OF inv]] inv length_alist_remove_le [of k "entries c"]
  by (auto simp: lru_inv_iff)

lemma lru_GetOldest_refines:
  assumes wf: "lru_wf c"
  shows "lru_GetOldest c = (if entries c = [] then None else Some (last (entries c)))"
proof (cases "evictList c = []")
  case True
  then show ?thesis by (simp add: lru_GetOldest_def entries_def)
next
  case False
  with wf obtain k v where "elems c (last (evictList c)) = Some (k, v)" "last (entries c) = (k, v)"
    by (metis last_is_oldest)
  with False show ?thesis by (simp add: lru_GetOldest_def entries_def)
qed

lemma lru_RemoveOldest_wf:
  assumes wf: "lru_wf c"
  shows "fst (lru_RemoveOldest c) = (if entries c = [] then None else Some (last (entries c)))"
    "entries (snd (lru_RemoveOldest c)) = butlast (entries c)"
    "lru_wf (snd (lru_RemoveOldest c))" "lru_size (snd (lru_RemoveOldest c)) = lru_size c"
proof -
  have eq: "lru_RemoveOldest c = (lru_GetOldest c, removeOldest c)"
    by (simp add: lru_RemoveOldest_def lru_GetOldest_def removeOldest_def Let_def)
  show "fst (lru_RemoveOldest c) = (if entries c = [] then None else Some (last (entries c)))"
    "entries (snd (lru_RemoveOldest c)) = butlast (entries c)"
    "lru_wf (snd (lru_RemoveOldest c))" "lru_size (snd (lru_RemoveOldest c)) = lru_size c"
    using removeOldest_refines [OF wf] lru_GetOldest_refines [OF wf] by (simp_all add: eq)
qed

lemma lru_RemoveOldest_refines:
  assumes inv: "lru_inv c"
  shows "fst (lru_RemoveOldest c) = (if entries c = [] then None else Some (last (entries c)))"
    "entries (snd (lru_RemoveOldest c)) = butlast (entries c)"
    "lru_inv (snd (lru_RemoveOldest c))" "lru_size (snd (lru_RemoveOldest c)) = lru_size c"
  using lru_RemoveOldest_wf [OF lru_inv_wf [OF inv]] inv by (auto simp: lru_inv_iff)

lemma lru_Get_wf:
  assumes wf: "lru_wf c"
  shows "fst (lru_Get k c) = map_of (entries c) k"
    "entries (snd (lru_Get k c)) = alist_touch k (entries c)"
    "lru_wf (snd (lru_Get k c))" "lru_size (snd (lru_Get k c)) = lru_size c"
proof -
  show "fst (lru_Get k c) = map_of (entries c) k"
    using map_of_entries [OF wf] by (auto simp: lru_Get_def lru_Peek_def split: option.splits)
  have "entries (snd (lru_Get k c)) = alist_touch k (entries c)
    \<and> lru_wf (snd (lru_Get k c)) \<and> lru_size (snd (lru_Get k c)) = lru_size c"
  proof (cases "items c k")
    case None
    with map_of_entries [OF wf, of k] wf show ?thesis by (simp add: lru_Get_def lru_Peek_def alist_touch_def)
  next
    case (Some e)
    with wf obtain v where v: "elems c e = Some (k, v)" "e \<in> set (evictList c)" by (rule elem_of_item)
    have eq: "snd (lru_Get k c) = c\<lparr>evictList := MoveToFront e (evictList c), elems := (elems c)(e \<mapsto> (k, v))\<rparr>"
      using Some v by (simp add: lru_Get_def fun_upd_idem)
    have "map_of (entries c) k = Some v" using map_of_entries [OF wf] Some v by (simp add: lru_Peek_def)
    with touch_refines [OF wf Some eq] show ?thesis by (simp add: alist_touch_def)
  qed
  then show "entries (snd (lru_Get k c)) = alist_touch k (entries c)"
    "lru_wf (snd (lru_Get k c))" "lru_size (snd (lru_Get k c)) = lru_size c" by blast+
qed

lemma length_alist_touch: "distinct (map fst xs) \<Longrightarrow> length (alist_touch k xs) = length xs"
  using length_alist_remove [of xs k]
  by (auto simp: alist_touch_def split: option.splits) (metis fst_conv image_eqI map_of_SomeD)

lemma lru_Get_refines:
  assumes inv: "lru_inv c"
  shows "fst (lru_Get k c) = map_of (entries c) k"
    "entries (snd (lru_Get k c)) = alist_touch k (entries c)"
    "lru_inv (snd (lru_Get k c))" "lru_size (snd (lru_Get k c)) = lru_size c"
  using lru_Get_wf [OF lru_inv_wf [OF inv]] inv length_alist_touch [OF distinct_keys [OF lru_inv_wf [OF inv]], of k]
  by (auto simp: lru_inv_iff)

lemma lru_Add_wf:
  assumes wf: "lru_wf c"
  shows "entries (snd (lru_Add k v c)) = alist_push (lru_size c) k v (entries c)"
    "lru_wf (snd (lru_Add k v c))" "lru_size (snd (lru_Add k v c)) = lru_size c"
    "fst (lru_Add k v c) \<longleftrightarrow> k \<notin> fst ` set (entries c) \<and> lru_size c \<le> int (length (entries c))"
proof -
  note key = key_in_entries [OF wf, of k]
  let ?n = "int (length (entries c))"
  have "entries (snd (lru_Add k v c)) = alist_push (lru_size c) k v (entries c)
    \<and> lru_wf (snd (lru_Add k v c)) \<and> lru_size (snd (lru_Add k v c)) = lru_size c
    \<and> (fst (lru_Add k v c) \<longleftrightarrow> k \<notin> fst ` set (entries c) \<and> lru_size c \<le> ?n)"
  proof (cases "items c k")
    case (Some e)
    with wf obtain v0 where "elems c e = Some (k, v0)" by (rule elem_of_item)
    then have eq: "lru_Add k v c =
        (False, c\<lparr>evictList := MoveToFront e (evictList c), elems := (elems c)(e \<mapsto> (k, v))\<rparr>)"
      using Some by (simp add: lru_Add_def)
    show ?thesis using touch_refines [OF wf Some refl, of v] eq key Some by (simp add: alist_push_def)
  next
    case None
    define c1 where "c1 = c\<lparr>evictList := nextel c # evictList c, elems := (elems c)(nextel c \<mapsto> (k, v)),
                   items := (items c)(k \<mapsto> nextel c), nextel := Suc (nextel c)\<rparr>"
    note push = push_refines [OF wf None c1_def]
    have len: "int (length (evictList c1)) = ?n + 1" by (simp add: c1_def entries_def)
    have eq: "lru_Add k v c = (?n + 1 > lru_size c, if ?n + 1 > lru_size c then removeOldest c1 else c1)"
      using None len by (simp add: lru_Add_def Let_def flip: c1_def) (simp add: c1_def)
    have sz: "lru_size c1 = lru_size c" by (simp add: c1_def)
    show ?thesis
      using removeOldest_refines [OF push(2)] push eq sz key None by (auto simp: alist_push_def)
  qed
  then show "entries (snd (lru_Add k v c)) = alist_push (lru_size c) k v (entries c)"
    "lru_wf (snd (lru_Add k v c))" "lru_size (snd (lru_Add k v c)) = lru_size c"
    "fst (lru_Add k v c) \<longleftrightarrow> k \<notin> fst ` set (entries c) \<and> lru_size c \<le> int (length (entries c))" by blast+
qed

lemma alist_push_add: "0 < cap \<Longrightarrow> int (length xs) \<le> cap \<Longrightarrow> alist_push cap k v xs = alist_add cap k v xs"
  by (auto simp: alist_push_def alist_add_def)

lemma length_alist_add:
  assumes "distinct (map fst xs)" "0 < cap" "int (length xs) \<le> cap"
  shows "int (length (alist_add cap k v xs)) \<le> cap"
  using assms length_alist_remove [OF assms(1), of k] by (auto simp: alist_add_def)

lemma lru_Add_refines:
  assumes inv: "lru_inv c"
  shows "entries (snd (lru_Add k v c)) = alist_add (lru_size c) k v (entries c)"
    "lru_inv (snd (lru_Add k v c))" "lru_size (snd (lru_Add k v c)) = lru_size c"
    "fst (lru_Add k v c) \<longleftrightarrow> k \<notin> fst ` set (entries c) \<and> lru_Len c = lru_size c"
proof -
  note wf = lru_inv_wf [OF inv]
  have bnd: "0 < lru_size c" "int (length (entries c)) \<le> lru_size c" using inv by (simp_all add: lru_inv_iff)
  show "entries (snd (lru_Add k v c)) = alist_add (lru_size c) k v (entries c)"
    "lru_inv (snd (lru_Add k v c))" "lru_size (snd (lru_Add k v c)) = lru_size c"
    "fst (lru_Add k v c) \<longleftrightarrow> k \<notin> fst ` set (entries c) \<and> lru_Len c = lru_size c"
    using lru_Add_wf [OF wf, of k v] alist_push_add [OF bnd] bnd length_alist_add [OF distinct_keys [OF wf] bnd]
    by (auto simp: lru_inv_iff simp flip: length_entries)
qed

text \<open>\<open>Resize\<close> drops the oldest entries.\<close>

lemma removeOldest_times_refines:
  "lru_wf c \<Longrightarrow> entries (removeOldest_times i c) = take (length (entries c) - i) (entries c)
    \<and> lru_wf (removeOldest_times i c)"
proof (induction i arbitrary: c)
  case (Suc i)
  then show ?case using removeOldest_refines [OF Suc.prems] Suc.IH [of "removeOldest c"]
    by (simp add: butlast_conv_take min_def)
qed simp

lemma lru_wf_size: "lru_wf (c\<lparr>lru_size := n\<rparr>) = lru_wf c" "entries (c\<lparr>lru_size := n\<rparr>) = entries c"
  by (simp_all add: lru_wf_def entries_def)

lemma lru_Resize_wf:
  assumes "lru_wf c"
  shows "fst (lru_Resize n c) = resize_diff (int (length (entries c))) n"
    "entries (snd (lru_Resize n c))
       = take (length (entries c) - nat (resize_diff (int (length (entries c))) n)) (entries c)"
    "lru_wf (snd (lru_Resize n c))" "lru_size (snd (lru_Resize n c)) = n"
  using removeOldest_times_refines [OF assms]
  by (simp_all add: lru_Resize_def Let_def lru_wf_size length_entries)

lemma resize_diff_exact:
  assumes "0 \<le> l" "l < 2 ^ 63" "0 \<le> n" "n < 2 ^ 63"
  shows "resize_diff l n = max 0 (l - n)"
proof -
  have "sint (word_of_int (l - n) :: int64) = l - n"
    unfolding sint_sbintrunc' using assms by (intro signed_take_bit_int_eq_self) simp_all
  then show ?thesis by (simp only: resize_diff_def Let_def) (simp add: max_def)
qed

text \<open>
  Resizing to a size that is not negative keeps the newest entries that fit and reports the number of the others; a
  positive size keeps the invariant.
\<close>

lemma lru_Resize_refines:
  assumes inv: "lru_inv c" and n: "0 \<le> n" "n < 2 ^ 63" and small: "lru_Len c < 2 ^ 63"
  shows "entries (snd (lru_Resize n c)) = take (nat n) (entries c)"
    "fst (lru_Resize n c) = lru_Len c - int (length (take (nat n) (entries c)))"
    "0 < n \<Longrightarrow> lru_inv (snd (lru_Resize n c))"
proof -
  let ?l = "int (length (entries c))"
  note wf = lru_Resize_wf [OF lru_inv_wf [OF inv], of n]
  have d: "resize_diff ?l n = max 0 (?l - n)"
    using n small by (intro resize_diff_exact) (simp_all flip: length_entries)
  have k: "take (length (entries c) - nat (max 0 (?l - n))) (entries c) = take (nat n) (entries c)"
    using n by (cases "?l \<le> n") (auto simp: max_def nat_diff_distrib intro: arg_cong [where f = "\<lambda>i. take i (entries c)"])
  show e: "entries (snd (lru_Resize n c)) = take (nat n) (entries c)" using wf(2) d k by simp
  show "fst (lru_Resize n c) = lru_Len c - int (length (take (nat n) (entries c)))"
    using wf(1) d n by (auto simp: min_def max_def simp flip: length_entries)
  show "lru_inv (snd (lru_Resize n c))" if "0 < n"
    using that wf(3,4) e by (simp add: lru_inv_iff)
qed

lemmas lru_refines [lru_simps] =
  lru_Peek_refines lru_Contains_refines lru_Keys_refines lru_Purge_refines lru_Remove_refines
  lru_RemoveOldest_refines lru_Get_refines lru_Add_refines

text \<open>The equations that need no bound on the length.\<close>

lemmas lru_wf_refines =
  map_of_entries [symmetric] lru_Contains_wf lru_Keys_refines lru_Purge_wf lru_Remove_wf
  lru_RemoveOldest_wf lru_GetOldest_refines lru_Get_wf lru_Add_wf lru_Resize_wf

section \<open>The interface of an LRU list\<close>

text \<open>
  What a client of the list relies on: each operation as a function on the association list
  \<open>view\<close>, newest first, and that the invariant is kept. The lemmas say what a later lookup sees.
\<close>

locale lru_list =
  fixes view :: "'l \<Rightarrow> ('k \<times> 'v) list" and inv :: "'l \<Rightarrow> bool" and cap :: "'l \<Rightarrow> int"
    and add :: "'k \<Rightarrow> 'v \<Rightarrow> 'l \<Rightarrow> bool \<times> 'l" and get :: "'k \<Rightarrow> 'l \<Rightarrow> 'v option \<times> 'l"
    and remove :: "'k \<Rightarrow> 'l \<Rightarrow> bool \<times> 'l" and removeOldest :: "'l \<Rightarrow> ('k \<times> 'v) option \<times> 'l"
    and purge :: "'l \<Rightarrow> 'l"
  assumes keys_distinct: "inv c \<Longrightarrow> distinct (map fst (view c))"
    and cap_pos: "inv c \<Longrightarrow> 0 < cap c"
    and view_cap: "inv c \<Longrightarrow> int (length (view c)) \<le> cap c"
    and view_add: "inv c \<Longrightarrow> view (snd (add k v c)) = alist_add (cap c) k v (view c)"
    and view_get: "inv c \<Longrightarrow> view (snd (get k c)) = alist_touch k (view c)"
    and get_value: "inv c \<Longrightarrow> fst (get k c) = map_of (view c) k"
    and view_remove: "inv c \<Longrightarrow> view (snd (remove k c)) = alist_remove k (view c)"
    and view_oldest: "inv c \<Longrightarrow> view (snd (removeOldest c)) = butlast (view c)"
    and oldest_value: "inv c \<Longrightarrow>
      fst (removeOldest c) = (if view c = [] then None else Some (last (view c)))"
    and view_purge: "inv c \<Longrightarrow> view (purge c) = []"
    and inv_ops: "inv c \<Longrightarrow> inv (snd (add k v c))" "inv c \<Longrightarrow> inv (snd (get k c))"
      "inv c \<Longrightarrow> inv (snd (remove k c))" "inv c \<Longrightarrow> inv (snd (removeOldest c))" "inv c \<Longrightarrow> inv (purge c)"
    and cap_ops: "inv c \<Longrightarrow> cap (snd (add k v c)) = cap c" "inv c \<Longrightarrow> cap (snd (get k c)) = cap c"
      "inv c \<Longrightarrow> cap (snd (remove k c)) = cap c" "inv c \<Longrightarrow> cap (snd (removeOldest c)) = cap c"
      "inv c \<Longrightarrow> cap (purge c) = cap c"
begin

text \<open>What an operation does to the map from keys to values.\<close>

lemma lookup_add_same: "inv c \<Longrightarrow> map_of (view (snd (add k v c))) k = Some v"
  by (simp add: view_add alist_add_def)

lemma add_keys:
  assumes "inv c"
  shows "fst ` set (view (snd (add k v c))) \<subseteq> insert k (fst ` set (view c))"
  using assms by (auto simp: view_add alist_add_def set_alist_remove dest: in_set_butlastD)

lemma lookup_add_other:
  assumes inv: "inv c" and "j \<noteq> k"
  shows "map_of (view (snd (add k v c))) j = map_of (view c) j
    \<or> map_of (view (snd (add k v c))) j = None"
proof (cases "k \<in> fst ` set (view c) \<or> int (length (view c)) < cap c \<or> view c = []")
  case True
  with assms show ?thesis by (auto simp: view_add alist_add_def)
next
  case False
  with assms map_of_butlast [OF keys_distinct [OF inv]] show ?thesis
    by (auto simp: view_add alist_add_def)
qed

lemma lookup_add_room:
  "inv c \<Longrightarrow> int (length (view c)) < cap c \<or> k \<in> fst ` set (view c) \<Longrightarrow>
    map_of (view (snd (add k v c))) = (map_of (view c))(k \<mapsto> v)"
  by (auto simp: view_add alist_add_def fun_eq_iff)

lemma lookup_get: "inv c \<Longrightarrow> map_of (view (snd (get k c))) = map_of (view c)"
  by (auto simp: view_get alist_touch_def fun_eq_iff split: option.splits)

lemma get_keys: "inv c \<Longrightarrow> fst ` set (view (snd (get k c))) = fst ` set (view c)"
  by (metis dom_map_of_conv_image_fst lookup_get)

lemma length_get: "inv c \<Longrightarrow> length (view (snd (get k c))) = length (view c)"
  using length_alist_remove [OF keys_distinct, of c k]
  by (auto simp: view_get alist_touch_def weak_map_of_SomeI dest: map_of_SomeD split: option.splits)
    (metis fst_conv image_eqI map_of_SomeD)

lemma length_add: "inv c \<Longrightarrow> length (view (snd (add k v c))) \<le> Suc (length (view c))"
  by (auto simp: view_add alist_add_def intro: le_trans [OF length_alist_remove_le])

lemma remove_keys: "inv c \<Longrightarrow> fst ` set (view (snd (remove k c))) = fst ` set (view c) - {k}"
  by (auto simp: view_remove set_alist_remove)

end

interpretation lru: lru_list entries lru_inv lru_size lru_Add lru_Get lru_Remove lru_RemoveOldest lru_Purge
proof unfold_locales
  fix c :: "('a, 'b) LRU" assume inv: "lru_inv c"
  show "distinct (map fst (entries c))" using inv by (simp add: distinct_keys lru_inv_wf)
  show "0 < lru_size c" "int (length (entries c)) \<le> lru_size c" using inv by (simp_all add: lru_inv_iff)
qed (simp_all add: lru_simps)

end
