(* ===== verification/ARCCache.thy ===== *)
theory ARCCache
  imports SimpleLRU
begin

text \<open>
  The adaptive replacement cache of \<open>vendor/github.com/hashicorp/golang-lru/arc.go\<close>: two LRU lists
  \<open>t1\<close> (seen once) and \<open>t2\<close> (seen again) hold the cached values, two ghost lists \<open>b1\<close> and \<open>b2\<close> hold
  keys evicted from them, and \<open>arc_p\<close> is the learned target length of \<open>t1\<close>. The mutex makes each
  operation atomic, so an operation is one function on the state.

  The invariant \<open>arc_inv\<close> says that the four lists are well formed and share no key, that \<open>arc_p\<close>
  stays between 0 and the size, and how many values are held. The bound is \<open>size + 1\<close> and not
  \<open>size\<close>: \<open>replace\<close> evicts nothing when \<open>t2\<close> is empty and \<open>t1\<close> is exactly as long as its target.
  The locale \<open>evicting_cache\<close> is the interface the in-memory store relies on.
\<close>

section \<open>State and operations\<close>

record ('k, 'v) ARCCache =
  arc_size :: int
  arc_p :: int
  t1 :: "('k, 'v) LRU"
  t2 :: "('k, 'v) LRU"
  b1 :: "('k, unit) LRU"
  b2 :: "('k, unit) LRU"

definition NewARC :: "int \<Rightarrow> ('k, 'v) ARCCache option" where
  "NewARC n = (case NewLRU n of None \<Rightarrow> None | Some lb1 \<Rightarrow>
     (case NewLRU n of None \<Rightarrow> None | Some lb2 \<Rightarrow>
     (case NewLRU n of None \<Rightarrow> None | Some lt1 \<Rightarrow>
     (case NewLRU n of None \<Rightarrow> None | Some lt2 \<Rightarrow>
       Some \<lparr>arc_size = n, arc_p = 0, t1 = lt1, t2 = lt2, b1 = lb1, b2 = lb2\<rparr>))))"

definition arc_Get :: "'k \<Rightarrow> ('k, 'v) ARCCache \<Rightarrow> 'v option \<times> ('k, 'v) ARCCache" where
  "arc_Get k c = (case lru_Peek k (t1 c) of
     Some val \<Rightarrow> (Some val, c\<lparr>t1 := snd (lru_Remove k (t1 c)), t2 := snd (lru_Add k val (t2 c))\<rparr>)
   | None \<Rightarrow> (let (r, l) = lru_Get k (t2 c) in (r, c\<lparr>t2 := l\<rparr>)))"

definition arc_replace :: "bool \<Rightarrow> ('k, 'v) ARCCache \<Rightarrow> ('k, 'v) ARCCache" where
  "arc_replace b2ContainsKey c =
     (let t1Len = lru_Len (t1 c) in
      if t1Len > 0 \<and> (t1Len > arc_p c \<or> (t1Len = arc_p c \<and> b2ContainsKey)) then
        (case lru_RemoveOldest (t1 c) of
           (Some (k, _), l) \<Rightarrow> c\<lparr>t1 := l, b1 := snd (lru_Add k () (b1 c))\<rparr>
         | (None, l) \<Rightarrow> c\<lparr>t1 := l\<rparr>)
      else
        (case lru_RemoveOldest (t2 c) of
           (Some (k, _), l) \<Rightarrow> c\<lparr>t2 := l, b2 := snd (lru_Add k () (b2 c))\<rparr>
         | (None, l) \<Rightarrow> c\<lparr>t2 := l\<rparr>))"

text \<open>\<open>replace\<close> runs only when the cache holds at least \<open>size\<close> values.\<close>

definition arc_makeRoom :: "bool \<Rightarrow> ('k, 'v) ARCCache \<Rightarrow> ('k, 'v) ARCCache" where
  "arc_makeRoom b c = (if lru_Len (t1 c) + lru_Len (t2 c) \<ge> arc_size c then arc_replace b c else c)"

definition arc_Add :: "'k \<Rightarrow> 'v \<Rightarrow> ('k, 'v) ARCCache \<Rightarrow> ('k, 'v) ARCCache" where
  "arc_Add k v c =
     (if lru_Contains k (t1 c) then
        c\<lparr>t1 := snd (lru_Remove k (t1 c)), t2 := snd (lru_Add k v (t2 c))\<rparr>
      else if lru_Contains k (t2 c) then
        c\<lparr>t2 := snd (lru_Add k v (t2 c))\<rparr>
      else if lru_Contains k (b1 c) then
        let b1Len = lru_Len (b1 c); b2Len = lru_Len (b2 c);
            delta = (if b2Len > b1Len then b2Len div b1Len else 1);
            c1 = c\<lparr>arc_p := (if arc_p c + delta \<ge> arc_size c then arc_size c else arc_p c + delta)\<rparr>;
            c2 = arc_makeRoom False c1;
            c3 = c2\<lparr>b1 := snd (lru_Remove k (b1 c2))\<rparr>
        in c3\<lparr>t2 := snd (lru_Add k v (t2 c3))\<rparr>
      else if lru_Contains k (b2 c) then
        let b1Len = lru_Len (b1 c); b2Len = lru_Len (b2 c);
            delta = (if b1Len > b2Len then b1Len div b2Len else 1);
            c1 = c\<lparr>arc_p := (if delta \<ge> arc_p c then 0 else arc_p c - delta)\<rparr>;
            c2 = arc_makeRoom True c1;
            c3 = c2\<lparr>b2 := snd (lru_Remove k (b2 c2))\<rparr>
        in c3\<lparr>t2 := snd (lru_Add k v (t2 c3))\<rparr>
      else
        let c1 = arc_makeRoom False c;
            c2 = (if lru_Len (b1 c1) > arc_size c1 - arc_p c1
                  then c1\<lparr>b1 := snd (lru_RemoveOldest (b1 c1))\<rparr> else c1);
            c3 = (if lru_Len (b2 c2) > arc_p c2
                  then c2\<lparr>b2 := snd (lru_RemoveOldest (b2 c2))\<rparr> else c2)
        in c3\<lparr>t1 := snd (lru_Add k v (t1 c3))\<rparr>)"

definition arc_Len :: "('k, 'v) ARCCache \<Rightarrow> int" where
  "arc_Len c = lru_Len (t1 c) + lru_Len (t2 c)"

definition arc_Keys :: "('k, 'v) ARCCache \<Rightarrow> 'k list" where
  "arc_Keys c = lru_Keys (t1 c) @ lru_Keys (t2 c)"

definition arc_Remove :: "'k \<Rightarrow> ('k, 'v) ARCCache \<Rightarrow> ('k, 'v) ARCCache" where
  "arc_Remove k c =
     (let (ok1, l1) = lru_Remove k (t1 c); c1 = c\<lparr>t1 := l1\<rparr> in if ok1 then c1 else
      let (ok2, l2) = lru_Remove k (t2 c1); c2 = c1\<lparr>t2 := l2\<rparr> in if ok2 then c2 else
      let (ok3, l3) = lru_Remove k (b1 c2); c3 = c2\<lparr>b1 := l3\<rparr> in if ok3 then c3 else
      let (ok4, l4) = lru_Remove k (b2 c3) in c3\<lparr>b2 := l4\<rparr>)"

definition arc_Purge :: "('k, 'v) ARCCache \<Rightarrow> ('k, 'v) ARCCache" where
  "arc_Purge c = c\<lparr>t1 := lru_Purge (t1 c), t2 := lru_Purge (t2 c),
     b1 := lru_Purge (b1 c), b2 := lru_Purge (b2 c)\<rparr>"

definition arc_Contains :: "'k \<Rightarrow> ('k, 'v) ARCCache \<Rightarrow> bool" where
  "arc_Contains k c \<longleftrightarrow> lru_Contains k (t1 c) \<or> lru_Contains k (t2 c)"

definition arc_Peek :: "'k \<Rightarrow> ('k, 'v) ARCCache \<Rightarrow> 'v option" where
  "arc_Peek k c = (case lru_Peek k (t1 c) of Some val \<Rightarrow> Some val | None \<Rightarrow> lru_Peek k (t2 c))"

section \<open>Invariant\<close>

definition keyset :: "('k, 'v) LRU \<Rightarrow> 'k set" where
  "keyset l = fst ` set (entries l)"

definition arc_inv :: "('k, 'v) ARCCache \<Rightarrow> bool" where
  "arc_inv c \<longleftrightarrow> lru_inv (t1 c) \<and> lru_inv (t2 c) \<and> lru_inv (b1 c) \<and> lru_inv (b2 c)
     \<and> lru_size (t1 c) = arc_size c \<and> lru_size (t2 c) = arc_size c
     \<and> lru_size (b1 c) = arc_size c \<and> lru_size (b2 c) = arc_size c
     \<and> 0 \<le> arc_p c \<and> arc_p c \<le> arc_size c
     \<and> keyset (t1 c) \<inter> keyset (t2 c) = {} \<and> keyset (b1 c) \<inter> keyset (b2 c) = {}
     \<and> (keyset (b1 c) \<union> keyset (b2 c)) \<inter> (keyset (t1 c) \<union> keyset (t2 c)) = {}
     \<and> arc_Len c \<le> arc_size c + 1"

definition arc_lookup :: "('k, 'v) ARCCache \<Rightarrow> 'k \<rightharpoonup> 'v" where
  "arc_lookup c k = (case map_of (entries (t1 c)) k of Some v \<Rightarrow> Some v | None \<Rightarrow> map_of (entries (t2 c)) k)"

section \<open>Building blocks of the operations\<close>

text \<open>Each block changes one list; the operations compose them.\<close>

lemma arc_Len_entries: "arc_Len c = int (length (entries (t1 c))) + int (length (entries (t2 c)))"
  by (simp add: arc_Len_def length_entries)

lemma arc_invD:
  assumes "arc_inv c"
  shows "lru_inv (t1 c)" "lru_inv (t2 c)" "lru_inv (b1 c)" "lru_inv (b2 c)"
    "lru_size (t1 c) = arc_size c" "lru_size (t2 c) = arc_size c"
    "lru_size (b1 c) = arc_size c" "lru_size (b2 c) = arc_size c"
    "0 \<le> arc_p c" "arc_p c \<le> arc_size c"
    "keyset (t1 c) \<inter> keyset (t2 c) = {}" "keyset (b1 c) \<inter> keyset (b2 c) = {}"
    "(keyset (b1 c) \<union> keyset (b2 c)) \<inter> (keyset (t1 c) \<union> keyset (t2 c)) = {}"
    "arc_Len c \<le> arc_size c + 1"
  using assms unfolding arc_inv_def by blast+

lemma dom_map_of_entries: "map_of (entries l) k = None \<longleftrightarrow> k \<notin> keyset l"
  by (simp add: map_of_eq_None_iff keyset_def)

lemma map_of_entries_Some: "map_of (entries l) k = Some v \<Longrightarrow> k \<in> keyset l"
  by (metis dom_map_of_entries option.distinct(1))

lemmas keyset_ops =
  lru.add_keys [folded keyset_def] lru.get_keys [folded keyset_def] lru.remove_keys [folded keyset_def]

lemmas lookup_room = lru.lookup_add_room [folded keyset_def]

lemma dom_arc_lookup: "dom (arc_lookup c) = keyset (t1 c) \<union> keyset (t2 c)"
  by (auto simp: dom_def arc_lookup_def split: option.splits dest: map_of_entries_Some)
    (metis dom_map_of_entries option.exhaust)+

lemma size_pos: "arc_inv c \<Longrightarrow> 0 < arc_size c"
  using lru.cap_pos arc_invD(1,5) by metis

lemma add_t2:
  fixes c :: "('k, 'v) ARCCache" and v :: 'v
  assumes inv: "arc_inv c" and k: "k \<notin> keyset (t1 c)" "k \<notin> keyset (b1 c)" "k \<notin> keyset (b2 c)"
    and room: "arc_Len c \<le> arc_size c \<or> k \<in> keyset (t2 c)"
  defines "c' \<equiv> c\<lparr>t2 := snd (lru_Add k v (t2 c))\<rparr>"
  shows "arc_inv c'" "arc_lookup c' k = Some v" "arc_lookup c' \<subseteq>\<^sub>m (arc_lookup c)(k \<mapsto> v)"
    "arc_Len c < arc_size c \<or> k \<in> keyset (t2 c) \<Longrightarrow> arc_lookup c' = (arc_lookup c)(k \<mapsto> v)"
proof -
  note invs = arc_invD [OF inv]
  have t1: "map_of (entries (t1 c)) k = None" using k by (simp add: dom_map_of_entries)
  have len: "length (entries (snd (lru_Add k v (t2 c)))) \<le> Suc (length (entries (t2 c)))"
    using invs(2) by (rule lru.length_add)
  have "k \<in> keyset (t2 c) \<Longrightarrow> length (entries (snd (lru_Add k v (t2 c)))) = length (entries (t2 c))"
    using lru.keys_distinct [OF invs(2)] length_alist_remove [of "entries (t2 c)" k]
    by (simp add: lru.view_add [OF invs(2)] alist_add_def keyset_def)
  with len room invs(14) have "arc_Len c' \<le> arc_size c + 1"
    by (auto simp: c'_def arc_Len_entries)
  then show "arc_inv c'"
    using invs k keyset_ops(1) [OF invs(2), of k v] lru.inv_ops(1) [OF invs(2)] lru.cap_ops(1) [OF invs(2)]
    unfolding arc_inv_def c'_def by auto
  show "arc_lookup c' k = Some v"
    using lru.lookup_add_same [OF invs(2)] t1 by (simp add: c'_def arc_lookup_def)
  show "arc_lookup c' \<subseteq>\<^sub>m (arc_lookup c)(k \<mapsto> v)"
    using lru.lookup_add_other [OF invs(2), of _ k v] lru.lookup_add_same [OF invs(2), of k v] t1
    unfolding map_le_def c'_def arc_lookup_def by (auto split: option.splits) (metis option.distinct(1))
  show "arc_lookup c' = (arc_lookup c)(k \<mapsto> v)" if "arc_Len c < arc_size c \<or> k \<in> keyset (t2 c)"
  proof -
    from that invs(6) have "int (length (entries (t2 c))) < lru_size (t2 c) \<or> k \<in> keyset (t2 c)"
      by (auto simp: arc_Len_entries)
    with lookup_room [OF invs(2), of k v] t1 show ?thesis
      by (auto simp: c'_def arc_lookup_def fun_eq_iff split: option.splits)
  qed
qed

lemma add_t1:
  fixes c :: "('k, 'v) ARCCache" and v :: 'v
  assumes inv: "arc_inv c" and k: "k \<notin> keyset (t2 c)" "k \<notin> keyset (b1 c)" "k \<notin> keyset (b2 c)"
    and room: "arc_Len c \<le> arc_size c"
  defines "c' \<equiv> c\<lparr>t1 := snd (lru_Add k v (t1 c))\<rparr>"
  shows "arc_inv c'" "arc_lookup c' k = Some v" "arc_lookup c' \<subseteq>\<^sub>m (arc_lookup c)(k \<mapsto> v)"
    "arc_Len c < arc_size c \<Longrightarrow> arc_lookup c' = (arc_lookup c)(k \<mapsto> v)"
proof -
  note invs = arc_invD [OF inv]
  have len: "length (entries (snd (lru_Add k v (t1 c)))) \<le> Suc (length (entries (t1 c)))"
    using invs(1) by (rule lru.length_add)
  with room have "arc_Len c' \<le> arc_size c + 1" by (auto simp: c'_def arc_Len_entries)
  then show "arc_inv c'"
    using invs k keyset_ops(1) [OF invs(1), of k v] lru.inv_ops(1) [OF invs(1)] lru.cap_ops(1) [OF invs(1)]
    unfolding arc_inv_def c'_def by auto
  show "arc_lookup c' k = Some v"
    using lru.lookup_add_same [OF invs(1)] by (simp add: c'_def arc_lookup_def)
  have "arc_lookup c' j = arc_lookup c j \<or> arc_lookup c' j = None" if "j \<noteq> k" for j
  proof (cases "j \<in> keyset (t1 c)")
    case True
    with invs(11) have "map_of (entries (t2 c)) j = None" by (auto simp: dom_map_of_entries)
    with lru.lookup_add_other [OF invs(1) that, of v] show ?thesis
      by (auto simp: c'_def arc_lookup_def split: option.splits)
  next
    case False
    with keyset_ops(1) [OF invs(1), of k v] that have "j \<notin> keyset (snd (lru_Add k v (t1 c)))" by auto
    with False show ?thesis by (simp add: c'_def arc_lookup_def flip: dom_map_of_entries)
  qed
  with \<open>arc_lookup c' k = Some v\<close> show "arc_lookup c' \<subseteq>\<^sub>m (arc_lookup c)(k \<mapsto> v)"
    by (auto simp: map_le_def dom_def) (metis option.distinct(1))
  show "arc_lookup c' = (arc_lookup c)(k \<mapsto> v)" if "arc_Len c < arc_size c"
  proof -
    from that invs(5) have "int (length (entries (t1 c))) < lru_size (t1 c)" by (auto simp: arc_Len_entries)
    with lookup_room [OF invs(1), of k v] show ?thesis
      by (auto simp: c'_def arc_lookup_def fun_eq_iff split: option.splits)
  qed
qed

lemma drop_t1:
  fixes c :: "('k, 'v) ARCCache" and k :: 'k
  assumes inv: "arc_inv c" and k: "k \<in> keyset (t1 c)"
  defines "c' \<equiv> c\<lparr>t1 := snd (lru_Remove k (t1 c))\<rparr>"
  shows "arc_inv c'" "arc_lookup c' = (arc_lookup c)(k := None)" "arc_Len c' = arc_Len c - 1"
proof -
  note invs = arc_invD [OF inv]
  have len: "Suc (length (entries (snd (lru_Remove k (t1 c))))) = length (entries (t1 c))"
    using length_alist_remove [OF lru.keys_distinct [OF invs(1)], of k] k
    by (simp add: lru.view_remove [OF invs(1)] keyset_def)
  then show len': "arc_Len c' = arc_Len c - 1" by (auto simp: c'_def arc_Len_entries)
  then have "arc_Len c' \<le> arc_size c + 1" using invs(14) by simp
  then show "arc_inv c'"
    using invs keyset_ops(3) [OF invs(1), of k] lru.inv_ops(3) [OF invs(1)] lru.cap_ops(3) [OF invs(1)]
    unfolding arc_inv_def c'_def by auto
  from k invs(11) have "map_of (entries (t2 c)) k = None" by (auto simp: dom_map_of_entries)
  then show "arc_lookup c' = (arc_lookup c)(k := None)"
    by (auto simp: c'_def arc_lookup_def lru.view_remove [OF invs(1)] fun_eq_iff split: option.splits)
qed

lemma drop_t2:
  fixes c :: "('k, 'v) ARCCache" and k :: 'k
  assumes inv: "arc_inv c" and k: "k \<notin> keyset (t1 c)"
  defines "c' \<equiv> c\<lparr>t2 := snd (lru_Remove k (t2 c))\<rparr>"
  shows "arc_inv c'" "arc_lookup c' = (arc_lookup c)(k := None)"
proof -
  note invs = arc_invD [OF inv]
  have "length (entries (snd (lru_Remove k (t2 c)))) \<le> length (entries (t2 c))"
    by (simp add: lru.view_remove [OF invs(2)] length_alist_remove_le)
  then have "arc_Len c' \<le> arc_size c + 1" using invs(14) by (auto simp: c'_def arc_Len_entries)
  then show "arc_inv c'"
    using invs keyset_ops(3) [OF invs(2), of k] lru.inv_ops(3) [OF invs(2)] lru.cap_ops(3) [OF invs(2)]
    unfolding arc_inv_def c'_def by auto
  from k have "map_of (entries (t1 c)) k = None" by (simp add: dom_map_of_entries)
  then show "arc_lookup c' = (arc_lookup c)(k := None)"
    by (auto simp: c'_def arc_lookup_def lru.view_remove [OF invs(2)] fun_eq_iff split: option.splits)
qed

text \<open>The ghost lists and the target may change in any way that shrinks or bounds them.\<close>

lemma set_ghosts:
  assumes inv: "arc_inv c" and "lru_inv l1" "lru_inv l2" "lru_size l1 = arc_size c" "lru_size l2 = arc_size c"
    and "keyset l1 \<subseteq> keyset (b1 c)" "keyset l2 \<subseteq> keyset (b2 c)" "0 \<le> q" "q \<le> arc_size c"
  shows "arc_inv (c\<lparr>b1 := l1, b2 := l2, arc_p := q\<rparr>)"
  using arc_invD [OF inv] assms(2-) unfolding arc_inv_def arc_Len_def by auto

lemma lookup_ghosts [simp]:
  "arc_lookup (c\<lparr>b1 := l1\<rparr>) = arc_lookup c" "arc_lookup (c\<lparr>b2 := l2\<rparr>) = arc_lookup c"
  "arc_lookup (c\<lparr>arc_p := q\<rparr>) = arc_lookup c"
  "arc_Len (c\<lparr>b1 := l1\<rparr>) = arc_Len c" "arc_Len (c\<lparr>b2 := l2\<rparr>) = arc_Len c" "arc_Len (c\<lparr>arc_p := q\<rparr>) = arc_Len c"
  by (auto simp: arc_lookup_def arc_Len_def fun_eq_iff split: option.splits)

lemma set_p: "arc_inv c \<Longrightarrow> 0 \<le> q \<Longrightarrow> q \<le> arc_size c \<Longrightarrow> arc_inv (c\<lparr>arc_p := q\<rparr>)"
  unfolding arc_inv_def arc_Len_def by simp

lemma set_b1:
  "arc_inv c \<Longrightarrow> lru_inv l \<Longrightarrow> lru_size l = arc_size c \<Longrightarrow> keyset l \<subseteq> keyset (b1 c) \<Longrightarrow> arc_inv (c\<lparr>b1 := l\<rparr>)"
  using set_ghosts [of c l "b2 c" "arc_p c"] arc_invD [of c] by simp

lemma set_b2:
  "arc_inv c \<Longrightarrow> lru_inv l \<Longrightarrow> lru_size l = arc_size c \<Longrightarrow> keyset l \<subseteq> keyset (b2 c) \<Longrightarrow> arc_inv (c\<lparr>b2 := l\<rparr>)"
  using set_ghosts [of c "b1 c" l "arc_p c"] arc_invD [of c] by simp

lemma keyset_butlast: "lru_inv l \<Longrightarrow> keyset (snd (lru_RemoveOldest l)) \<subseteq> keyset l"
  by (auto simp: keyset_def lru.view_oldest dest: in_set_butlastD)

lemmas ghost_ops = set_b1 set_b2 keyset_butlast keyset_ops(3) lru.inv_ops lru.cap_ops

text \<open>\<open>replace\<close> moves the oldest entry of one value list to the front of its ghost list.\<close>

lemma evict_t1:
  fixes c :: "('k, 'v) ARCCache"
  assumes inv: "arc_inv c" and ne: "entries (t1 c) \<noteq> []"
  defines "k \<equiv> fst (last (entries (t1 c)))"
  defines "c' \<equiv> c\<lparr>t1 := snd (lru_RemoveOldest (t1 c)), b1 := snd (lru_Add k () (b1 c))\<rparr>"
  shows "arc_inv c'" "arc_lookup c' = (arc_lookup c)(k := None)" "arc_Len c' = arc_Len c - 1"
    "keyset (b1 c') \<subseteq> insert k (keyset (b1 c))"
proof -
  note invs = arc_invD [OF inv]
  let ?xs = "entries (t1 c)"
  have dist: "distinct (map fst ?xs)" using invs(1) by (rule lru.keys_distinct)
  have view: "entries (snd (lru_RemoveOldest (t1 c))) = butlast ?xs" using invs(1) by (rule lru.view_oldest)
  have k: "k \<in> keyset (t1 c)" using ne by (simp add: k_def keyset_def)
  have mo: "map_of (butlast ?xs) = (map_of ?xs)(k := None)" using map_of_butlast [OF dist ne] by (simp add: k_def)
  have ks: "keyset (snd (lru_RemoveOldest (t1 c))) = keyset (t1 c) - {k}"
    using mo view by (metis dom_fun_upd dom_map_of_conv_image_fst keyset_def)
  show "keyset (b1 c') \<subseteq> insert k (keyset (b1 c))" using keyset_ops(1) [OF invs(3)] by (simp add: c'_def)
  show len: "arc_Len c' = arc_Len c - 1" using ne by (simp add: c'_def arc_Len_entries view of_nat_diff Suc_leI)
  from k invs(11) have "map_of (entries (t2 c)) k = None" by (auto simp: dom_map_of_entries)
  then show "arc_lookup c' = (arc_lookup c)(k := None)"
    by (auto simp: c'_def arc_lookup_def view mo fun_eq_iff split: option.splits)
  have fresh: "k \<notin> keyset (t2 c)" "k \<notin> keyset (b1 c)" "k \<notin> keyset (b2 c)" using k invs(11,13) by auto
  show "arc_inv c'"
    using invs(2-14) ks fresh keyset_ops(1) [OF invs(3), of k "()"] len lru.inv_ops(1) [OF invs(3)]
      lru.cap_ops(1) [OF invs(3)] lru.inv_ops(4) [OF invs(1)] lru.cap_ops(4) [OF invs(1)] invs(5)
    unfolding arc_inv_def c'_def by auto
qed

lemma evict_t2:
  fixes c :: "('k, 'v) ARCCache"
  assumes inv: "arc_inv c" and ne: "entries (t2 c) \<noteq> []"
  defines "k \<equiv> fst (last (entries (t2 c)))"
  defines "c' \<equiv> c\<lparr>t2 := snd (lru_RemoveOldest (t2 c)), b2 := snd (lru_Add k () (b2 c))\<rparr>"
  shows "arc_inv c'" "arc_lookup c' = (arc_lookup c)(k := None)" "arc_Len c' = arc_Len c - 1"
    "keyset (b2 c') \<subseteq> insert k (keyset (b2 c))"
proof -
  note invs = arc_invD [OF inv]
  let ?xs = "entries (t2 c)"
  have dist: "distinct (map fst ?xs)" using invs(2) by (rule lru.keys_distinct)
  have view: "entries (snd (lru_RemoveOldest (t2 c))) = butlast ?xs" using invs(2) by (rule lru.view_oldest)
  have k: "k \<in> keyset (t2 c)" using ne by (simp add: k_def keyset_def)
  have mo: "map_of (butlast ?xs) = (map_of ?xs)(k := None)" using map_of_butlast [OF dist ne] by (simp add: k_def)
  have ks: "keyset (snd (lru_RemoveOldest (t2 c))) = keyset (t2 c) - {k}"
    using mo view by (metis dom_fun_upd dom_map_of_conv_image_fst keyset_def)
  show "keyset (b2 c') \<subseteq> insert k (keyset (b2 c))" using keyset_ops(1) [OF invs(4)] by (simp add: c'_def)
  show len: "arc_Len c' = arc_Len c - 1" using ne by (simp add: c'_def arc_Len_entries view of_nat_diff Suc_leI)
  from k invs(11) have "map_of (entries (t1 c)) k = None" by (auto simp: dom_map_of_entries)
  then show "arc_lookup c' = (arc_lookup c)(k := None)"
    by (auto simp: c'_def arc_lookup_def view mo fun_eq_iff split: option.splits)
  have fresh: "k \<notin> keyset (t1 c)" "k \<notin> keyset (b1 c)" "k \<notin> keyset (b2 c)" using k invs(11,13) by auto
  show "arc_inv c'"
    using invs ks fresh keyset_ops(1) [OF invs(4), of k "()"] len lru.inv_ops(1) [OF invs(4)]
      lru.cap_ops(1) [OF invs(4)] lru.inv_ops(4) [OF invs(2)] lru.cap_ops(4) [OF invs(2)]
    unfolding arc_inv_def c'_def by auto
qed

lemma arc_replace_cases:
  assumes inv: "arc_inv c"
  obtains (t1) "entries (t1 c) \<noteq> []"
      "arc_replace b c = c\<lparr>t1 := snd (lru_RemoveOldest (t1 c)),
         b1 := snd (lru_Add (fst (last (entries (t1 c)))) () (b1 c))\<rparr>"
    | (t2) "entries (t2 c) \<noteq> []"
      "arc_replace b c = c\<lparr>t2 := snd (lru_RemoveOldest (t2 c)),
         b2 := snd (lru_Add (fst (last (entries (t2 c)))) () (b2 c))\<rparr>"
    | (none) "entries (t2 c) = []" "arc_replace b c = c"
proof -
  note invs = arc_invD [OF inv]
  let ?g = "lru_Len (t1 c) > 0 \<and> (lru_Len (t1 c) > arc_p c \<or> (lru_Len (t1 c) = arc_p c \<and> b))"
  show ?thesis
  proof (cases ?g)
    case True
    then have ne: "entries (t1 c) \<noteq> []" by (auto simp flip: length_entries)
    with lru.oldest_value [OF invs(1)] have "fst (lru_RemoveOldest (t1 c)) = Some (last (entries (t1 c)))" by simp
    with True have "arc_replace b c = c\<lparr>t1 := snd (lru_RemoveOldest (t1 c)),
         b1 := snd (lru_Add (fst (last (entries (t1 c)))) () (b1 c))\<rparr>"
      by (cases "lru_RemoveOldest (t1 c)") (auto simp: arc_replace_def Let_def split: prod.splits)
    with ne t1 show ?thesis by blast
  next
    case False
    show ?thesis
    proof (cases "entries (t2 c) = []")
      case ne: False
      with lru.oldest_value [OF invs(2)] have "fst (lru_RemoveOldest (t2 c)) = Some (last (entries (t2 c)))" by simp
      with False have "arc_replace b c = c\<lparr>t2 := snd (lru_RemoveOldest (t2 c)),
           b2 := snd (lru_Add (fst (last (entries (t2 c)))) () (b2 c))\<rparr>"
        by (cases "lru_RemoveOldest (t2 c)") (auto simp: arc_replace_def Let_def split: prod.splits)
      with ne t2 show ?thesis by blast
    next
      case True
      then have "lru_RemoveOldest (t2 c) = (None, t2 c)" by (simp add: lru_RemoveOldest_def entries_def)
      with False have "arc_replace b c = c" unfolding arc_replace_def Let_def by (simp only: if_False) simp
      with True none show ?thesis by blast
    qed
  qed
qed

lemma map_le_upd_None: "m(k := None) \<subseteq>\<^sub>m m"
  by (simp add: map_le_def)

lemma makeRoom:
  fixes c :: "('k, 'v) ARCCache" and b :: bool
  assumes inv: "arc_inv c"
  defines "c' \<equiv> arc_makeRoom b c"
  shows "arc_inv c'" "arc_Len c' \<le> arc_size c" "arc_lookup c' \<subseteq>\<^sub>m arc_lookup c"
    "arc_size c' = arc_size c" "arc_p c' = arc_p c"
    "keyset (b1 c') \<subseteq> keyset (b1 c) \<union> dom (arc_lookup c)"
    "keyset (b2 c') \<subseteq> keyset (b2 c) \<union> dom (arc_lookup c)"
    "arc_Len c < arc_size c \<Longrightarrow> c' = c"
proof -
  note invs = arc_invD [OF inv]
  let ?P = "\<lambda>c'. arc_inv c' \<and> arc_Len c' \<le> arc_size c \<and> arc_lookup c' \<subseteq>\<^sub>m arc_lookup c
    \<and> arc_size c' = arc_size c \<and> arc_p c' = arc_p c
    \<and> keyset (b1 c') \<subseteq> keyset (b1 c) \<union> dom (arc_lookup c)
    \<and> keyset (b2 c') \<subseteq> keyset (b2 c) \<union> dom (arc_lookup c)"
  have "?P (arc_replace b c)"
  proof (rule arc_replace_cases [OF inv, of b])
    assume ne: "entries (t1 c) \<noteq> []" and eq: "arc_replace b c = c\<lparr>t1 := snd (lru_RemoveOldest (t1 c)),
         b1 := snd (lru_Add (fst (last (entries (t1 c)))) () (b1 c))\<rparr>"
    have "fst (last (entries (t1 c))) \<in> dom (arc_lookup c)" using ne by (auto simp: dom_arc_lookup keyset_def)
    with evict_t1 [OF inv ne] invs(14) show ?thesis by (auto simp: eq map_le_upd_None)
  next
    assume ne: "entries (t2 c) \<noteq> []" and eq: "arc_replace b c = c\<lparr>t2 := snd (lru_RemoveOldest (t2 c)),
         b2 := snd (lru_Add (fst (last (entries (t2 c)))) () (b2 c))\<rparr>"
    have "fst (last (entries (t2 c))) \<in> dom (arc_lookup c)" using ne by (auto simp: dom_arc_lookup keyset_def)
    with evict_t2 [OF inv ne] invs(14) show ?thesis by (auto simp: eq map_le_upd_None)
  next
    assume "entries (t2 c) = []" and eq: "arc_replace b c = c"
    with lru.view_cap [OF invs(1)] invs(5) have "arc_Len c \<le> arc_size c" by (simp add: arc_Len_entries)
    with inv eq show ?thesis by simp
  qed
  moreover have "?P c" if "arc_Len c < arc_size c" using inv that by auto
  ultimately have "?P c'" by (auto simp: c'_def arc_makeRoom_def arc_Len_def)
  then show "arc_inv c'" "arc_Len c' \<le> arc_size c" "arc_lookup c' \<subseteq>\<^sub>m arc_lookup c"
    "arc_size c' = arc_size c" "arc_p c' = arc_p c"
    "keyset (b1 c') \<subseteq> keyset (b1 c) \<union> dom (arc_lookup c)"
    "keyset (b2 c') \<subseteq> keyset (b2 c) \<union> dom (arc_lookup c)" by blast+
  show "c' = c" if "arc_Len c < arc_size c" using that by (simp add: c'_def arc_makeRoom_def arc_Len_def)
qed

section \<open>What the operations do\<close>

text \<open>
  The contract of \<open>Add\<close>: the key holds the new value; every other key keeps its value or is
  evicted; nothing is evicted while the cache is not full.
\<close>

definition add_contract :: "'k \<Rightarrow> 'v \<Rightarrow> ('k, 'v) ARCCache \<Rightarrow> ('k, 'v) ARCCache \<Rightarrow> bool" where
  "add_contract k v c c' \<longleftrightarrow> arc_inv c' \<and> arc_size c' = arc_size c \<and> arc_lookup c' k = Some v
     \<and> arc_lookup c' \<subseteq>\<^sub>m (arc_lookup c)(k \<mapsto> v)
     \<and> (arc_Len c < arc_size c \<longrightarrow> arc_lookup c' = (arc_lookup c)(k \<mapsto> v))"

text \<open>The two ends of \<open>Add\<close>: insertion into \<open>t2\<close> or \<open>t1\<close> after the preparation has led to \<open>d\<close>.\<close>

lemma map_le_upd: "m \<subseteq>\<^sub>m n \<Longrightarrow> m(k \<mapsto> v) \<subseteq>\<^sub>m n(k \<mapsto> v)"
  by (auto simp: map_le_def)

lemma finish_t2:
  assumes d: "arc_inv d" "arc_size d = arc_size c" "arc_Len d \<le> arc_size d" "arc_lookup d \<subseteq>\<^sub>m arc_lookup c"
    and k: "k \<notin> keyset (t1 d)" "k \<notin> keyset (b1 d)" "k \<notin> keyset (b2 d)"
    and room: "arc_Len c < arc_size c \<Longrightarrow> arc_Len d < arc_size d \<and> (arc_lookup d)(k \<mapsto> v) = (arc_lookup c)(k \<mapsto> v)"
  shows "add_contract k v c (d\<lparr>t2 := snd (lru_Add k v (t2 d))\<rparr>)"
  using add_t2 [OF d(1) k, of v] d(2,3) map_le_upd [OF d(4)] room
  unfolding add_contract_def by (auto intro: map_le_trans)

lemma finish_t1:
  assumes d: "arc_inv d" "arc_size d = arc_size c" "arc_Len d \<le> arc_size d" "arc_lookup d \<subseteq>\<^sub>m arc_lookup c"
    and k: "k \<notin> keyset (t2 d)" "k \<notin> keyset (b1 d)" "k \<notin> keyset (b2 d)"
    and room: "arc_Len c < arc_size c \<Longrightarrow> arc_Len d < arc_size d \<and> arc_lookup d = arc_lookup c"
  shows "add_contract k v c (d\<lparr>t1 := snd (lru_Add k v (t1 d))\<rparr>)"
  using add_t1 [OF d(1) k, of v] d(2,3) map_le_upd [OF d(4)] room
  unfolding add_contract_def by (auto intro: map_le_trans)

lemma add_hit_t1:
  assumes inv: "arc_inv c" and k: "k \<in> keyset (t1 c)"
  shows "add_contract k v c (c\<lparr>t1 := snd (lru_Remove k (t1 c)), t2 := snd (lru_Add k v (t2 c))\<rparr>)"
proof -
  note invs = arc_invD [OF inv]
  let ?d = "c\<lparr>t1 := snd (lru_Remove k (t1 c))\<rparr>"
  note d = drop_t1 [OF inv k]
  have "add_contract k v c (?d\<lparr>t2 := snd (lru_Add k v (t2 ?d))\<rparr>)"
  proof (rule finish_t2)
    show "arc_inv ?d" "arc_lookup ?d \<subseteq>\<^sub>m arc_lookup c" using d by (simp_all add: map_le_upd_None)
    show "arc_Len ?d \<le> arc_size ?d" using d(3) invs(14) by simp
    show "k \<notin> keyset (t1 ?d)" "k \<notin> keyset (b1 ?d)" "k \<notin> keyset (b2 ?d)"
      using keyset_ops(3) [OF invs(1), of k] k invs(13) by auto
    show "arc_Len ?d < arc_size ?d \<and> (arc_lookup ?d)(k \<mapsto> v) = (arc_lookup c)(k \<mapsto> v)"
      if "arc_Len c < arc_size c" using that d by simp
  qed simp
  then show ?thesis by simp
qed

lemma add_hit_t2:
  assumes inv: "arc_inv c" and k: "k \<in> keyset (t2 c)"
  shows "add_contract k v c (c\<lparr>t2 := snd (lru_Add k v (t2 c))\<rparr>)"
proof -
  note invs = arc_invD [OF inv]
  have "k \<notin> keyset (t1 c)" "k \<notin> keyset (b1 c)" "k \<notin> keyset (b2 c)" using k invs(11,13) by auto
  from add_t2 [OF inv this, of v] k show ?thesis by (auto simp: add_contract_def)
qed

text \<open>A ghost hit: the target moves to \<open>q\<close>, room is made, and the key leaves its ghost list.\<close>

lemma add_hit_ghost:
  assumes inv: "arc_inv c" and k: "k \<in> keyset (b1 c) \<union> keyset (b2 c)" and q: "0 \<le> q" "q \<le> arc_size c"
    and d: "d = arc_makeRoom b (c\<lparr>arc_p := q\<rparr>)"
    and e: "k \<in> keyset (b1 c) \<and> e = d\<lparr>b1 := snd (lru_Remove k (b1 d))\<rparr>
      \<or> k \<in> keyset (b2 c) \<and> e = d\<lparr>b2 := snd (lru_Remove k (b2 d))\<rparr>"
  shows "add_contract k v c (e\<lparr>t2 := snd (lru_Add k v (t2 e))\<rparr>)"
proof -
  note invs = arc_invD [OF inv]
  note room = makeRoom [OF set_p [OF inv q], of b, folded d]
  note dinv = arc_invD [OF room(1)]
  have absent: "k \<notin> dom (arc_lookup c)" using k invs(13) by (auto simp: dom_arc_lookup)
  have "dom (arc_lookup d) \<subseteq> dom (arc_lookup c)" using room(3) by (simp add: map_le_implies_dom_le)
  with absent have kt: "k \<notin> keyset (t1 d)" by (auto simp: dom_arc_lookup)
  have g: "k \<in> keyset (b1 c) \<Longrightarrow> k \<notin> keyset (b2 d)" "k \<in> keyset (b2 c) \<Longrightarrow> k \<notin> keyset (b1 d)"
    using room(6,7) absent invs(12) by auto
  have rem: "keyset (snd (lru_Remove k (b1 d))) = keyset (b1 d) - {k}"
    "keyset (snd (lru_Remove k (b2 d))) = keyset (b2 d) - {k}"
    by (rule keyset_ops(3) [OF dinv(3)], rule keyset_ops(3) [OF dinv(4)])
  show ?thesis
  proof (rule finish_t2)
    show "arc_inv e"
    proof -
      have "arc_inv (d\<lparr>b1 := snd (lru_Remove k (b1 d))\<rparr>)"
        using rem dinv(7) by (intro set_b1 [OF room(1)]) (auto simp: lru.inv_ops(3) lru.cap_ops(3) dinv(3))
      moreover have "arc_inv (d\<lparr>b2 := snd (lru_Remove k (b2 d))\<rparr>)"
        using rem dinv(8) by (intro set_b2 [OF room(1)]) (auto simp: lru.inv_ops(3) lru.cap_ops(3) dinv(4))
      ultimately show ?thesis using e by blast
    qed
    show "arc_size e = arc_size c" "arc_Len e \<le> arc_size e" "arc_lookup e \<subseteq>\<^sub>m arc_lookup c"
      using e room(2-4) by auto
    show "k \<notin> keyset (t1 e)" "k \<notin> keyset (b1 e)" "k \<notin> keyset (b2 e)"
      using e kt by (elim disjE conjE; simp add: rem g)+
    show "arc_Len e < arc_size e \<and> (arc_lookup e)(k \<mapsto> v) = (arc_lookup c)(k \<mapsto> v)" if "arc_Len c < arc_size c"
    proof -
      from room(8) that have dc: "d = c\<lparr>arc_p := q\<rparr>" by simp
      have "arc_Len e = arc_Len d" "arc_size e = arc_size d" "arc_lookup e = arc_lookup d" using e by auto
      with dc that show ?thesis by simp
    qed
  qed
qed

lemma add_hit_b1:
  assumes "arc_inv c" "k \<in> keyset (b1 c)" "0 \<le> q" "q \<le> arc_size c"
  shows "add_contract k v c (let c2 = arc_makeRoom b (c\<lparr>arc_p := q\<rparr>); c3 = c2\<lparr>b1 := snd (lru_Remove k (b1 c2))\<rparr>
    in c3\<lparr>t2 := snd (lru_Add k v (t2 c3))\<rparr>)"
  unfolding Let_def using assms by (intro add_hit_ghost [OF _ _ _ _ refl]) auto

lemma add_hit_b2:
  assumes "arc_inv c" "k \<in> keyset (b2 c)" "0 \<le> q" "q \<le> arc_size c"
  shows "add_contract k v c (let c2 = arc_makeRoom b (c\<lparr>arc_p := q\<rparr>); c3 = c2\<lparr>b2 := snd (lru_Remove k (b2 c2))\<rparr>
    in c3\<lparr>t2 := snd (lru_Add k v (t2 c3))\<rparr>)"
  unfolding Let_def using assms by (intro add_hit_ghost [OF _ _ _ _ refl]) auto

lemma add_miss:
  assumes inv: "arc_inv c" and k: "k \<notin> dom (arc_lookup c)" "k \<notin> keyset (b1 c)" "k \<notin> keyset (b2 c)"
    and c1: "c1 = arc_makeRoom False c"
    and c2: "c2 = c1 \<or> c2 = c1\<lparr>b1 := snd (lru_RemoveOldest (b1 c1))\<rparr>"
    and c3: "c3 = c2 \<or> c3 = c2\<lparr>b2 := snd (lru_RemoveOldest (b2 c2))\<rparr>"
  shows "add_contract k v c (c3\<lparr>t1 := snd (lru_Add k v (t1 c3))\<rparr>)"
proof -
  note room = makeRoom [OF inv, of False, folded c1]
  note i1 = arc_invD [OF room(1)]
  have inv2: "arc_inv c2"
    using c2 room(1) set_b1 [OF room(1)] keyset_butlast [OF i1(3)] lru.inv_ops(4) [OF i1(3)] lru.cap_ops(4) [OF i1(3)] i1(7)
    by auto
  note i2 = arc_invD [OF inv2]
  have inv3: "arc_inv c3"
    using c3 inv2 set_b2 [OF inv2] keyset_butlast [OF i2(4)] lru.inv_ops(4) [OF i2(4)] lru.cap_ops(4) [OF i2(4)] i2(8)
    by auto
  have same: "arc_lookup c3 = arc_lookup c1" "arc_Len c3 = arc_Len c1" "arc_size c3 = arc_size c1"
    "keyset (b1 c3) \<subseteq> keyset (b1 c1)" "keyset (b2 c3) \<subseteq> keyset (b2 c1)"
    using c2 c3 keyset_butlast [OF i1(3)] keyset_butlast [OF i2(4)] by auto
  have "dom (arc_lookup c3) \<subseteq> dom (arc_lookup c)" using room(3) same(1) by (simp add: map_le_implies_dom_le)
  with k(1) have kt: "k \<notin> keyset (t2 c3)" by (auto simp: dom_arc_lookup)
  show ?thesis
  proof (rule finish_t1)
    show "arc_inv c3" by (rule inv3)
    show "arc_size c3 = arc_size c" "arc_Len c3 \<le> arc_size c3" "arc_lookup c3 \<subseteq>\<^sub>m arc_lookup c"
      using room(2-4) same by auto
    show "k \<notin> keyset (t2 c3)" by (rule kt)
    show "k \<notin> keyset (b1 c3)" "k \<notin> keyset (b2 c3)" using room(6,7) k same(4,5) by auto
    show "arc_Len c3 < arc_size c3 \<and> arc_lookup c3 = arc_lookup c" if "arc_Len c < arc_size c"
      using room(8) that same by simp
  qed
qed

lemma add_miss_trim:
  assumes "arc_inv c" "k \<notin> dom (arc_lookup c)" "k \<notin> keyset (b1 c)" "k \<notin> keyset (b2 c)"
  shows "add_contract k v c
    (let c1 = arc_makeRoom False c;
         c2 = (if P c1 then c1\<lparr>b1 := snd (lru_RemoveOldest (b1 c1))\<rparr> else c1);
         c3 = (if Q c2 then c2\<lparr>b2 := snd (lru_RemoveOldest (b2 c2))\<rparr> else c2)
     in c3\<lparr>t1 := snd (lru_Add k v (t1 c3))\<rparr>)"
proof -
  define c1 where "c1 = arc_makeRoom False c"
  define c2 where "c2 = (if P c1 then c1\<lparr>b1 := snd (lru_RemoveOldest (b1 c1))\<rparr> else c1)"
  define c3 where "c3 = (if Q c2 then c2\<lparr>b2 := snd (lru_RemoveOldest (b2 c2))\<rparr> else c2)"
  have "add_contract k v c (c3\<lparr>t1 := snd (lru_Add k v (t1 c3))\<rparr>)"
    by (rule add_miss [OF assms c1_def, of c2]) (auto simp: c2_def c3_def)
  then show ?thesis unfolding Let_def c3_def c2_def c1_def by (simp only:)
qed

lemma arc_Add_correct:
  assumes inv: "arc_inv c"
  shows "add_contract k v c (arc_Add k v c)"
proof -
  note invs = arc_invD [OF inv]
  note cont = lru_Contains_refines [folded keyset_def]
  have conts: "lru_Contains k (t1 c) \<longleftrightarrow> k \<in> keyset (t1 c)" "lru_Contains k (t2 c) \<longleftrightarrow> k \<in> keyset (t2 c)"
    "lru_Contains k (b1 c) \<longleftrightarrow> k \<in> keyset (b1 c)" "lru_Contains k (b2 c) \<longleftrightarrow> k \<in> keyset (b2 c)"
    by (simp_all add: cont invs(1-4))
  have dpos: "0 \<le> (if lru_Len l2 > lru_Len l1 then lru_Len l2 div lru_Len l1 else 1)"
    for l1 l2 :: "('a, unit) LRU"
    by (simp add: lru_Len_def div_int_pos_iff)
  consider "k \<in> keyset (t1 c)" | "k \<notin> keyset (t1 c)" "k \<in> keyset (t2 c)"
    | "k \<notin> keyset (t1 c)" "k \<notin> keyset (t2 c)" "k \<in> keyset (b1 c)"
    | "k \<notin> keyset (t1 c)" "k \<notin> keyset (t2 c)" "k \<notin> keyset (b1 c)" "k \<in> keyset (b2 c)"
    | "k \<notin> keyset (t1 c)" "k \<notin> keyset (t2 c)" "k \<notin> keyset (b1 c)" "k \<notin> keyset (b2 c)" by blast
  then show ?thesis
  proof cases
    case 1
    then show ?thesis using add_hit_t1 [OF inv] conts by (simp add: arc_Add_def)
  next
    case 2
    then show ?thesis using add_hit_t2 [OF inv] conts by (simp add: arc_Add_def)
  next
    case 3
    let ?delta = "if lru_Len (b2 c) > lru_Len (b1 c) then lru_Len (b2 c) div lru_Len (b1 c) else 1"
    let ?q = "if arc_p c + ?delta \<ge> arc_size c then arc_size c else arc_p c + ?delta"
    have "0 \<le> ?q" "?q \<le> arc_size c" using dpos [of "b1 c" "b2 c"] invs(9,10) size_pos [OF inv] by auto
    from add_hit_b1 [where b = False and v = v, OF inv 3(3) this] show ?thesis
      unfolding arc_Add_def Let_def conts by (simp only: 3 if_True if_False)
  next
    case 4
    let ?delta = "if lru_Len (b1 c) > lru_Len (b2 c) then lru_Len (b1 c) div lru_Len (b2 c) else 1"
    let ?q = "if ?delta \<ge> arc_p c then 0 else arc_p c - ?delta"
    have "0 \<le> ?q" "?q \<le> arc_size c" using dpos [of "b2 c" "b1 c"] invs(9,10) size_pos [OF inv] by auto
    from add_hit_b2 [where b = True and v = v, OF inv 4(4) this] show ?thesis
      unfolding arc_Add_def Let_def conts by (simp only: 4 if_True if_False)
  next
    case 5
    then have "k \<notin> dom (arc_lookup c)" by (simp add: dom_arc_lookup)
    from add_miss_trim [where v = v and P = "\<lambda>c1. lru_Len (b1 c1) > arc_size c1 - arc_p c1"
        and Q = "\<lambda>c2. lru_Len (b2 c2) > arc_p c2", OF inv this 5(3,4)]
    show ?thesis unfolding arc_Add_def Let_def conts by (simp only: 5 if_False)
  qed
qed

lemma arc_Add_simps:
  assumes "arc_inv c"
  shows "arc_inv (arc_Add k v c)" "arc_size (arc_Add k v c) = arc_size c" "arc_lookup (arc_Add k v c) k = Some v"
    "arc_lookup (arc_Add k v c) \<subseteq>\<^sub>m (arc_lookup c)(k \<mapsto> v)"
    "arc_Len c < arc_size c \<Longrightarrow> arc_lookup (arc_Add k v c) = (arc_lookup c)(k \<mapsto> v)"
  using arc_Add_correct [OF assms, of k v] by (simp_all add: add_contract_def)

lemma NewARC_correct:
  assumes "NewARC n = Some c"
  shows "arc_inv c" "arc_lookup c = Map.empty" "arc_size c = n" "arc_Len c = 0"
proof -
  from assms obtain lt1 lt2 :: "('a, 'b) LRU" and lb1 lb2 :: "('a, unit) LRU"
    where l: "NewLRU n = Some lt1" "NewLRU n = Some lt2" "NewLRU n = Some lb1" "NewLRU n = Some lb2"
      and c: "c = \<lparr>arc_size = n, arc_p = 0, t1 = lt1, t2 = lt2, b1 = lb1, b2 = lb2\<rparr>"
    by (auto simp: NewARC_def split: option.splits)
  have "0 < n" using l(1) by (simp add: NewLRU_def split: if_splits)
  then show "arc_inv c" "arc_lookup c = Map.empty" "arc_size c = n" "arc_Len c = 0"
    using NewLRU_refines [OF l(1)] NewLRU_refines [OF l(2)] NewLRU_refines [OF l(3)] NewLRU_refines [OF l(4)]
    by (auto simp: c arc_inv_def arc_Len_entries keyset_def arc_lookup_def fun_eq_iff)
qed

lemma NewARC_None: "NewARC n = None \<longleftrightarrow> n \<le> 0"
  by (simp add: NewARC_def NewLRU_def split: option.splits)

lemma arc_Peek_lookup: "arc_inv c \<Longrightarrow> arc_Peek k c = arc_lookup c k"
  by (simp add: arc_Peek_def arc_lookup_def arc_invD lru_Peek_refines split: option.splits)

text \<open>
  \<open>Get\<close> answers from the cached values and keeps the answered value. It may still evict: a hit in
  \<open>t1\<close> moves to \<open>t2\<close>, and the list \<open>t2\<close> may be at its capacity.
\<close>

lemma arc_Get_correct:
  assumes inv: "arc_inv c"
  shows "fst (arc_Get k c) = arc_lookup c k" "arc_inv (snd (arc_Get k c))"
    "arc_lookup (snd (arc_Get k c)) k = arc_lookup c k" "arc_lookup (snd (arc_Get k c)) \<subseteq>\<^sub>m arc_lookup c"
    "arc_size (snd (arc_Get k c)) = arc_size c"
    "arc_Len c \<le> arc_size c \<Longrightarrow> arc_lookup (snd (arc_Get k c)) = arc_lookup c"
proof -
  note invs = arc_invD [OF inv]
  have peek: "lru_Peek k (t1 c) = map_of (entries (t1 c)) k" using invs(1) by (rule lru_Peek_refines)
  have "fst (arc_Get k c) = arc_lookup c k \<and> arc_inv (snd (arc_Get k c))
    \<and> arc_lookup (snd (arc_Get k c)) k = arc_lookup c k \<and> arc_lookup (snd (arc_Get k c)) \<subseteq>\<^sub>m arc_lookup c
    \<and> arc_size (snd (arc_Get k c)) = arc_size c
    \<and> (arc_Len c \<le> arc_size c \<longrightarrow> arc_lookup (snd (arc_Get k c)) = arc_lookup c)"
  proof (cases "map_of (entries (t1 c)) k")
    case (Some val)
    then have k: "k \<in> keyset (t1 c)" by (rule map_of_entries_Some)
    let ?d = "c\<lparr>t1 := snd (lru_Remove k (t1 c))\<rparr>"
    note d = drop_t1 [OF inv k]
    have kd: "k \<notin> keyset (t1 ?d)" "k \<notin> keyset (b1 ?d)" "k \<notin> keyset (b2 ?d)"
      using keyset_ops(3) [OF invs(1), of k] k invs(13) by auto
    have look: "arc_lookup c k = Some val" using Some by (simp add: arc_lookup_def)
    have get: "arc_Get k c = (Some val, ?d\<lparr>t2 := snd (lru_Add k val (t2 ?d))\<rparr>)"
      using Some peek by (simp add: arc_Get_def)
    have idem: "(arc_lookup ?d)(k \<mapsto> val) = arc_lookup c" using d(2) look by (auto simp: fun_eq_iff)
    show ?thesis using add_t2 [OF d(1) kd, of val] d(3) invs(14) look unfolding get idem by auto
  next
    case None
    then have get: "arc_Get k c = (fst (lru_Get k (t2 c)), c\<lparr>t2 := snd (lru_Get k (t2 c))\<rparr>)"
      using peek by (simp add: arc_Get_def split: prod.splits)
    have "arc_inv (c\<lparr>t2 := snd (lru_Get k (t2 c))\<rparr>)"
      using invs keyset_ops(2) [OF invs(2), of k] lru.inv_ops(2) [OF invs(2)] lru.cap_ops(2) [OF invs(2)]
        lru.length_get [OF invs(2), of k]
      unfolding arc_inv_def arc_Len_entries by auto
    moreover have "arc_lookup (c\<lparr>t2 := snd (lru_Get k (t2 c))\<rparr>) = arc_lookup c"
      using lru.lookup_get [OF invs(2), of k] by (auto simp: arc_lookup_def fun_eq_iff split: option.splits)
    ultimately show ?thesis using None lru.get_value [OF invs(2), of k] by (simp add: get arc_lookup_def)
  qed
  then show "fst (arc_Get k c) = arc_lookup c k" "arc_inv (snd (arc_Get k c))"
    "arc_lookup (snd (arc_Get k c)) k = arc_lookup c k" "arc_lookup (snd (arc_Get k c)) \<subseteq>\<^sub>m arc_lookup c"
    "arc_size (snd (arc_Get k c)) = arc_size c"
    "arc_Len c \<le> arc_size c \<Longrightarrow> arc_lookup (snd (arc_Get k c)) = arc_lookup c" by blast+
qed

lemma Remove_present: "lru_inv l \<Longrightarrow> fst (lru_Remove k l) \<longleftrightarrow> k \<in> keyset l"
  by (simp add: lru_Remove_refines keyset_def)

lemma Remove_absent:
  assumes "lru_inv l" "k \<notin> keyset l" shows "snd (lru_Remove k l) = l"
  using assms lru_Contains_refines [OF assms(1), of k]
  by (auto simp: lru_Remove_def keyset_def lru_Contains_def split: option.splits)

lemma arc_Remove_cases:
  assumes inv: "arc_inv c"
  shows "arc_Remove k c =
    (if k \<in> keyset (t1 c) then c\<lparr>t1 := snd (lru_Remove k (t1 c))\<rparr>
     else if k \<in> keyset (t2 c) then c\<lparr>t2 := snd (lru_Remove k (t2 c))\<rparr>
     else if k \<in> keyset (b1 c) then c\<lparr>b1 := snd (lru_Remove k (b1 c))\<rparr>
     else c\<lparr>b2 := snd (lru_Remove k (b2 c))\<rparr>)"
  using arc_invD(1-4) [OF inv]
  by (auto simp: arc_Remove_def Let_def case_prod_beta Remove_present Remove_absent)

lemma arc_Remove_correct:
  assumes inv: "arc_inv c"
  shows "arc_inv (arc_Remove k c)" "arc_lookup (arc_Remove k c) = (arc_lookup c)(k := None)"
    "arc_size (arc_Remove k c) = arc_size c"
proof -
  note invs = arc_invD [OF inv]
  have "arc_lookup c k = None" if "k \<notin> keyset (t1 c)" "k \<notin> keyset (t2 c)"
    using that dom_arc_lookup [of c] by auto
  then show "arc_lookup (arc_Remove k c) = (arc_lookup c)(k := None)"
    using drop_t1 [OF inv] drop_t2 [OF inv, of k] by (auto simp: arc_Remove_cases [OF inv] fun_upd_idem)
  have "arc_inv (c\<lparr>b1 := snd (lru_Remove k (b1 c))\<rparr>)" "arc_inv (c\<lparr>b2 := snd (lru_Remove k (b2 c))\<rparr>)"
    using set_b1 [OF inv] set_b2 [OF inv] invs(3,4,7,8) by (auto simp: ghost_ops)
  then show "arc_inv (arc_Remove k c)"
    using drop_t1 [OF inv] drop_t2 [OF inv, of k] by (auto simp: arc_Remove_cases [OF inv])
  show "arc_size (arc_Remove k c) = arc_size c" by (auto simp: arc_Remove_cases [OF inv])
qed

lemma arc_Purge_correct:
  assumes inv: "arc_inv c"
  shows "arc_inv (arc_Purge c)" "arc_lookup (arc_Purge c) = Map.empty" "arc_size (arc_Purge c) = arc_size c"
    "arc_Len (arc_Purge c) = 0"
  using arc_invD [OF inv] size_pos [OF inv]
  by (auto simp: arc_Purge_def arc_inv_def arc_lookup_def fun_eq_iff lru.view_purge lru.inv_ops lru.cap_ops
      keyset_def arc_Len_entries)

lemma arc_Keys_correct:
  assumes inv: "arc_inv c"
  shows "set (arc_Keys c) = dom (arc_lookup c)" "distinct (arc_Keys c)" "arc_Len c = int (length (arc_Keys c))"
proof -
  note invs = arc_invD [OF inv]
  have ks: "arc_Keys c = rev (map fst (entries (t1 c))) @ rev (map fst (entries (t2 c)))"
    by (simp add: arc_Keys_def lru_Keys_refines)
  show "set (arc_Keys c) = dom (arc_lookup c)" by (simp add: ks dom_arc_lookup keyset_def)
  show "distinct (arc_Keys c)"
    using lru.keys_distinct [OF invs(1)] lru.keys_distinct [OF invs(2)] invs(11) by (simp add: ks keyset_def)
  show "arc_Len c = int (length (arc_Keys c))" by (simp add: ks arc_Len_entries)
qed

section \<open>The interface of the cache\<close>

text \<open>
  What the in-memory store relies on: a map that may forget keys on its own. \<open>lookup\<close> is the
  abstract content; every operation returns at most what the map operation would.
\<close>

locale evicting_cache =
  fixes lookup :: "'c \<Rightarrow> 'k \<rightharpoonup> 'v" and inv :: "'c \<Rightarrow> bool"
    and get :: "'k \<Rightarrow> 'c \<Rightarrow> 'v option \<times> 'c" and add :: "'k \<Rightarrow> 'v \<Rightarrow> 'c \<Rightarrow> 'c"
    and remove :: "'k \<Rightarrow> 'c \<Rightarrow> 'c" and purge :: "'c \<Rightarrow> 'c" and keys :: "'c \<Rightarrow> 'k list"
  assumes get_value: "inv c \<Longrightarrow> fst (get k c) = lookup c k"
    and get_keeps: "inv c \<Longrightarrow> lookup (snd (get k c)) k = lookup c k"
    and get_le: "inv c \<Longrightarrow> lookup (snd (get k c)) \<subseteq>\<^sub>m lookup c"
    and add_value: "inv c \<Longrightarrow> lookup (add k v c) k = Some v"
    and add_le: "inv c \<Longrightarrow> lookup (add k v c) \<subseteq>\<^sub>m (lookup c)(k \<mapsto> v)"
    and remove_map: "inv c \<Longrightarrow> lookup (remove k c) = (lookup c)(k := None)"
    and purge_map: "inv c \<Longrightarrow> lookup (purge c) = Map.empty"
    and keys_dom: "inv c \<Longrightarrow> set (keys c) = dom (lookup c)"
    and keys_once: "inv c \<Longrightarrow> distinct (keys c)"
    and inv_get: "inv c \<Longrightarrow> inv (snd (get k c))" and inv_add: "inv c \<Longrightarrow> inv (add k v c)"
    and inv_remove: "inv c \<Longrightarrow> inv (remove k c)" and inv_purge: "inv c \<Longrightarrow> inv (purge c)"
begin

lemma add_then_get: "inv c \<Longrightarrow> fst (get k (add k v c)) = Some v"
  by (simp add: get_value inv_add add_value)

lemma get_twice: "inv c \<Longrightarrow> fst (get k (snd (get k c))) = fst (get k c)"
  by (simp add: get_value inv_get get_keeps)

lemma remove_then_get: "inv c \<Longrightarrow> fst (get k (remove k c)) = None"
  by (simp add: get_value inv_remove remove_map)

text \<open>What the cache may hold for another key after an operation: its old value or nothing.\<close>

lemma add_other: "inv c \<Longrightarrow> j \<noteq> k \<Longrightarrow> lookup (add k v c) j = Some w \<Longrightarrow> lookup c j = Some w"
  using add_le [of c k v] by (auto simp: map_le_def dom_def split: if_splits)

lemma get_other: "inv c \<Longrightarrow> lookup (snd (get k c)) j = Some w \<Longrightarrow> lookup c j = Some w"
  using get_le [of c k] by (auto simp: map_le_def dom_def)

text \<open>A property of all cached values is kept when the added value has it.\<close>

lemma add_all: "inv c \<Longrightarrow> \<forall>k v. lookup c k = Some v \<longrightarrow> P v \<Longrightarrow> P w \<Longrightarrow> \<forall>k v. lookup (add j w c) k = Some v \<longrightarrow> P v"
  by (metis add_other add_value option.inject)

lemma get_all: "inv c \<Longrightarrow> \<forall>k v. lookup c k = Some v \<longrightarrow> P v \<Longrightarrow> \<forall>k v. lookup (snd (get j c)) k = Some v \<longrightarrow> P v"
  by (metis get_other)

lemma remove_all: "inv c \<Longrightarrow> \<forall>k v. lookup c k = Some v \<longrightarrow> P v \<Longrightarrow> \<forall>k v. lookup (remove j c) k = Some v \<longrightarrow> P v"
  by (simp add: remove_map)

end

interpretation arc: evicting_cache arc_lookup arc_inv arc_Get arc_Add arc_Remove arc_Purge arc_Keys
  by unfold_locales
    (simp_all add: arc_Get_correct arc_Remove_correct arc_Purge_correct arc_Keys_correct arc_Add_simps)

lemmas arc_preserves [arc_invs] =
  arc_Add_simps(1) arc_Get_correct(2) arc_Remove_correct(1) arc_Purge_correct(1)

section \<open>All reachable states\<close>

inductive arc_step :: "('k, 'v) ARCCache \<Rightarrow> ('k, 'v) ARCCache \<Rightarrow> bool" where
  step_Get: "arc_step c (snd (arc_Get k c))"
| step_Add: "arc_step c (arc_Add k v c)"
| step_Remove: "arc_step c (arc_Remove k c)"
| step_Purge: "arc_step c (arc_Purge c)"

inductive arc_reachable :: "int \<Rightarrow> ('k, 'v) ARCCache \<Rightarrow> bool" for n where
  start: "NewARC n = Some c \<Longrightarrow> arc_reachable n c"
| step: "arc_reachable n c \<Longrightarrow> arc_step c c' \<Longrightarrow> arc_reachable n c'"

inductive_cases arc_stepE: "arc_step c c'"

lemma arc_step_inv: "arc_step c c' \<Longrightarrow> arc_inv c \<Longrightarrow> arc_inv c' \<and> arc_size c' = arc_size c"
  by (erule arc_stepE) (simp_all add: arc_Add_simps arc_Get_correct arc_Remove_correct arc_Purge_correct)

lemma arc_reachable_inv: "arc_reachable n c \<Longrightarrow> arc_inv c \<and> arc_size c = n"
  by (induction rule: arc_reachable.induct) (auto simp: NewARC_correct dest: arc_step_inv)


text \<open>The run used below: one slot, three additions, the third one of a key evicted by the second.\<close>

definition overfull :: "(nat, nat) ARCCache option" where
  "overfull = map_option (\<lambda>c. arc_Add 1 12 (arc_Add 2 11 (arc_Add 1 10 c))) (NewARC 1)"

lemma overfull_reachable:
  assumes "overfull = Some c" shows "arc_reachable 1 c"
proof -
  from assms obtain z where z: "NewARC 1 = Some z" "c = arc_Add 1 12 (arc_Add 2 11 (arc_Add 1 10 z))"
    unfolding overfull_def by auto
  note add = arc_reachable.step [OF _ step_Add]
  show ?thesis unfolding z(2) by (intro add arc_reachable.start) (rule z(1))
qed

lemma overfull_Some: "\<exists>c. overfull = Some c"
  by (simp add: overfull_def NewARC_def NewLRU_def)


text \<open>
  The bound of one entry above the size is reached: a cache created for one entry holds two
  after the keys 1, 2 and again 1 are added, because \<open>replace\<close> looks for a victim in the empty
  list \<open>t2\<close>.
\<close>

theorem arc_exceeds_size:
  "map_option (\<lambda>c. (arc_size c, arc_Len c, arc_lookup c 1, arc_lookup c 2)) overfull
     = Some (1, 2, Some 12, Some 11)"
  by code_simp

end
