(* ===== verification/GoValues.thy ===== *)
theory GoValues
  imports GoPrelude
begin

text \<open>
  Dynamic values, their types, errors and clock readings.

  A value of type \<open>interface{}\<close> carries its dynamic type; the sources dispatch on the printed type
  (\<open>fmt.Sprintf("%T", v)\<close>) and then use type assertions, which panic on a different type even if it
  prints the same. The model keeps both: \<open>type_name\<close> prints a type, and an assertion looks at the
  value. A clock reading is a parameter of every operation that calls \<open>time.Now()\<close>.
\<close>

section \<open>Types and values\<close>

datatype numtype = Int8 | Int16 | Int32 | Int64 | Uint | Uint8 | Uint16 | Uint32 | Uint64 | Uintptr

text \<open>\<open>TNamed path name\<close> is any other type: its import path and the way it prints.\<close>

datatype gotype = TNil | TString | TInt | TNum numtype | TBytes | TInterface | TEntry | TResponse
  | TPtr gotype | TNamed string string

fun numtype_name :: "numtype \<Rightarrow> string" where
  "numtype_name Int8 = ''int8''" | "numtype_name Int16 = ''int16''" | "numtype_name Int32 = ''int32''"
| "numtype_name Int64 = ''int64''" | "numtype_name Uint = ''uint''" | "numtype_name Uint8 = ''uint8''"
| "numtype_name Uint16 = ''uint16''" | "numtype_name Uint32 = ''uint32''" | "numtype_name Uint64 = ''uint64''"
| "numtype_name Uintptr = ''uintptr''"

fun type_name :: "gotype \<Rightarrow> string" where
  "type_name TNil = ''<nil>''"
| "type_name TString = ''string''"
| "type_name TInt = ''int''"
| "type_name (TNum t) = numtype_name t"
| "type_name TBytes = ''[]uint8''"
| "type_name TInterface = ''interface {}''"
| "type_name TEntry = ''cache.GenericCacheEntry''"
| "type_name TResponse = ''cache.ResponseCache''"
| "type_name (TPtr t) = CHR ''*'' # type_name t"
| "type_name (TNamed path name) = name"

text \<open>An HTTP header is the list of its keys with their values, in the order a \<open>range\<close> visits them.\<close>

type_synonym header = "(string \<times> string list) list"

datatype godata = VNil | VString string | VInt int64 | VNum numtype int64 | VBytes bytes
  | VEntry godata int64 int64 | VResponse int64 header bytes | VUser string string bytes

fun type_of :: "godata \<Rightarrow> gotype" where
  "type_of VNil = TNil"
| "type_of (VString _) = TString"
| "type_of (VInt _) = TInt"
| "type_of (VNum t _) = TNum t"
| "type_of (VBytes _) = TBytes"
| "type_of (VEntry _ _ _) = TEntry"
| "type_of (VResponse _ _ _) = TResponse"
| "type_of (VUser path name _) = TNamed path name"

section \<open>Errors\<close>

text \<open>
  The sentinel errors of the packages, errors built by \<open>fmt.Errorf\<close> (format and rendered
  arguments), and errors of code outside, known by their text.
\<close>

datatype error = ErrCacheMiss | ErrNotStored | ErrNotSupport | ErrPaddingSize
  | Errorf string "string list" | ErrExt string

fun Error :: "error \<Rightarrow> string" where
  "Error ErrCacheMiss = ''cache: key not found.''"
| "Error ErrNotStored = ''cache: not stored.''"
| "Error ErrNotSupport = ''cache: not support.''"
| "Error ErrPaddingSize = ''padding size error''"
| "Error (Errorf f as) = Sprintf f as"
| "Error (ErrExt s) = s"

section \<open>Time\<close>

text \<open>A wall-clock reading: seconds since 1970 and nanoseconds within the second.\<close>

record Time =
  t_sec :: int64
  t_nsec :: int

definition time_Second :: duration where
  "time_Second = 1000000000"

definition time_Unix :: "int64 \<Rightarrow> Time" where
  "time_Unix s = \<lparr>t_sec = s, t_nsec = 0\<rparr>"

text \<open>
  \<open>Time.Before\<close> compares the internal second counts, which start in year 1; adding the offset
  wraps around like every 64-bit addition.
\<close>

definition unixToInternal :: int64 where
  "unixToInternal = 62135596800"

definition Before :: "Time \<Rightarrow> Time \<Rightarrow> bool" where
  "Before t u \<longleftrightarrow> (let ts = t_sec t + unixToInternal; us = t_sec u + unixToInternal
     in ts <s us \<or> (ts = us \<and> t_nsec t < t_nsec u))"

definition DEFAULT :: duration where
  "DEFAULT = 0"

definition FOREVER :: duration where
  "FOREVER = -1"

text \<open>A clock reading of the present era: far from the ends of the 64-bit range.\<close>

definition sane_clock :: "Time \<Rightarrow> bool" where
  "sane_clock t \<longleftrightarrow> 0 \<le> sint (t_sec t) \<and> sint (t_sec t) < 2 ^ 61 \<and> 0 \<le> t_nsec t \<and> t_nsec t < 1000000000"

text \<open>Nanoseconds since 1970, as an unbounded integer.\<close>

definition nanos :: "Time \<Rightarrow> int" where
  "nanos t = sint (t_sec t) * 1000000000 + t_nsec t"

lemma sint_unixToInternal: "sint unixToInternal = 62135596800"
  by (simp add: unixToInternal_def)

lemma Before_nanos:
  assumes "0 \<le> t_nsec t" "t_nsec t < 1000000000" "0 \<le> t_nsec u" "t_nsec u < 1000000000"
    and "sint (t_sec t) < 2 ^ 62" "sint (t_sec u) < 2 ^ 62"
  shows "Before t u \<longleftrightarrow> nanos t < nanos u"
proof -
  have s: "sint (t_sec x + unixToInternal) = sint (t_sec x) + 62135596800" if "sint (t_sec x) < 2 ^ 62" for x
    using that sint_bounds64(1) [of "t_sec x"] sint_unixToInternal by (subst sint_add64) simp_all
  have "Before t u \<longleftrightarrow> sint (t_sec t) < sint (t_sec u) \<or> (sint (t_sec t) = sint (t_sec u) \<and> t_nsec t < t_nsec u)"
    using s [OF assms(5)] s [OF assms(6)] by (auto simp: Before_def Let_def word_sless_alt intro: signed_word_eqI)
  then show ?thesis using assms(1-4) by (auto simp: nanos_def)
qed

text \<open>Whole seconds of a duration: division truncates towards zero and never overflows.\<close>

lemma seconds_bounds:
  assumes "- (2 ^ 63) \<le> x" "x < 2 ^ 63"
  shows "- 9223372036 \<le> x sdiv 1000000000" "x sdiv 1000000000 \<le> (9223372036 :: int)"
  using assms by (cases "0 \<le> x"; simp add: signed_divide_int_def sgn_if; arith)+

lemma sint_seconds: "sint (go_div d time_Second) = sint d sdiv 1000000000"
proof -
  have "sint time_Second = 1000000000" by (simp add: time_Second_def)
  then show ?thesis
    using seconds_bounds [OF sint_bounds64 [of d]] by (simp add: go_div_def sint_word_of_int64)
qed

text \<open>Adding whole seconds to a reading of the present era does not wrap around.\<close>

lemma sint_expiry:
  assumes "sane_clock now"
  shows "sint (t_sec now + go_div d time_Second) = sint (t_sec now) + sint d sdiv 1000000000"
    "sint (t_sec now + go_div d time_Second) < 2 ^ 62"
proof -
  have b: "- 9223372036 \<le> sint d sdiv 1000000000" "sint d sdiv 1000000000 \<le> 9223372036"
    using seconds_bounds [OF sint_bounds64 [of d]] by blast+
  then show eq: "sint (t_sec now + go_div d time_Second) = sint (t_sec now) + sint d sdiv 1000000000"
    using assms unfolding sane_clock_def by (subst sint_add64) (simp_all add: sint_seconds)
  show "sint (t_sec now + go_div d time_Second) < 2 ^ 62"
    using b(2) assms unfolding eq sane_clock_def by simp
qed

section \<open>Cache entries\<close>

record GenericCacheEntry =
  Data :: godata
  TimeAdded :: int64
  ExpiresAt :: int64

definition box_entry :: "GenericCacheEntry \<Rightarrow> godata" where
  "box_entry e = VEntry (Data e) (TimeAdded e) (ExpiresAt e)"

text \<open>The type assertion \<open>v.(GenericCacheEntry)\<close>; \<open>None\<close> is the panic.\<close>

fun assert_entry :: "godata \<Rightarrow> GenericCacheEntry option" where
  "assert_entry (VEntry d a x) = Some \<lparr>Data = d, TimeAdded = a, ExpiresAt = x\<rparr>"
| "assert_entry _ = None"

definition Expired :: "Time \<Rightarrow> GenericCacheEntry \<Rightarrow> bool" where
  "Expired now e = (if ExpiresAt e = 0 then False else Before (time_Unix (ExpiresAt e)) now)"

text \<open>Building an entry: \<open>NewGenericCacheEntry\<close> of the in-memory store and of the generic cache.\<close>

definition NewGenericCacheEntry :: "duration \<Rightarrow> Time \<Rightarrow> godata \<Rightarrow> duration \<Rightarrow> GenericCacheEntry" where
  "NewGenericCacheEntry defaultExp now d exp =
     (let t = (if exp \<noteq> 0 then exp else defaultExp); expiresAt = t_sec now + go_div t time_Second
      in \<lparr>Data = d, TimeAdded = t_sec now, ExpiresAt = expiresAt\<rparr>)"

lemma assert_box_entry [simp]: "assert_entry (box_entry e) = Some e"
  by (simp add: box_entry_def)

lemma type_of_box_entry [simp]: "type_of (box_entry e) = TEntry"
  by (simp add: box_entry_def)

lemma assert_entry_iff: "assert_entry v = Some e \<longleftrightarrow> v = box_entry e"
  by (cases v) (auto simp: box_entry_def)

lemma assert_entry_type: "assert_entry v \<noteq> None \<longleftrightarrow> type_of v = TEntry"
  by (cases v) auto

lemma Expired_nanos:
  assumes "sane_clock now" "sint (ExpiresAt e) < 2 ^ 62"
  shows "Expired now e \<longleftrightarrow> ExpiresAt e \<noteq> 0 \<and> sint (ExpiresAt e) * 1000000000 < nanos now"
  using Before_nanos [of "time_Unix (ExpiresAt e)" now] assms
  by (auto simp: Expired_def time_Unix_def nanos_def sane_clock_def)

text \<open>Once expired, an entry stays expired as the clock moves on.\<close>

lemma Expired_mono:
  assumes "Expired now e" "sane_clock now" "sane_clock later" "nanos now \<le> nanos later" "sint (ExpiresAt e) < 2 ^ 62"
  shows "Expired later e"
  using assms by (auto simp: Expired_nanos)

end
