(* ===== verification/CacheStore.thy ===== *)
theory CacheStore
  imports GoValues
begin

text \<open>
  The interface \<open>persistence.CacheStore\<close> of \<open>vendor/github.com/Bose/cache/persistence/cache_store.go\<close>.

  An interface value is its method table: a record of functions over the state \<open>'w\<close> that holds the
  store (and whatever else the program keeps). Methods return an outcome and the new state; an
  error result is a value, a panic is not. \<open>Get\<close> takes a pointer: the model passes the type of the
  argument and returns, beside the error, the value written through the pointer.

  The locale \<open>cache_store\<close> is the contract the clients of a store rely on.
\<close>

type_synonym 'w method_err = "'w \<Rightarrow> error option outcome \<times> 'w"
type_synonym 'w method_num = "'w \<Rightarrow> (uint64 \<times> error option) outcome \<times> 'w"
type_synonym 'w method_get = "'w \<Rightarrow> (error option \<times> godata option) outcome \<times> 'w"

record 'w CacheStore =
  m_Get :: "Time \<Rightarrow> string \<Rightarrow> gotype \<Rightarrow> 'w method_get"
  m_Set :: "Time \<Rightarrow> string \<Rightarrow> godata \<Rightarrow> duration \<Rightarrow> 'w method_err"
  m_Add :: "Time \<Rightarrow> string \<Rightarrow> godata \<Rightarrow> duration \<Rightarrow> 'w method_err"
  m_Replace :: "Time \<Rightarrow> string \<Rightarrow> godata \<Rightarrow> duration \<Rightarrow> 'w method_err"
  m_Delete :: "Time \<Rightarrow> string \<Rightarrow> 'w method_err"
  m_Increment :: "Time \<Rightarrow> string \<Rightarrow> uint64 \<Rightarrow> 'w method_num"
  m_Decrement :: "Time \<Rightarrow> string \<Rightarrow> uint64 \<Rightarrow> 'w method_num"
  m_Flush :: "Time \<Rightarrow> 'w method_err"

text \<open>
  The contract. \<open>content\<close> is what the store holds, expired entries included; \<open>stored\<close> is the entry
  a successful \<open>Set\<close> leaves, with the payload of an entry that is set; \<open>settable\<close> are the values
  \<open>Set\<close> accepts. A store may forget other
  keys at any time, so laws about other keys are one-sided.
\<close>

locale cache_store =
  fixes st :: "'w CacheStore" and inv :: "'w \<Rightarrow> bool" and content :: "'w \<Rightarrow> string \<rightharpoonup> GenericCacheEntry"
    and stored :: "'w \<Rightarrow> Time \<Rightarrow> godata \<Rightarrow> duration \<Rightarrow> GenericCacheEntry" and settable :: "godata \<Rightarrow> bool"
  assumes set_ok: "inv w \<Longrightarrow> settable v \<Longrightarrow> fst (m_Set st now k v exp w) = Ret None"
    and set_content: "inv w \<Longrightarrow> settable v \<Longrightarrow> content (snd (m_Set st now k v exp w)) k = Some (stored w now v exp)"
    and set_others: "inv w \<Longrightarrow> settable v \<Longrightarrow>
      content (snd (m_Set st now k v exp w)) \<subseteq>\<^sub>m (content w)(k \<mapsto> stored w now v exp)"
    and get_miss: "inv w \<Longrightarrow> content w k = None \<or> (\<exists>e. content w k = Some e \<and> Expired now e) \<Longrightarrow>
      fst (m_Get st now k ty w) = Ret (Some ErrCacheMiss, None)"
    and get_entry: "inv w \<Longrightarrow> content w k = Some e \<Longrightarrow> \<not> Expired now e \<Longrightarrow>
      fst (m_Get st now k (TPtr TEntry) w) = Ret (None, Some (box_entry e))"
    and get_content: "inv w \<Longrightarrow> content (snd (m_Get st now k ty w)) \<subseteq>\<^sub>m content w"
    and delete_content: "inv w \<Longrightarrow> content (snd (m_Delete st now k w)) \<subseteq>\<^sub>m (content w)(k := None)"
    and delete_result: "inv w \<Longrightarrow>
      fst (m_Delete st now k w) = Ret (if content w k = None then Some ErrCacheMiss else None)"
    and flush_content: "inv w \<Longrightarrow> content (snd (m_Flush st now w)) = Map.empty"
    and flush_ok: "inv w \<Longrightarrow> fst (m_Flush st now w) = Ret None"
    and inv_set: "inv w \<Longrightarrow> settable v \<Longrightarrow> inv (snd (m_Set st now k v exp w))"
    and inv_get: "inv w \<Longrightarrow> inv (snd (m_Get st now k ty w))"
    and inv_delete: "inv w \<Longrightarrow> inv (snd (m_Delete st now k w))"
    and inv_flush: "inv w \<Longrightarrow> inv (snd (m_Flush st now w))"
    and settable_entry: "settable (box_entry e)"
    and stored_entry: "Data (stored w now (box_entry e) exp) = Data e"
begin

lemma set_then_get:
  assumes "inv w" "settable v" "\<not> Expired later (stored w now v exp)"
  shows "fst (m_Get st later k (TPtr TEntry) (snd (m_Set st now k v exp w)))
    = Ret (None, Some (box_entry (stored w now v exp)))"
  using assms by (intro get_entry) (simp_all add: inv_set set_content)

lemma set_expires:
  assumes "inv w" "settable v" "Expired later (stored w now v exp)"
  shows "fst (m_Get st later k ty (snd (m_Set st now k v exp w))) = Ret (Some ErrCacheMiss, None)"
  using assms by (intro get_miss) (simp_all add: inv_set set_content)

lemma delete_then_get: "inv w \<Longrightarrow> fst (m_Get st later k ty (snd (m_Delete st now k w))) = Ret (Some ErrCacheMiss, None)"
  using delete_content [of w now k] by (intro get_miss) (auto simp: inv_delete map_le_def dom_def)

lemma flush_then_get: "inv w \<Longrightarrow> fst (m_Get st later k ty (snd (m_Flush st now w))) = Ret (Some ErrCacheMiss, None)"
  by (intro get_miss) (simp_all add: inv_flush flush_content)

end

end
