(* ===== verification/InMemoryStore.thy ===== *)
theory InMemoryStore
  imports ARCCache CacheStore
begin

text \<open>
  The in-memory LRU store with expiry, \<open>src/inmemory.go\<close>: an ARC cache from keys to entries, each
  entry carrying its own expiry in seconds. Every method is modelled with all its branches; a failed
  type assertion is a panic that leaves the state as it is at that point.
\<close>

section \<open>State and operations\<close>

text \<open>\<open>stop\<close> is nil until the janitor goroutine has started and made the channel.\<close>

record janitor =
  j_Interval :: duration
  j_stop :: bool

record inMemoryStore =
  store_lru :: "(string, godata) ARCCache"
  store_DefaultExp :: duration
  store_janitor :: "janitor option"

text \<open>\<open>runJanitor\<close> records a janitor and starts its goroutine, whose steps are in theory \<open>Janitor\<close>.\<close>

definition runJanitor :: "duration \<Rightarrow> inMemoryStore \<Rightarrow> inMemoryStore" where
  "runJanitor ci c = c\<lparr>store_janitor := Some \<lparr>j_Interval = ci, j_stop = False\<rparr>\<rparr>"

text \<open>
  \<open>NewInMemoryStore\<close> returns the error of \<open>lru.NewARC\<close>, or the store, the gauge it registers (name
  and help text) and whether a finalizer that stops the janitor is set.
\<close>

definition NewInMemoryStore ::
  "int \<Rightarrow> duration \<Rightarrow> duration \<Rightarrow> bool \<Rightarrow> string \<Rightarrow>
   error + inMemoryStore \<times> (string \<times> string) option \<times> bool" where
  "NewInMemoryStore maxEntries defaultExpiration cleanupInterval createMetric metricLabel =
     (case NewARC maxEntries of
        None \<Rightarrow> Inl (ErrExt ''Must provide a positive size'')
      | Some l \<Rightarrow>
          (let c = \<lparr>store_lru = l, store_DefaultExp = defaultExpiration, store_janitor = None\<rparr>;
               gauge = (if createMetric then
                          let label = (if length metricLabel \<noteq> 0 then metricLabel else ''inmemory_cache_total_items_cnt'')
                          in Some (label, Sprintf ''Total count the number of items in the in-memory cache for %s'' [label])
                        else None)
           in if 0 <s cleanupInterval then Inr (runJanitor cleanupInterval c, gauge, True)
              else Inr (c, gauge, False)))"

definition mem_NewGenericCacheEntry :: "inMemoryStore \<Rightarrow> Time \<Rightarrow> godata \<Rightarrow> duration \<Rightarrow> GenericCacheEntry" where
  "mem_NewGenericCacheEntry c now d exp =
     (let t = (if exp \<noteq> 0 then exp else store_DefaultExp c); nowS = t_sec now;
          expiresAt = nowS + go_div t time_Second
      in \<lparr>Data = d, TimeAdded = nowS, ExpiresAt = expiresAt\<rparr>)"

text \<open>The switch of \<open>Get\<close>: what is written through the pointer for a live entry.\<close>

definition mem_deliver :: "gotype \<Rightarrow> GenericCacheEntry \<Rightarrow> (error option \<times> godata option) outcome" where
  "mem_deliver ty entry =
     (let valueType = type_name ty in
      if valueType = ''*string'' then
        (case (ty, Data entry) of (TPtr TString, VString s) \<Rightarrow> Ret (None, Some (VString s))
         | _ \<Rightarrow> Panic ''interface conversion'')
      else if valueType = ''*int'' then
        (case (ty, Data entry) of (TPtr TInt, VInt i) \<Rightarrow> Ret (None, Some (VInt i))
         | _ \<Rightarrow> Panic ''interface conversion'')
      else if valueType = ''*cache.GenericCacheEntry'' then
        (if ty = TPtr TEntry then Ret (None, Some (box_entry entry)) else Panic ''interface conversion'')
      else if valueType = ''*cache.ResponseCache'' then
        (case (ty, Data entry) of (TPtr TResponse, VResponse s h b) \<Rightarrow> Ret (None, Some (VResponse s h b))
         | _ \<Rightarrow> Panic ''interface conversion'')
      else Ret (Some ErrNotSupport, None))"

definition mem_Get :: "Time \<Rightarrow> string \<Rightarrow> gotype \<Rightarrow> inMemoryStore method_get" where
  "mem_Get now key ty c =
     (case arc_Get key (store_lru c) of
        (Some val, l) \<Rightarrow>
          (let c1 = c\<lparr>store_lru := l\<rparr> in
           case assert_entry val of
             None \<Rightarrow> (Panic ''interface conversion'', c1)
           | Some entry \<Rightarrow>
               if Expired now entry
               then (Ret (Some ErrCacheMiss, None), c1\<lparr>store_lru := arc_Remove key l\<rparr>)
               else (mem_deliver ty entry, c1))
      | (None, l) \<Rightarrow> (Ret (Some ErrCacheMiss, None), c\<lparr>store_lru := l\<rparr>))"

definition expiry_of :: "inMemoryStore \<Rightarrow> Time \<Rightarrow> duration \<Rightarrow> int64" where
  "expiry_of c now exp =
     (if exp = FOREVER then 0
      else if exp \<noteq> 0 then t_sec now + go_div exp time_Second
      else t_sec now + go_div (store_DefaultExp c) time_Second)"

definition mem_doAddSet :: "Time \<Rightarrow> string \<Rightarrow> godata \<Rightarrow> duration \<Rightarrow> inMemoryStore method_err" where
  "mem_doAddSet now key val exp c =
     (let valueType = type_name (type_of val); expiresAt = expiry_of c now exp in
      if valueType \<noteq> ''cache.GenericCacheEntry'' then
        let e = \<lparr>Data = val, TimeAdded = t_sec now, ExpiresAt = expiresAt\<rparr>
        in (Ret None, c\<lparr>store_lru := arc_Add key (box_entry e) (store_lru c)\<rparr>)
      else
        (case assert_entry val of
           None \<Rightarrow> (Panic ''interface conversion'', c)
         | Some ent \<Rightarrow>
             let e = \<lparr>Data = Data ent, TimeAdded = t_sec now, ExpiresAt = expiresAt\<rparr>
             in (Ret None, c\<lparr>store_lru := arc_Add key (box_entry e) (store_lru c)\<rparr>)))"

definition mem_Keys :: "inMemoryStore \<Rightarrow> string list" where
  "mem_Keys c = arc_Keys (store_lru c)"

definition mem_Len :: "inMemoryStore \<Rightarrow> int" where
  "mem_Len c = arc_Len (store_lru c)"

definition mem_Set :: "Time \<Rightarrow> string \<Rightarrow> godata \<Rightarrow> duration \<Rightarrow> inMemoryStore method_err" where
  "mem_Set now key val exp c = mem_doAddSet now key val exp c"

definition mem_Add :: "Time \<Rightarrow> string \<Rightarrow> godata \<Rightarrow> duration \<Rightarrow> inMemoryStore method_err" where
  "mem_Add now key val exp c =
     (case arc_Get key (store_lru c) of
        (Some _, l) \<Rightarrow> (Ret (Some ErrNotStored), c\<lparr>store_lru := l\<rparr>)
      | (None, l) \<Rightarrow> mem_doAddSet now key val exp (c\<lparr>store_lru := l\<rparr>))"

definition mem_Replace :: "Time \<Rightarrow> string \<Rightarrow> godata \<Rightarrow> duration \<Rightarrow> inMemoryStore method_err" where
  "mem_Replace now key val exp c =
     (case arc_Get key (store_lru c) of
        (Some _, l) \<Rightarrow> mem_doAddSet now key val exp (c\<lparr>store_lru := l\<rparr>)
      | (None, l) \<Rightarrow> (Ret (Some ErrNotStored), c\<lparr>store_lru := l\<rparr>))"

definition mem_Update :: "string \<Rightarrow> GenericCacheEntry \<Rightarrow> inMemoryStore method_err" where
  "mem_Update key entry c =
     (case arc_Get key (store_lru c) of
        (Some _, l) \<Rightarrow> (Ret None, c\<lparr>store_lru := arc_Add key (box_entry entry) l\<rparr>)
      | (None, l) \<Rightarrow> (Ret (Some ErrNotStored), c\<lparr>store_lru := l\<rparr>))"

definition mem_Delete :: "Time \<Rightarrow> string \<Rightarrow> inMemoryStore method_err" where
  "mem_Delete now key c =
     (case arc_Get key (store_lru c) of
        (Some _, l) \<Rightarrow> (Ret None, c\<lparr>store_lru := arc_Remove key l\<rparr>)
      | (None, l) \<Rightarrow> (Ret (Some ErrCacheMiss), c\<lparr>store_lru := l\<rparr>))"

text \<open>\<open>int(n)\<close> and \<open>uint64(x)\<close> keep the 64 bits.\<close>

definition mem_Increment :: "Time \<Rightarrow> string \<Rightarrow> uint64 \<Rightarrow> inMemoryStore method_num" where
  "mem_Increment now key n c =
     (case arc_Get key (store_lru c) of
        (None, l) \<Rightarrow> (Ret (0, Some ErrCacheMiss), c\<lparr>store_lru := l\<rparr>)
      | (Some v, l) \<Rightarrow>
          (let c1 = c\<lparr>store_lru := l\<rparr> in
           case assert_entry v of
             None \<Rightarrow> (Panic ''interface conversion'', c1)
           | Some entry \<Rightarrow>
               if type_name (type_of (Data entry)) = ''int'' then
                 (case Data entry of
                    VInt i \<Rightarrow>
                      (let entry' = entry\<lparr>Data := VInt (i + n)\<rparr>
                       in (Ret (i + n, None), c1\<lparr>store_lru := arc_Add key (box_entry entry') l\<rparr>))
                  | _ \<Rightarrow> (Panic ''interface conversion'', c1))
               else (Ret (0, Some ErrNotSupport), c1)))"

definition mem_Decrement :: "Time \<Rightarrow> string \<Rightarrow> uint64 \<Rightarrow> inMemoryStore method_num" where
  "mem_Decrement now key n c =
     (case arc_Get key (store_lru c) of
        (None, l) \<Rightarrow> (Ret (0, Some ErrCacheMiss), c\<lparr>store_lru := l\<rparr>)
      | (Some v, l) \<Rightarrow>
          (let c1 = c\<lparr>store_lru := l\<rparr> in
           case assert_entry v of
             None \<Rightarrow> (Panic ''interface conversion'', c1)
           | Some entry \<Rightarrow>
               if type_name (type_of (Data entry)) = ''int'' then
                 (case Data entry of
                    VInt i \<Rightarrow>
                      (let r = (if i <s n then 0 else i - n); entry' = entry\<lparr>Data := VInt r\<rparr>
                       in (Ret (r, None), c1\<lparr>store_lru := arc_Add key (box_entry entry') l\<rparr>))
                  | _ \<Rightarrow> (Panic ''interface conversion'', c1))
               else (Ret (0, Some ErrNotSupport), c1)))"

definition mem_Flush :: "Time \<Rightarrow> inMemoryStore method_err" where
  "mem_Flush now c = (Ret None, c\<lparr>store_lru := arc_Purge (store_lru c)\<rparr>)"

text \<open>
  \<open>DeleteExpired\<close>: the loop over the keys listed at its start. Each iteration reads the clock anew,
  so the clock is a function of the iteration. \<open>None\<close> is a panic.
\<close>

fun mem_sweep :: "(nat \<Rightarrow> Time) \<Rightarrow> nat \<Rightarrow> string list \<Rightarrow> inMemoryStore \<Rightarrow> inMemoryStore option" where
  "mem_sweep clock i [] c = Some c"
| "mem_sweep clock i (key # keys) c =
     (case arc_Get key (store_lru c) of
        (Some val, l) \<Rightarrow>
          (case assert_entry val of
             None \<Rightarrow> None
           | Some e \<Rightarrow>
               mem_sweep clock (Suc i) keys
                 (c\<lparr>store_lru := if Expired (clock i) e then arc_Remove key l else l\<rparr>))
      | (None, l) \<Rightarrow> mem_sweep clock (Suc i) keys (c\<lparr>store_lru := l\<rparr>))"

definition mem_DeleteExpired :: "(nat \<Rightarrow> Time) \<Rightarrow> inMemoryStore \<Rightarrow> inMemoryStore option" where
  "mem_DeleteExpired clock c = mem_sweep clock 0 (arc_Keys (store_lru c)) c"

text \<open>The store as a value of the interface.\<close>

definition mem_ops :: "inMemoryStore CacheStore" where
  "mem_ops = \<lparr>m_Get = mem_Get, m_Set = mem_Set, m_Add = mem_Add, m_Replace = mem_Replace,
     m_Delete = mem_Delete, m_Increment = mem_Increment, m_Decrement = mem_Decrement, m_Flush = mem_Flush\<rparr>"

section \<open>Invariant and content\<close>

definition mem_inv :: "inMemoryStore \<Rightarrow> bool" where
  "mem_inv c \<longleftrightarrow> arc_inv (store_lru c) \<and> (\<forall>k v. arc_lookup (store_lru c) k = Some v \<longrightarrow> type_of v = TEntry)"

definition mem_content :: "inMemoryStore \<Rightarrow> string \<rightharpoonup> GenericCacheEntry" where
  "mem_content c k = Option.bind (arc_lookup (store_lru c) k) assert_entry"

text \<open>The payload \<open>Set\<close> stores: an entry is unwrapped, everything else is stored as it is.\<close>

fun payload :: "godata \<Rightarrow> godata" where
  "payload (VEntry d a x) = d"
| "payload v = v"

definition mem_stored :: "inMemoryStore \<Rightarrow> Time \<Rightarrow> godata \<Rightarrow> duration \<Rightarrow> GenericCacheEntry" where
  "mem_stored c now v exp = \<lparr>Data = payload v, TimeAdded = t_sec now, ExpiresAt = expiry_of c now exp\<rparr>"

text \<open>A value of another type that prints like an entry makes the assertion of \<open>doAddSet\<close> panic.\<close>

definition mem_settable :: "godata \<Rightarrow> bool" where
  "mem_settable v \<longleftrightarrow> type_of v = TEntry \<or> type_name (type_of v) \<noteq> ''cache.GenericCacheEntry''"

lemma mem_invD:
  assumes "mem_inv c"
  shows "arc_inv (store_lru c)" "\<And>k v. arc_lookup (store_lru c) k = Some v \<Longrightarrow> type_of v = TEntry"
    "\<And>k v. arc_lookup (store_lru c) k = Some v \<Longrightarrow> \<exists>e. v = box_entry e"
  using assms assert_entry_type assert_entry_iff unfolding mem_inv_def by (blast, blast, metis not_None_eq)

lemma mem_inv_upd: "mem_inv (c\<lparr>store_DefaultExp := d\<rparr>) = mem_inv c" "mem_inv (c\<lparr>store_janitor := j\<rparr>) = mem_inv c"
  by (simp_all add: mem_inv_def)

lemma mem_content_Some:
  assumes "mem_inv c"
  shows "mem_content c k = Some e \<longleftrightarrow> arc_lookup (store_lru c) k = Some (box_entry e)"
  using mem_invD(3) [OF assms, of k]
  by (auto simp: mem_content_def assert_entry_iff Option.bind_eq_Some_conv)

lemma mem_content_None:
  assumes "mem_inv c"
  shows "mem_content c k = None \<longleftrightarrow> arc_lookup (store_lru c) k = None"
  using mem_invD(3) [OF assms, of k] by (cases "arc_lookup (store_lru c) k") (auto simp: mem_content_def)

lemma content_le:
  assumes "arc_lookup l \<subseteq>\<^sub>m m" "m k = None \<or> m k = arc_lookup (store_lru c) k"
  shows "mem_content (c\<lparr>store_lru := l\<rparr>) k = None \<or> mem_content (c\<lparr>store_lru := l\<rparr>) k = mem_content c k"
  using assms by (cases "arc_lookup l k") (auto simp: mem_content_def map_le_def dom_def)

lemma content_mono:
  "arc_lookup l \<subseteq>\<^sub>m arc_lookup (store_lru c) \<Longrightarrow> mem_content (c\<lparr>store_lru := l\<rparr>) \<subseteq>\<^sub>m mem_content c"
  by (auto simp: map_le_def mem_content_def dom_def Option.bind_eq_Some_conv)

text \<open>The states between the steps of a method: after a \<open>Get\<close>, a \<open>Remove\<close> or an \<open>Add\<close> of an entry.\<close>

lemma after_get:
  assumes inv: "mem_inv c" and l: "l = snd (arc_Get k (store_lru c))"
  shows "mem_inv (c\<lparr>store_lru := l\<rparr>)" "mem_content (c\<lparr>store_lru := l\<rparr>) \<subseteq>\<^sub>m mem_content c"
    "mem_content (c\<lparr>store_lru := l\<rparr>) k = mem_content c k"
  using mem_invD(1,2) [OF inv] arc.get_all [of "store_lru c" "\<lambda>v. type_of v = TEntry" k]
    arc.get_keeps [of "store_lru c" k]
  by (auto simp: l mem_inv_def arc.inv_get mem_content_def intro!: content_mono arc.get_le)

lemma after_remove:
  assumes inv: "mem_inv (c\<lparr>store_lru := l\<rparr>)"
  shows "mem_inv (c\<lparr>store_lru := arc_Remove k l\<rparr>)"
    "mem_content (c\<lparr>store_lru := arc_Remove k l\<rparr>) = (mem_content (c\<lparr>store_lru := l\<rparr>))(k := None)"
  using inv by (auto simp: mem_inv_def arc.inv_remove arc.remove_map mem_content_def fun_eq_iff)

lemma after_add:
  assumes inv: "mem_inv (c\<lparr>store_lru := l\<rparr>)"
  shows "mem_inv (c\<lparr>store_lru := arc_Add k (box_entry e) l\<rparr>)"
    "mem_content (c\<lparr>store_lru := arc_Add k (box_entry e) l\<rparr>) k = Some e"
    "mem_content (c\<lparr>store_lru := arc_Add k (box_entry e) l\<rparr>) \<subseteq>\<^sub>m (mem_content (c\<lparr>store_lru := l\<rparr>))(k \<mapsto> e)"
    "arc_Len l < arc_size l \<Longrightarrow>
      mem_content (c\<lparr>store_lru := arc_Add k (box_entry e) l\<rparr>) = (mem_content (c\<lparr>store_lru := l\<rparr>))(k \<mapsto> e)"
proof -
  from inv have l: "arc_inv l" by (simp add: mem_inv_def)
  show "mem_inv (c\<lparr>store_lru := arc_Add k (box_entry e) l\<rparr>)"
    using inv arc.add_all [OF l, of "\<lambda>v. type_of v = TEntry" "box_entry e" k]
    by (simp add: mem_inv_def arc.inv_add)
  show "mem_content (c\<lparr>store_lru := arc_Add k (box_entry e) l\<rparr>) k = Some e"
    by (simp add: mem_content_def arc.add_value [OF l])
  show "mem_content (c\<lparr>store_lru := arc_Add k (box_entry e) l\<rparr>) \<subseteq>\<^sub>m (mem_content (c\<lparr>store_lru := l\<rparr>))(k \<mapsto> e)"
    using arc.add_other [OF l] arc.add_value [OF l, of k "box_entry e"]
    by (auto simp: map_le_def mem_content_def dom_def Option.bind_eq_Some_conv)
  show "mem_content (c\<lparr>store_lru := arc_Add k (box_entry e) l\<rparr>) = (mem_content (c\<lparr>store_lru := l\<rparr>))(k \<mapsto> e)"
    if "arc_Len l < arc_size l" using arc_Add_simps(5) [OF l that] by (auto simp: mem_content_def fun_eq_iff)
qed

section \<open>What the methods do to the content\<close>

abbreviation touched :: "string \<Rightarrow> inMemoryStore \<Rightarrow> inMemoryStore" where
  "touched k c \<equiv> c\<lparr>store_lru := snd (arc_Get k (store_lru c))\<rparr>"

text \<open>Every method starts with a lookup; its answer is the content of the key.\<close>

lemma case_lookup:
  assumes "mem_inv c"
  shows "(case arc_Get k (store_lru c) of (r, l) \<Rightarrow> f r l)
    = f (map_option box_entry (mem_content c k)) (snd (arc_Get k (store_lru c)))"
proof -
  have "fst (arc_Get k (store_lru c)) = map_option box_entry (mem_content c k)"
    using arc.get_value [OF mem_invD(1) [OF assms], of k] mem_content_Some [OF assms, of k] mem_content_None [OF assms, of k]
    by (cases "mem_content c k") auto
  then show ?thesis by (simp add: case_prod_beta)
qed

lemma mem_Get_eq:
  assumes "mem_inv c"
  shows "mem_Get now k ty c =
    (case mem_content c k of
       None \<Rightarrow> (Ret (Some ErrCacheMiss, None), touched k c)
     | Some e \<Rightarrow> if Expired now e
         then (Ret (Some ErrCacheMiss, None), c\<lparr>store_lru := arc_Remove k (snd (arc_Get k (store_lru c)))\<rparr>)
         else (mem_deliver ty e, touched k c))"
  by (cases "mem_content c k") (simp_all add: mem_Get_def case_lookup [OF assms] Let_def)

lemma mem_Add_eq:
  assumes "mem_inv c"
  shows "mem_Add now k v exp c =
    (if mem_content c k = None then mem_doAddSet now k v exp (touched k c) else (Ret (Some ErrNotStored), touched k c))"
  by (cases "mem_content c k") (simp_all add: mem_Add_def case_lookup [OF assms])

lemma mem_Replace_eq:
  assumes "mem_inv c"
  shows "mem_Replace now k v exp c =
    (if mem_content c k = None then (Ret (Some ErrNotStored), touched k c) else mem_doAddSet now k v exp (touched k c))"
  by (cases "mem_content c k") (simp_all add: mem_Replace_def case_lookup [OF assms])

lemma mem_Update_eq:
  assumes "mem_inv c"
  shows "mem_Update k e c =
    (if mem_content c k = None then (Ret (Some ErrNotStored), touched k c)
     else (Ret None, c\<lparr>store_lru := arc_Add k (box_entry e) (snd (arc_Get k (store_lru c)))\<rparr>))"
  by (cases "mem_content c k") (simp_all add: mem_Update_def case_lookup [OF assms])

lemma mem_Delete_eq:
  assumes "mem_inv c"
  shows "mem_Delete now k c =
    (if mem_content c k = None then (Ret (Some ErrCacheMiss), touched k c)
     else (Ret None, c\<lparr>store_lru := arc_Remove k (snd (arc_Get k (store_lru c)))\<rparr>))"
  by (cases "mem_content c k") (simp_all add: mem_Delete_def case_lookup [OF assms])

lemma mem_doAddSet_eq:
  assumes "mem_settable v"
  shows "mem_doAddSet now k v exp c =
    (Ret None, c\<lparr>store_lru := arc_Add k (box_entry (mem_stored c now v exp)) (store_lru c)\<rparr>)"
  using assms by (cases v) (auto simp: mem_doAddSet_def mem_settable_def mem_stored_def Let_def)

text \<open>The arithmetic of \<open>Increment\<close> and \<open>Decrement\<close> on an \<open>int\<close>.\<close>

definition mem_count :: "(int64 \<Rightarrow> int64) \<Rightarrow> string \<Rightarrow> inMemoryStore \<Rightarrow> (uint64 \<times> error option) outcome \<times> inMemoryStore" where
  "mem_count f k c =
    (case mem_content c k of
       None \<Rightarrow> (Ret (0, Some ErrCacheMiss), touched k c)
     | Some e \<Rightarrow>
         (case Data e of
            VInt i \<Rightarrow> (Ret (f i, None),
              c\<lparr>store_lru := arc_Add k (box_entry (e\<lparr>Data := VInt (f i)\<rparr>)) (snd (arc_Get k (store_lru c)))\<rparr>)
          | v \<Rightarrow> if type_name (type_of v) = ''int'' then (Panic ''interface conversion'', touched k c)
                  else (Ret (0, Some ErrNotSupport), touched k c)))"

lemma numtype_not_int [simp]: "numtype_name t \<noteq> ''int''"
  by (cases t) simp_all

lemma mem_Increment_eq:
  assumes "mem_inv c" shows "mem_Increment now k n c = mem_count (\<lambda>i. i + n) k c"
  by (auto simp: mem_Increment_def mem_count_def case_lookup [OF assms] Let_def
      split: option.splits godata.splits)

lemma mem_Decrement_eq:
  assumes "mem_inv c" shows "mem_Decrement now k n c = mem_count (\<lambda>i. if i <s n then 0 else i - n) k c"
  by (auto simp: mem_Decrement_def mem_count_def case_lookup [OF assms] Let_def
      split: option.splits godata.splits)

lemmas mem_eqs = mem_Get_eq mem_Add_eq mem_Replace_eq mem_Update_eq mem_Delete_eq mem_Increment_eq mem_Decrement_eq

lemma mem_count_inv: "mem_inv c \<Longrightarrow> mem_inv (snd (mem_count f k c))"
  by (auto simp: after_get after_add mem_count_def split: option.splits godata.splits)

lemma mem_doAddSet_inv: "mem_inv c \<Longrightarrow> mem_inv (snd (mem_doAddSet now k v exp c))"
  using after_add(1) [of "store_lru c" c k]
  by (auto simp: mem_doAddSet_def Let_def split: option.splits)

lemma mem_Get_inv: "mem_inv c \<Longrightarrow> mem_inv (snd (mem_Get now k ty c))"
  by (auto simp: mem_Get_eq after_get after_remove split: option.splits)

lemma mem_Get_content: "mem_inv c \<Longrightarrow> mem_content (snd (mem_Get now k ty c)) \<subseteq>\<^sub>m mem_content c"
  by (auto simp: mem_Get_eq after_get after_remove split: option.splits
      intro: map_le_trans [OF map_le_upd_None after_get(2) [OF _ refl]])

lemma mem_Delete_inv: "mem_inv c \<Longrightarrow> mem_inv (snd (mem_Delete now k c))"
  by (auto simp: mem_Delete_eq after_get after_remove)

lemma map_le_upd_both: "m \<subseteq>\<^sub>m m' \<Longrightarrow> m(k := x) \<subseteq>\<^sub>m m'(k := x)"
  by (auto simp: map_le_def)

lemma mem_Delete_content:
  assumes inv: "mem_inv c"
  shows "mem_content (snd (mem_Delete now k c)) \<subseteq>\<^sub>m (mem_content c)(k := None)"
proof (cases "mem_content c k")
  case None
  then show ?thesis using after_get(2) [OF inv refl, of k] by (simp add: mem_Delete_eq [OF inv] fun_upd_idem)
next
  case (Some e)
  then show ?thesis using map_le_upd_both [OF after_get(2) [OF inv refl, of k], of k None]
    by (simp add: mem_Delete_eq [OF inv] after_remove [OF after_get(1) [OF inv refl]])
qed

lemma mem_Flush_facts:
  assumes "mem_inv c"
  shows "mem_inv (snd (mem_Flush now c))" "mem_content (snd (mem_Flush now c)) = Map.empty"
  using arc_Purge_correct [OF mem_invD(1) [OF assms]]
  by (auto simp: mem_Flush_def mem_inv_def mem_content_def fun_eq_iff)

interpretation mem: cache_store mem_ops mem_inv mem_content mem_stored mem_settable
proof unfold_locales
  fix c now k v exp assume inv: "mem_inv c" and v: "mem_settable v"
  note eq = mem_doAddSet_eq [OF v, of now k exp c]
  have c: "mem_inv (c\<lparr>store_lru := store_lru c\<rparr>)" using inv by simp
  show "fst (m_Set mem_ops now k v exp c) = Ret None"
    "mem_content (snd (m_Set mem_ops now k v exp c)) k = Some (mem_stored c now v exp)"
    "mem_content (snd (m_Set mem_ops now k v exp c)) \<subseteq>\<^sub>m (mem_content c)(k \<mapsto> mem_stored c now v exp)"
    "mem_inv (snd (m_Set mem_ops now k v exp c))"
    using after_add [OF c, of k "mem_stored c now v exp"] by (simp_all add: mem_ops_def mem_Set_def eq)
next
  fix c now k ty assume inv: "mem_inv c"
  show "fst (m_Get mem_ops now k ty c) = Ret (Some ErrCacheMiss, None)"
    if "mem_content c k = None \<or> (\<exists>e. mem_content c k = Some e \<and> Expired now e)"
    using that by (auto simp: mem_ops_def mem_Get_eq [OF inv])
  show "mem_content (snd (m_Get mem_ops now k ty c)) \<subseteq>\<^sub>m mem_content c" "mem_inv (snd (m_Get mem_ops now k ty c))"
    using mem_Get_content [OF inv] mem_Get_inv [OF inv] by (simp_all add: mem_ops_def)
next
  fix c now k e assume "mem_inv c" "mem_content c k = Some e" "\<not> Expired now e"
  then show "fst (m_Get mem_ops now k (TPtr TEntry) c) = Ret (None, Some (box_entry e))"
    by (simp add: mem_ops_def mem_Get_eq mem_deliver_def)
next
  fix c now k assume inv: "mem_inv c"
  show "mem_content (snd (m_Delete mem_ops now k c)) \<subseteq>\<^sub>m (mem_content c)(k := None)"
    "mem_inv (snd (m_Delete mem_ops now k c))"
    "fst (m_Delete mem_ops now k c) = Ret (if mem_content c k = None then Some ErrCacheMiss else None)"
    using mem_Delete_content [OF inv] mem_Delete_inv [OF inv] by (simp_all add: mem_ops_def mem_Delete_eq [OF inv])
  show "mem_content (snd (m_Flush mem_ops now c)) = Map.empty" "mem_inv (snd (m_Flush mem_ops now c))"
    "fst (m_Flush mem_ops now c) = Ret None"
    using mem_Flush_facts [OF inv] by (simp_all add: mem_ops_def) (simp add: mem_Flush_def)
next
  fix e c now exp
  show "mem_settable (box_entry e)" by (simp add: mem_settable_def)
  show "Data (mem_stored c now (box_entry e) exp) = Data e" by (simp add: mem_stored_def box_entry_def)
qed

section \<open>Properties of the store\<close>

text \<open>A store with one entry, used by the witnesses: key \<open>k\<close> holds 10, added at second 1000 for 60 seconds.\<close>

definition at :: "int64 \<Rightarrow> int \<Rightarrow> Time" where
  "at s n = \<lparr>t_sec = s, t_nsec = n\<rparr>"

definition mem0 :: inMemoryStore where
  "mem0 = \<lparr>store_lru = the (NewARC 2), store_DefaultExp = 30000000000, store_janitor = None\<rparr>"

definition mem1 :: inMemoryStore where
  "mem1 = snd (mem_Set (at 1000 0) ''k'' (VInt 10) 60000000000 mem0)"

definition mem1_entry :: GenericCacheEntry where
  "mem1_entry = \<lparr>Data = VInt 10, TimeAdded = 1000, ExpiresAt = 1060\<rparr>"

lemma mem0_inv: "mem_inv mem0" "mem_content mem0 = Map.empty"
proof -
  obtain l :: "(string, godata) ARCCache" where l: "NewARC 2 = Some l"
    by (simp add: NewARC_def NewLRU_def)
  show "mem_inv mem0" "mem_content mem0 = Map.empty"
    using NewARC_correct [OF l] by (auto simp: mem0_def mem_inv_def mem_content_def l fun_eq_iff)
qed

lemma settable_simps [simp]: "mem_settable (VInt i)" "mem_settable (VString t)" "mem_settable (VResponse a b c)"
  "mem_settable (VEntry d a' x)" "mem_settable (VBytes bs)"
  by (simp_all add: mem_settable_def)

lemma mem1_facts: "mem_inv mem1" "mem_content mem1 ''k'' = Some mem1_entry"
proof -
  have e: "mem_stored mem0 (at 1000 0) (VInt 10) 60000000000 = mem1_entry"
    by (simp add: mem_stored_def mem1_entry_def expiry_of_def at_def FOREVER_def go_div_def time_Second_def
        signed_divide_int_def)
  show "mem_inv mem1" "mem_content mem1 ''k'' = Some mem1_entry"
    using mem.inv_set [OF mem0_inv(1), of "VInt 10"] mem.set_content [OF mem0_inv(1), of "VInt 10"]
    by (simp_all add: mem1_def mem_ops_def flip: e)
qed



text \<open>
  C14: Expiry, to the nanosecond: an entry set at \<open>now\<close> is a miss at \<open>later\<close> exactly when it was
  not set forever and \<open>later\<close> lies after the end of the second \<open>now + d\<close>, where \<open>d\<close> is the whole
  seconds of the given duration, or of the store's default when the given duration is zero. (An
  expiry that happens to be second 0 of the epoch also counts as never.)
\<close>

theorem mem_Set_expiry:
  assumes "mem_inv c" "mem_settable v" "sane_clock now" "sane_clock later"
  shows "fst (mem_Get later k (TPtr TEntry) (snd (mem_Set now k v exp c))) = Ret (Some ErrCacheMiss, None)
    \<longleftrightarrow> exp \<noteq> FOREVER \<and> (let s = sint (t_sec now) + sint (if exp = 0 then store_DefaultExp c else exp) sdiv 1000000000
          in s \<noteq> 0 \<and> s * 1000000000 < nanos later)"
proof -
  let ?e = "mem_stored c now v exp" and ?d = "if exp = 0 then store_DefaultExp c else exp"
  have "fst (mem_Get later k (TPtr TEntry) (snd (mem_Set now k v exp c))) = Ret (Some ErrCacheMiss, None) \<longleftrightarrow> Expired later ?e"
    using mem.set_expires [OF assms(1,2), of later now exp k] mem.set_then_get [OF assms(1,2), of later now exp k]
    by (cases "Expired later ?e") (simp_all add: mem_ops_def)
  also have "\<dots> \<longleftrightarrow> exp \<noteq> FOREVER \<and> (let s = sint (t_sec now) + sint ?d sdiv 1000000000
      in s \<noteq> 0 \<and> s * 1000000000 < nanos later)"
  proof (cases "exp = FOREVER")
    case True
    then show ?thesis by (simp add: Expired_def mem_stored_def expiry_of_def)
  next
    case False
    have x: "ExpiresAt ?e = t_sec now + go_div ?d time_Second" using False by (simp add: mem_stored_def expiry_of_def)
    note s = sint_expiry [OF assms(3), of ?d]
    have "t_sec now + go_div ?d time_Second = 0 \<longleftrightarrow> sint (t_sec now) + sint ?d sdiv 1000000000 = 0"
      by (metis s(1) signed_eq_0_iff)
    then show ?thesis using Expired_nanos [OF assms(4), of ?e] s x False by (simp add: Let_def)
  qed
  finally show ?thesis .
qed

theorem mem_Set_expiry_witness:
  "fst (mem_Get (at 1060 1) ''k'' (TPtr TEntry) (snd (mem_Set (at 1000 0) ''k'' (VInt 10) 60000000000 mem0)))
     = Ret (Some ErrCacheMiss, None)"
  using mem_Set_expiry [OF mem0_inv(1), of "VInt 10" "at 1000 0" "at 1060 1" "''k''" 60000000000]
  by (simp add: sane_clock_def at_def FOREVER_def nanos_def signed_divide_int_def Let_def)

lemma mem_stored_touched [simp]: "mem_stored (c\<lparr>store_lru := l\<rparr>) now v exp = mem_stored c now v exp"
  by (simp add: mem_stored_def expiry_of_def)

text \<open>Storing after the initial lookup, as \<open>Add\<close> and \<open>Replace\<close> do.\<close>

lemma store_after_touch:
  assumes inv: "mem_inv c" and v: "mem_settable v"
  shows "fst (mem_doAddSet now k v exp (touched k c)) = Ret None"
    "mem_content (snd (mem_doAddSet now k v exp (touched k c))) k = Some (mem_stored c now v exp)"
    "mem_content (snd (mem_doAddSet now k v exp (touched k c))) \<subseteq>\<^sub>m (mem_content c)(k \<mapsto> mem_stored c now v exp)"
proof -
  note get = after_get [OF inv refl, of k]
  note add = after_add [OF get(1), of k "mem_stored c now v exp"]
  show "fst (mem_doAddSet now k v exp (touched k c)) = Ret None" by (simp add: mem_doAddSet_eq [OF v])
  show "mem_content (snd (mem_doAddSet now k v exp (touched k c))) k = Some (mem_stored c now v exp)"
    using add(2) by (simp add: mem_doAddSet_eq [OF v])
  show "mem_content (snd (mem_doAddSet now k v exp (touched k c))) \<subseteq>\<^sub>m (mem_content c)(k \<mapsto> mem_stored c now v exp)"
    using map_le_trans [OF add(3) map_le_upd_both [OF get(2)]] by (simp add: mem_doAddSet_eq [OF v])
qed



text \<open>
  Expired entries that have not been collected still count as present for every method but
  \<open>Get\<close>: \<open>Add\<close> is refused, \<open>Replace\<close> and \<open>Delete\<close> succeed and \<open>Increment\<close> returns a new value, while
  \<open>Get\<close> reports a miss before and after the refused \<open>Add\<close> and after the \<open>Increment\<close>.
\<close>

theorem mem_expired_still_present:
  assumes "mem_inv c" "mem_settable v" "mem_content c k = Some e" "Expired now e" "Data e = VInt i"
  shows "fst (mem_Get now k ty c) = Ret (Some ErrCacheMiss, None)
    \<and> fst (mem_Add now k v exp c) = Ret (Some ErrNotStored)
    \<and> fst (mem_Get now k ty (snd (mem_Add now k v exp c))) = Ret (Some ErrCacheMiss, None)
    \<and> fst (mem_Replace now k v exp c) = Ret None
    \<and> fst (mem_Delete now k c) = Ret None
    \<and> fst (mem_Increment now k n c) = Ret (i + n, None)
    \<and> fst (mem_Get now k ty (snd (mem_Increment now k n c))) = Ret (Some ErrCacheMiss, None)"
proof -
  note get = after_get [OF assms(1) refl, of k]
  note put = store_after_touch [OF assms(1,2), of now k exp]
  note add = after_add [OF get(1), of k "e\<lparr>Data := VInt (i + n)\<rparr>"]
  have x: "Expired now (e\<lparr>Data := VInt (i + n)\<rparr>)" using assms(4) by (simp add: Expired_def split: if_splits)
  have "fst (mem_Get now k ty (touched k c)) = Ret (Some ErrCacheMiss, None)"
    using get(3) assms(3,4) by (simp add: mem_Get_eq [OF get(1)])
  then show ?thesis
    using assms(3-5) put(1) x add(2)
    by (simp add: mem_eqs [OF assms(1)] mem_count_def mem_Get_eq [OF add(1)])
qed

theorem mem_expired_still_present_witness:
  "fst (mem_Add (at 1061 0) ''k'' (VInt 7) 0 mem1) = Ret (Some ErrNotStored)
    \<and> fst (mem_Increment (at 1061 0) ''k'' 5 mem1) = Ret (15, None)"
proof -
  have "Expired (at 1061 0) mem1_entry"
    by (simp add: mem1_entry_def at_def Expired_def Before_def time_Unix_def unixToInternal_def word_sless_alt)
  from mem_expired_still_present [OF mem1_facts(1) _ mem1_facts(2) this, of "VInt 7" 10 "TPtr TInt" 0 5]
  show ?thesis by (simp add: mem1_entry_def)
qed

lemma dec_result:
  fixes i n :: int64
  assumes "0 \<le> sint i \<and> uint n < 2 ^ 63"
  shows "sint (if i <s n then 0 else i - n) = max 0 (sint i - uint n)"
proof (cases "i <s n")
  case True
  with assms sint_eq_uint64 [of n] show ?thesis by (simp add: word_sless_alt)
next
  case False
  have u: "sint n = uint n" "0 \<le> uint n" using assms sint_eq_uint64 [of n] by simp_all
  with False have le: "uint n \<le> sint i" by (simp add: word_sless_alt)
  have "sint (i - n) = sint (word_of_int (sint i - sint n) :: int64)" by simp
  also have "\<dots> = sint i - sint n"
  proof (rule sint_word_of_int64)
    show "- (2 ^ 63) \<le> sint i - sint n" using le u(1) by simp
    show "sint i - sint n < 2 ^ 63" using u(2) unfolding u(1) using sint_bounds64(2) [of i] by linarith
  qed
  finally show ?thesis using False le u by simp
qed



text \<open>
  An amount of \<open>2^63\<close> or more turns \<open>Decrement\<close> into an addition: \<open>int(n)\<close> is negative, so the
  cap at zero is not taken and the counter becomes \<open>i - n\<close> modulo \<open>2^64\<close>.
\<close>

theorem mem_Decrement_large:
  assumes "mem_inv c" "mem_content c k = Some e" "Data e = VInt i" "0 \<le> sint i" "2 ^ 63 \<le> uint n"
  shows "fst (mem_Decrement now k n c) = Ret (i - n, None)
    \<and> mem_content (snd (mem_Decrement now k n c)) k = Some (e\<lparr>Data := VInt (i - n)\<rparr>)"
proof -
  have "sint n < 0"
  proof (rule ccontr)
    assume "\<not> sint n < 0"
    then have "uint n = sint n" using sint_bounds64(2) [of n] by (simp add: uint_sint take_bit_int_eq_self)
    with assms(5) sint_bounds64(2) [of n] show False by simp
  qed
  with assms(4) have "\<not> i <s n" by (simp add: word_sless_alt)
  then show ?thesis using assms(2,3) after_add(2) [OF after_get(1) [OF assms(1) refl], of k]
    by (simp add: mem_Decrement_eq [OF assms(1)] mem_count_def)
qed

theorem mem_Decrement_large_witness:
  "fst (mem_Decrement (at 1001 0) ''k'' 18446744073709551615 mem1) = Ret (11, None)"
  using mem_Decrement_large [OF mem1_facts, of 10 18446744073709551615 "at 1001 0"] by (simp add: mem1_entry_def)

section \<open>The sweep\<close>

lemma arc_Len_card: "arc_inv l \<Longrightarrow> arc_Len l = int (card (dom (arc_lookup l)))"
  using arc_Keys_correct by (metis distinct_card)

definition within_size :: "inMemoryStore \<Rightarrow> bool" where
  "within_size c \<longleftrightarrow> arc_Len (store_lru c) \<le> arc_size (store_lru c)"

lemma within_size_less:
  assumes "arc_inv l" "arc_inv l'" "arc_lookup l' \<subseteq>\<^sub>m arc_lookup l" "arc_size l' = arc_size l" "arc_Len l \<le> arc_size l"
  shows "arc_Len l' \<le> arc_size l'"
proof -
  have fin: "finite (dom (arc_lookup l))" using arc_Keys_correct(1) [OF assms(1)] by (metis List.finite_set)
  have "card (dom (arc_lookup l')) \<le> card (dom (arc_lookup l))"
    by (rule card_mono [OF fin map_le_implies_dom_le [OF assms(3)]])
  then show ?thesis using arc_Len_card [OF assms(1)] arc_Len_card [OF assms(2)] assms(4,5) by simp
qed

text \<open>One iteration of the sweep.\<close>

definition sweep1 :: "Time \<Rightarrow> string \<Rightarrow> inMemoryStore \<Rightarrow> inMemoryStore" where
  "sweep1 now k c = (let l = snd (arc_Get k (store_lru c)) in
     c\<lparr>store_lru := if \<exists>e. mem_content c k = Some e \<and> Expired now e then arc_Remove k l else l\<rparr>)"

lemma mem_sweep_Cons:
  "mem_inv c \<Longrightarrow> mem_sweep clock i (k # ks) c = mem_sweep clock (Suc i) ks (sweep1 (clock i) k c)"
  by (cases "mem_content c k") (simp_all add: case_lookup sweep1_def Let_def)

lemma sweep1_facts:
  assumes inv: "mem_inv c"
  shows "mem_inv (sweep1 now k c)" "mem_content (sweep1 now k c) \<subseteq>\<^sub>m mem_content c"
    "mem_content c k = Some e \<Longrightarrow> Expired now e \<Longrightarrow> mem_content (sweep1 now k c) k = None"
    "within_size c \<Longrightarrow> within_size (sweep1 now k c)"
    "within_size c \<Longrightarrow> mem_content c j = Some e \<Longrightarrow> j \<noteq> k \<or> \<not> Expired now e \<Longrightarrow> mem_content (sweep1 now k c) j = Some e"
proof -
  note arc = mem_invD(1) [OF inv] and get = after_get [OF inv refl, of k]
  note rem = after_remove [OF get(1), of k]
  show "mem_inv (sweep1 now k c)" using get rem by (simp add: sweep1_def Let_def)
  show "mem_content (sweep1 now k c) \<subseteq>\<^sub>m mem_content c"
    using get rem by (auto simp: sweep1_def Let_def intro: map_le_trans [OF map_le_upd_None])
  show "mem_content (sweep1 now k c) k = None" if "mem_content c k = Some e" "Expired now e"
    using that rem by (simp add: sweep1_def Let_def)
  show "within_size (sweep1 now k c)" if "within_size c"
    using within_size_less [OF arc arc.inv_get [OF arc] arc.get_le [OF arc]]
      within_size_less [OF arc arc.inv_remove [OF arc.inv_get [OF arc]], of k k] that arc
      map_le_trans [OF map_le_upd_None arc.get_le [OF arc, of k], of k]
    by (auto simp: sweep1_def Let_def within_size_def arc_Get_correct arc_Remove_correct)
  show "mem_content (sweep1 now k c) j = Some e"
    if w: "within_size c" and j: "mem_content c j = Some e" "j \<noteq> k \<or> \<not> Expired now e"
  proof -
    have "mem_content (touched k c) = mem_content c"
      using arc_Get_correct(6) [OF arc, of k] w by (auto simp: within_size_def mem_content_def fun_eq_iff)
    then show ?thesis using j rem(2) by (auto simp: sweep1_def Let_def)
  qed
qed

lemma map_le_None: "m \<subseteq>\<^sub>m m' \<Longrightarrow> m' k = None \<Longrightarrow> m k = None"
  by (auto simp: map_le_def dom_def)

lemma map_le_Some: "m \<subseteq>\<^sub>m m' \<Longrightarrow> m k = Some v \<Longrightarrow> m' k = Some v"
  by (auto simp: map_le_def dom_def)

definition swept :: "(nat \<Rightarrow> Time) \<Rightarrow> nat \<Rightarrow> string list \<Rightarrow> inMemoryStore \<Rightarrow> inMemoryStore \<Rightarrow> bool" where
  "swept clock i ks c c' \<longleftrightarrow> mem_inv c' \<and> mem_content c' \<subseteq>\<^sub>m mem_content c
    \<and> (\<forall>j < length ks. \<forall>e. mem_content c (ks ! j) = Some e \<and> Expired (clock (i + j)) e \<longrightarrow> mem_content c' (ks ! j) = None)
    \<and> (within_size c \<longrightarrow> (\<forall>k e. mem_content c k = Some e
        \<and> (\<forall>j < length ks. ks ! j = k \<longrightarrow> \<not> Expired (clock (i + j)) e) \<longrightarrow> mem_content c' k = Some e))"

lemma swept_Cons:
  assumes inv: "mem_inv c" and sw: "swept clock (Suc i) ks (sweep1 (clock i) k c) c'"
  shows "swept clock i (k # ks) c c'"
proof -
  let ?c = "sweep1 (clock i) k c"
  note one = sweep1_facts [OF inv, where now = "clock i" and k = k]
  from sw have le: "mem_content c' \<subseteq>\<^sub>m mem_content ?c" by (simp add: swept_def)
  have "mem_content c' ((k # ks) ! j) = None"
    if j: "j < length (k # ks)" and e: "mem_content c ((k # ks) ! j) = Some e" "Expired (clock (i + j)) e" for j e
  proof (cases j)
    case 0
    with e have "mem_content ?c k = None" by (intro one(3)) simp_all
    with 0 map_le_None [OF le] show ?thesis by simp
  next
    case (Suc j')
    show ?thesis
    proof (cases "mem_content ?c (ks ! j')")
      case None
      with Suc map_le_None [OF le] show ?thesis by simp
    next
      case (Some e')
      with map_le_Some [OF one(2)] e Suc have "e' = e" by (metis nth_Cons_Suc option.inject)
      with Some sw j e Suc show ?thesis unfolding swept_def by simp
    qed
  qed
  moreover have "mem_content c' k' = Some e" if "within_size c" "mem_content c k' = Some e"
      "\<forall>j < length (k # ks). (k # ks) ! j = k' \<longrightarrow> \<not> Expired (clock (i + j)) e" for k' e
  proof -
    from that(3) have n: "k' \<noteq> k \<or> \<not> Expired (clock i) e"
      "\<forall>j < length ks. ks ! j = k' \<longrightarrow> \<not> Expired (clock (Suc i + j)) e"
      by (auto simp: All_less_Suc2)
    from one(5) [OF that(1,2) n(1)] one(4) [OF that(1)] sw n(2) show ?thesis unfolding swept_def by blast
  qed
  ultimately show ?thesis
    using sw map_le_trans [OF le one(2)] unfolding swept_def by blast
qed

lemma mem_sweep_swept: "mem_inv c \<Longrightarrow> \<exists>c'. mem_sweep clock i ks c = Some c' \<and> swept clock i ks c c'"
proof (induction ks arbitrary: i c)
  case Nil
  then show ?case by (simp add: swept_def)
next
  case (Cons k ks)
  from Cons.IH [OF sweep1_facts(1) [OF Cons.prems], of "Suc i" "clock i" k] show ?case
    using swept_Cons [OF Cons.prems] mem_sweep_Cons [OF Cons.prems] by metis
qed



section \<open>Reachable stores\<close>

inductive mem_step :: "inMemoryStore \<Rightarrow> inMemoryStore \<Rightarrow> bool" where
  Get: "mem_step c (snd (mem_Get now k ty c))"
| Set: "mem_step c (snd (mem_Set now k v exp c))"
| Add: "mem_step c (snd (mem_Add now k v exp c))"
| Replace: "mem_step c (snd (mem_Replace now k v exp c))"
| Update: "mem_step c (snd (mem_Update k e c))"
| Delete: "mem_step c (snd (mem_Delete now k c))"
| Increment: "mem_step c (snd (mem_Increment now k n c))"
| Decrement: "mem_step c (snd (mem_Decrement now k n c))"
| Flush: "mem_step c (snd (mem_Flush now c))"
| Sweep: "mem_DeleteExpired clock c = Some c' \<Longrightarrow> mem_step c c'"

inductive mem_reachable :: "int \<Rightarrow> inMemoryStore \<Rightarrow> bool" for n where
  new: "NewInMemoryStore n d ci cm l = Inr (c, g, f) \<Longrightarrow> mem_reachable n c"
| step: "mem_reachable n c \<Longrightarrow> mem_step c c' \<Longrightarrow> mem_reachable n c'"

text \<open>The invariant together with the configured size, and the three states a method can end in.\<close>

definition mem_ok :: "int \<Rightarrow> inMemoryStore \<Rightarrow> bool" where
  "mem_ok n c \<longleftrightarrow> mem_inv c \<and> arc_size (store_lru c) = n"

lemma mem_okD: "mem_ok n c \<Longrightarrow> mem_inv c"
  by (simp add: mem_ok_def)

lemma ok_touched: "mem_ok n c \<Longrightarrow> mem_ok n (touched k c)"
  using after_get(1) [OF _ refl] by (simp add: mem_ok_def arc_Get_correct mem_invD)

lemma ok_removed: "mem_ok n (c\<lparr>store_lru := l\<rparr>) \<Longrightarrow> mem_ok n (c\<lparr>store_lru := arc_Remove k l\<rparr>)"
  using after_remove(1) [of l c k] arc_Remove_correct(3) [of l k] mem_invD(1) [of "c\<lparr>store_lru := l\<rparr>"]
  by (simp add: mem_ok_def)

lemma ok_added: "mem_ok n (c\<lparr>store_lru := l\<rparr>) \<Longrightarrow> mem_ok n (c\<lparr>store_lru := arc_Add k (box_entry e) l\<rparr>)"
  using after_add(1) [of l c k e] arc_Add_simps(2) [of l k "box_entry e"] mem_invD(1) [of "c\<lparr>store_lru := l\<rparr>"]
  by (simp add: mem_ok_def)

lemma ok_stored: "mem_ok n c \<Longrightarrow> mem_ok n (snd (mem_doAddSet now k v exp c))"
  using ok_added [of n "store_lru c" c] by (auto simp: mem_doAddSet_def Let_def split: option.splits)

lemma ok_counted: "mem_ok n c \<Longrightarrow> mem_ok n (snd (mem_count f k c))"
  by (auto simp: mem_count_def split: option.splits godata.splits intro: ok_touched ok_added [OF ok_touched])

lemma ok_flushed: "mem_ok n c \<Longrightarrow> mem_ok n (snd (mem_Flush now c))"
  using mem_Flush_facts(1) by (simp add: mem_ok_def) (simp add: mem_Flush_def arc_Purge_correct mem_invD)

lemma ok_sweep1: "mem_ok n c \<Longrightarrow> mem_ok n (sweep1 now k c)"
  by (auto simp: sweep1_def Let_def intro: ok_touched ok_removed [OF ok_touched])

lemma ok_swept: "mem_ok n c \<Longrightarrow> mem_sweep clock i ks c = Some c' \<Longrightarrow> mem_ok n c'"
  by (induction ks arbitrary: i c)
    (auto simp del: mem_sweep.simps(2) simp: mem_sweep_Cons mem_okD intro: ok_sweep1)

lemmas mem_oks = ok_touched ok_stored ok_counted ok_flushed ok_removed [OF ok_touched] ok_added [OF ok_touched]

lemma mem_step_ok: "mem_step c c' \<Longrightarrow> mem_ok n c \<Longrightarrow> mem_ok n c'"
proof (induction rule: mem_step.induct)
  case (Sweep clock c c')
  then show ?case by (auto simp: mem_DeleteExpired_def intro: ok_swept)
qed (auto simp: mem_eqs mem_okD mem_Set_def split: option.splits intro: mem_oks)

lemma NewInMemoryStore_ok:
  assumes "NewInMemoryStore n d ci cm l = Inr (c, g, f)"
  shows "mem_ok n c" "mem_content c = Map.empty" "f \<longleftrightarrow> 0 <s ci" "store_janitor c \<noteq> None \<longleftrightarrow> 0 <s ci"
proof -
  from assms obtain a :: "(string, godata) ARCCache" where a: "NewARC n = Some a"
    by (cases "NewARC n :: (string, godata) ARCCache option") (simp_all add: NewInMemoryStore_def)
  with assms have c: "store_lru c = a" and j: "f \<longleftrightarrow> 0 <s ci" "store_janitor c \<noteq> None \<longleftrightarrow> 0 <s ci"
    by (auto simp: NewInMemoryStore_def runJanitor_def Let_def simp del: Sprintf.simps split: if_splits)
  from NewARC_correct [OF a] show "mem_ok n c" "mem_content c = Map.empty"
    by (simp_all add: mem_ok_def mem_inv_def mem_content_def c fun_eq_iff)
  show "f \<longleftrightarrow> 0 <s ci" "store_janitor c \<noteq> None \<longleftrightarrow> 0 <s ci" by (rule j)+
qed

lemma mem_reachable_ok: "mem_reachable n c \<Longrightarrow> mem_ok n c"
  by (induction rule: mem_reachable.induct) (auto dest: NewInMemoryStore_ok(1) intro: mem_step_ok)

text \<open>
  C4: A store created for \<open>n\<close> entries, after any sequence of its methods and sweeps: only cache
  entries are stored, so no type assertion on a stored value can fail; \<open>Len\<close> counts the stored
  keys, \<open>Keys\<close> lists each of them once, and there are at most \<open>n + 1\<close>. In particular \<open>Increment\<close>,
  \<open>Decrement\<close> and the sweep do not panic because of what the store holds, other than for a
  payload of a foreign type that prints as \<open>int\<close>.
\<close>

theorem mem_reachable_safe:
  assumes "mem_reachable n c"
  shows "(\<forall>k v. arc_lookup (store_lru c) k = Some v \<longrightarrow> assert_entry v \<noteq> None)
    \<and> set (mem_Keys c) = dom (mem_content c) \<and> distinct (mem_Keys c)
    \<and> mem_Len c = int (card (dom (mem_content c))) \<and> mem_Len c \<le> n + 1
    \<and> mem_DeleteExpired clock c \<noteq> None
    \<and> (panics (fst (mem_Increment now k m c)) \<longrightarrow>
        (\<exists>e p b. mem_content c k = Some e \<and> Data e = VUser p ''int'' b))"
proof -
  from mem_reachable_ok [OF assms] have inv: "mem_inv c" and n: "arc_size (store_lru c) = n" by (simp_all add: mem_ok_def)
  note arc = mem_invD(1) [OF inv] and keys = arc_Keys_correct [OF mem_invD(1) [OF inv]]
  have dom: "dom (mem_content c) = dom (arc_lookup (store_lru c))"
    unfolding dom_def using mem_content_None [OF inv] by simp
  have "mem_DeleteExpired clock c \<noteq> None"
    using mem_sweep_swept [OF inv] unfolding mem_DeleteExpired_def by (metis option.distinct(1))
  moreover have "\<exists>e p b. mem_content c k = Some e \<and> Data e = VUser p ''int'' b" if "panics (fst (mem_Increment now k m c))"
    using that by (auto simp: mem_Increment_eq [OF inv] mem_count_def split: option.splits godata.splits if_splits)
  moreover have "mem_Len c = int (card (dom (mem_content c)))" by (simp add: mem_Len_def arc_Len_card [OF arc] dom)
  moreover have "mem_Len c \<le> n + 1" using arc_invD(14) [OF arc] n by (simp add: mem_Len_def)
  ultimately show ?thesis
    using keys dom mem_invD(2) [OF inv] assert_entry_type by (auto simp: mem_Keys_def)
qed

lemma mem0_reachable: "mem_reachable 2 mem0"
proof -
  obtain l :: "(string, godata) ARCCache" where l: "NewARC 2 = Some l" by (simp add: NewARC_def NewLRU_def)
  then have "NewInMemoryStore 2 30000000000 0 False [] = Inr (mem0, None, False)"
    by (simp add: NewInMemoryStore_def mem0_def)
  then show ?thesis by (rule mem_reachable.new)
qed

theorem mem_reachable_safe_witness:
  "mem_Len mem1 \<le> 3 \<and> set (mem_Keys mem1) = dom (mem_content mem1)"
proof -
  have "mem_reachable 2 mem1"
    unfolding mem1_def by (rule mem_reachable.step [OF mem0_reachable mem_step.Set])
  from mem_reachable_safe [OF this, of "\<lambda>_. at 0 0" "at 0 0" "[]" 0] show ?thesis by auto
qed

end
