(* ===== verification/Janitor.thy ===== *)
theory Janitor
  imports InMemoryStore
begin

text \<open>
  The janitor goroutine of \<open>src/inmemory.go\<close> beside its clients.

  Each call of the ARC cache holds its lock, so the steps that interleave are single cache calls. The
  janitor's program counter is its phase; the clients are any number of goroutines, whose
  steps on the shared store are the cache calls the methods make. The ticker may fire at any time.
  \<open>stopJanitor\<close> runs in the finalizer goroutine, whose state is the \<open>stopper\<close>: sending on the nil
  channel blocks for ever, sending on the unbuffered channel meets the goroutine in its \<open>select\<close>.
\<close>

section \<open>The goroutine\<close>

datatype phase = Spawned | Selecting | Sweeping "string list" | Checking string godata "string list"
  | Removing string "string list" | Stopped | Crashed

text \<open>One step of \<open>Run\<close> and, within it, of \<open>DeleteExpired\<close>, when the goroutine does not wait.\<close>

definition make_stop :: "inMemoryStore \<Rightarrow> inMemoryStore" where
  "make_stop c = c\<lparr>store_janitor := map_option (\<lambda>j. j\<lparr>j_stop := True\<rparr>) (store_janitor c)\<rparr>"

fun janitor_step :: "Time \<Rightarrow> phase \<times> inMemoryStore \<Rightarrow> phase \<times> inMemoryStore" where
  "janitor_step now (Spawned, c) = (Selecting, make_stop c)"
| "janitor_step now (Sweeping [], c) = (Selecting, c)"
| "janitor_step now (Sweeping (key # keys), c) =
     (case arc_Get key (store_lru c) of
        (Some entry, l) \<Rightarrow> (Checking key entry keys, c\<lparr>store_lru := l\<rparr>)
      | (None, l) \<Rightarrow> (Sweeping keys, c\<lparr>store_lru := l\<rparr>))"
| "janitor_step now (Checking key entry keys, c) =
     (case assert_entry entry of
        None \<Rightarrow> (Crashed, c)
      | Some e \<Rightarrow> if Expired now e then (Removing key keys, c) else (Sweeping keys, c))"
| "janitor_step now (Removing key keys, c) = (Sweeping keys, c\<lparr>store_lru := arc_Remove key (store_lru c)\<rparr>)"
| "janitor_step now (p, c) = (p, c)"

text \<open>The two cases of the \<open>select\<close>: a tick lists the keys, a value received from \<open>stop\<close> ends the loop.\<close>

definition janitor_tick :: "inMemoryStore \<Rightarrow> phase" where
  "janitor_tick c = Sweeping (arc_Keys (store_lru c))"

datatype stopper = NotStopping | BlockedOnNil | Sending | Sent

text \<open>\<open>stopJanitor\<close>: reading the field of a nil janitor panics; the channel is read once.\<close>

definition stopJanitor :: "inMemoryStore \<Rightarrow> stopper outcome" where
  "stopJanitor c =
     (case store_janitor c of
        None \<Rightarrow> Panic ''nil pointer dereference''
      | Some j \<Rightarrow> Ret (if j_stop j then Sending else BlockedOnNil))"

section \<open>The whole system\<close>

text \<open>The cache calls the store's methods are made of; listing keys and counting change nothing.\<close>

inductive call_step :: "inMemoryStore \<Rightarrow> inMemoryStore \<Rightarrow> bool" where
  call_Get: "call_step c (c\<lparr>store_lru := snd (arc_Get k (store_lru c))\<rparr>)"
| call_Add: "call_step c (c\<lparr>store_lru := arc_Add k (box_entry e) (store_lru c)\<rparr>)"
| call_Remove: "call_step c (c\<lparr>store_lru := arc_Remove k (store_lru c)\<rparr>)"
| call_Purge: "call_step c (c\<lparr>store_lru := arc_Purge (store_lru c)\<rparr>)"

record system =
  sys_store :: inMemoryStore
  sys_phase :: phase
  sys_stopper :: stopper

definition run_janitor :: "Time \<Rightarrow> system \<Rightarrow> system" where
  "run_janitor now s =
     (case janitor_step now (sys_phase s, sys_store s) of (p, c) \<Rightarrow> s\<lparr>sys_phase := p, sys_store := c\<rparr>)"

inductive sys_step :: "system \<Rightarrow> system \<Rightarrow> bool" where
  client: "call_step (sys_store s) c \<Longrightarrow> sys_step s (s\<lparr>sys_store := c\<rparr>)"
| goroutine: "sys_step s (run_janitor now s)"
| tick: "sys_phase s = Selecting \<Longrightarrow> sys_step s (s\<lparr>sys_phase := janitor_tick (sys_store s)\<rparr>)"
| finalize: "sys_stopper s = NotStopping \<Longrightarrow> stopJanitor (sys_store s) = Ret x \<Longrightarrow> sys_step s (s\<lparr>sys_stopper := x\<rparr>)"
| meet: "sys_stopper s = Sending \<Longrightarrow> sys_phase s = Selecting \<Longrightarrow>
    sys_step s (s\<lparr>sys_stopper := Sent, sys_phase := Stopped\<rparr>)"

inductive sys_reachable :: "int \<Rightarrow> system \<Rightarrow> bool" for n where
  new: "NewInMemoryStore n d ci cm l = Inr (c, g, True) \<Longrightarrow>
    sys_reachable n \<lparr>sys_store = c, sys_phase = Spawned, sys_stopper = NotStopping\<rparr>"
| step: "sys_reachable n s \<Longrightarrow> sys_step s s' \<Longrightarrow> sys_reachable n s'"

section \<open>Safety under interleaving\<close>

lemma call_ok: "call_step c c' \<Longrightarrow> mem_ok n c \<Longrightarrow> mem_ok n c'"
proof (induction rule: call_step.induct)
  case (call_Purge c)
  then show ?case using ok_flushed [of n c] by (simp add: mem_Flush_def)
qed (auto intro: ok_touched ok_added ok_removed)

lemma call_janitor: "call_step c c' \<Longrightarrow> store_janitor c' = store_janitor c"
  by (induction rule: call_step.induct) simp_all

lemma make_stop_ok: "mem_ok n (make_stop c) = mem_ok n c"
  by (simp add: mem_ok_def make_stop_def mem_inv_upd)

text \<open>What a phase knows: a value the janitor has read is an entry.\<close>

fun phase_ok :: "phase \<Rightarrow> bool" where
  "phase_ok (Checking k v ks) \<longleftrightarrow> assert_entry v \<noteq> None"
| "phase_ok Crashed \<longleftrightarrow> False"
| "phase_ok _ \<longleftrightarrow> True"

lemma janitor_step_ok:
  assumes "mem_ok n c" "phase_ok p" "janitor_step now (p, c) = (p', c')"
  shows "mem_ok n c'" "phase_ok p'" "store_janitor c' = (if p = Spawned then store_janitor (make_stop c) else store_janitor c)"
proof -
  have inv: "mem_inv c" using assms(1) by (rule mem_okD)
  have got: "assert_entry v \<noteq> None" if "fst (arc_Get k (store_lru c)) = Some v" for k v
    using that arc.get_value [OF mem_invD(1) [OF inv]] mem_invD(2) [OF inv] assert_entry_type by metis
  have "mem_ok n c' \<and> phase_ok p' \<and> (store_janitor c' = (if p = Spawned then store_janitor (make_stop c) else store_janitor c))"
  proof (cases "(now, (p, c))" rule: janitor_step.cases)
    case (3 now key keys c)
    then show ?thesis using assms got [of key] ok_touched [OF assms(1), of key]
      by (auto split: prod.splits option.splits)
  qed (use assms ok_removed [where n = n and c = c and l = "store_lru c"] in \<open>auto simp: make_stop_ok split: option.splits if_splits\<close>)
  then show "mem_ok n c'" "phase_ok p'" "store_janitor c' = (if p = Spawned then store_janitor (make_stop c) else store_janitor c)"
    by blast+
qed

text \<open>
  The invariant: the store's own, the phase's, and that the channel exists from the goroutine's
  first step on.
\<close>

definition sys_ok :: "int \<Rightarrow> system \<Rightarrow> bool" where
  "sys_ok n s \<longleftrightarrow> mem_ok n (sys_store s) \<and> phase_ok (sys_phase s)
     \<and> (\<exists>j. store_janitor (sys_store s) = Some j \<and> (j_stop j \<longleftrightarrow> sys_phase s \<noteq> Spawned))
     \<and> (sys_phase s = Stopped \<longrightarrow> sys_stopper s = Sent)
     \<and> (sys_stopper s = Sending \<longrightarrow> sys_phase s \<noteq> Spawned)"

lemma janitor_phase: "fst (janitor_step now (p, c)) \<noteq> Spawned"
  "fst (janitor_step now (p, c)) = Stopped \<longleftrightarrow> p = Stopped"
  by (cases "(now, (p, c))" rule: janitor_step.cases; simp split: prod.splits option.splits)+

lemma sys_step_ok: "sys_step s s' \<Longrightarrow> sys_ok n s \<Longrightarrow> sys_ok n s'"
proof (induction rule: sys_step.induct)
  case (client s c)
  then show ?case using call_ok [OF client(1)] call_janitor [OF client(1)] by (simp add: sys_ok_def)
next
  case (goroutine s now)
  obtain p c where pc: "janitor_step now (sys_phase s, sys_store s) = (p, c)" by fastforce
  have *: "mem_ok n (sys_store s)" "phase_ok (sys_phase s)" using goroutine by (simp_all add: sys_ok_def)
  show ?case
    using goroutine janitor_step_ok [OF * pc] janitor_phase [of now "sys_phase s" "sys_store s"]
    by (auto simp: sys_ok_def run_janitor_def pc make_stop_def)
next
  case (finalize s x)
  then show ?case by (auto simp: sys_ok_def stopJanitor_def split: option.splits)
qed (auto simp: sys_ok_def janitor_tick_def)

lemma sys_reachable_ok: "sys_reachable n s \<Longrightarrow> sys_ok n s"
proof (induction rule: sys_reachable.induct)
  case (new d ci cm l c g)
  have "\<exists>j. store_janitor c = Some j \<and> \<not> j_stop j"
    using new by (auto simp: NewInMemoryStore_def runJanitor_def Let_def simp del: Sprintf.simps split: option.splits if_splits)
  then show ?case using NewInMemoryStore_ok(1) [OF new] by (auto simp: sys_ok_def)
qed (rule sys_step_ok)

text \<open>
  C5: Whatever the interleaving of the janitor, the ticker, the finalizer and any number of client
  goroutines: the janitor never panics, every stored value is an entry, the store has at most
  \<open>n + 1\<close> entries, and the goroutine has only ended when the finalizer's value was received.
\<close>

theorem janitor_interleaving_safe:
  assumes "sys_reachable n s"
  shows "sys_phase s \<noteq> Crashed
    \<and> (\<forall>k v. arc_lookup (store_lru (sys_store s)) k = Some v \<longrightarrow> assert_entry v \<noteq> None)
    \<and> mem_Len (sys_store s) \<le> n + 1 \<and> (sys_phase s = Stopped \<longrightarrow> sys_stopper s = Sent)"
proof -
  from sys_reachable_ok [OF assms] have ok: "sys_ok n s" .
  then have inv: "mem_inv (sys_store s)" and n: "arc_size (store_lru (sys_store s)) = n" and ph: "phase_ok (sys_phase s)"
    by (simp_all add: sys_ok_def mem_ok_def)
  have "mem_Len (sys_store s) \<le> n + 1"
    using arc_invD(14) [OF mem_invD(1) [OF inv]] n by (simp add: mem_Len_def)
  moreover have "sys_phase s \<noteq> Crashed" using ph by (cases "sys_phase s") simp_all
  ultimately show ?thesis using mem_invD(2) [OF inv] assert_entry_type ok by (auto simp: sys_ok_def)
qed

text \<open>
  The methods are sequences of these calls, so the clients of the system can be in the middle of any
  of them.
\<close>

lemma calls_sweep: "mem_sweep clock i ks c = Some c' \<Longrightarrow> call_step\<^sup>*\<^sup>* c c'"
proof (induction ks arbitrary: i c)
  case (Cons k ks)
  let ?t = "touched k c"
  have get: "call_step\<^sup>*\<^sup>* c ?t" by (blast intro: call_Get)
  have rem: "call_step\<^sup>*\<^sup>* c (c\<lparr>store_lru := arc_Remove k (snd (arc_Get k (store_lru c)))\<rparr>)"
    using rtranclp.rtrancl_into_rtrancl [OF get call_Remove [of ?t k]] by simp
  show ?case using Cons.prems
    by (auto split: prod.splits option.splits if_splits
        dest!: Cons.IH intro: rtranclp_trans [OF get] rtranclp_trans [OF rem])
qed simp

lemma calls_one: "call_step\<^sup>*\<^sup>* c (touched k c)"
  "call_step\<^sup>*\<^sup>* c (c\<lparr>store_lru := arc_Remove k (snd (arc_Get k (store_lru c)))\<rparr>)"
  "call_step\<^sup>*\<^sup>* c (c\<lparr>store_lru := arc_Add k (box_entry e) (snd (arc_Get k (store_lru c)))\<rparr>)"
  using rtranclp.rtrancl_into_rtrancl [OF r_into_rtranclp [of call_step, OF call_Get [of c k]] call_Remove [of "touched k c" k]]
    rtranclp.rtrancl_into_rtrancl [OF r_into_rtranclp [of call_step, OF call_Get [of c k]] call_Add [of "touched k c" k e]]
  by (auto intro: call_Get)

lemma calls_stored: "call_step\<^sup>*\<^sup>* c (snd (mem_doAddSet now k v exp c))"
  by (auto simp: mem_doAddSet_def Let_def split: option.splits intro: call_Add)

lemma calls_counted: "call_step\<^sup>*\<^sup>* c (snd (mem_count f k c))"
  by (auto simp: mem_count_def split: option.splits godata.splits intro: calls_one)



section \<open>The sweep alone\<close>

lemma mem_sweep_cong: "(\<And>j. i \<le> j \<Longrightarrow> clock j = clock' j) \<Longrightarrow> mem_sweep clock i ks c = mem_sweep clock' i ks c"
proof (induction ks arbitrary: i c)
  case (Cons k ks)
  from Cons.prems have "clock i = clock' i" "mem_sweep clock (Suc i) ks = mem_sweep clock' (Suc i) ks"
    by (auto intro!: Cons.IH)
  then show ?case by (simp split: prod.splits option.splits)
qed simp

lemma idle_steps: "fold janitor_step ts (Selecting, c) = (Selecting, c)"
  by (induction ts) simp_all

text \<open>The iteration of the goroutine that handles one key takes at most three steps.\<close>

lemma janitor_iteration:
  assumes inv: "mem_inv c" and ts: "3 \<le> length ts"
  shows "\<exists>t m. m \<le> 3 \<and> fold janitor_step ts (Sweeping (k # ks), c) = fold janitor_step (drop m ts) (Sweeping ks, sweep1 t k c)"
proof -
  from ts obtain t0 t1 t2 ts' where "ts = t0 # t1 # t2 # ts'" by (metis Suc_le_length_iff numeral_3_eq_3)
  moreover have "fst (arc_Get k (store_lru c)) = map_option box_entry (mem_content c k)"
    using case_lookup [OF inv, of "\<lambda>r l. r" k] by (simp add: case_prod_beta)
  ultimately have "fold janitor_step ts (Sweeping (k # ks), c) =
    fold janitor_step (drop (case mem_content c k of None \<Rightarrow> 1 | Some e \<Rightarrow> if Expired t1 e then 3 else 2) ts)
      (Sweeping ks, sweep1 t1 k c)"
    by (cases "arc_Get k (store_lru c)") (auto simp: sweep1_def Let_def split: option.splits)
  then show ?thesis
    by (intro exI [of _ t1] exI [of _ "case mem_content c k of None \<Rightarrow> 1 | Some e \<Rightarrow> if Expired t1 e then 3 else 2"])
      (simp split: option.splits)
qed

lemma janitor_sweep:
  "mem_inv c \<Longrightarrow> 3 * length ks < length ts \<Longrightarrow>
   \<exists>clock c'. mem_sweep clock i ks c = Some c' \<and> fold janitor_step ts (Sweeping ks, c) = (Selecting, c')"
proof (induction ks arbitrary: c ts i)
  case Nil
  then show ?case by (cases ts) (simp_all add: idle_steps)
next
  case (Cons k ks)
  then obtain t m where m: "m \<le> 3"
    and it: "fold janitor_step ts (Sweeping (k # ks), c) = fold janitor_step (drop m ts) (Sweeping ks, sweep1 t k c)"
    using janitor_iteration [of c ts k ks] by auto
  have "3 * length ks < length (drop m ts)" using Cons.prems(2) m by simp
  then obtain clock c' where c': "mem_sweep clock (Suc i) ks (sweep1 t k c) = Some c'"
    "fold janitor_step (drop m ts) (Sweeping ks, sweep1 t k c) = (Selecting, c')"
    using Cons.IH [OF sweep1_facts(1) [OF Cons.prems(1)]] by blast
  have "mem_sweep (clock(i := t)) (Suc i) ks = mem_sweep clock (Suc i) ks"
    by (rule ext, rule mem_sweep_cong) simp
  then have "mem_sweep (clock(i := t)) i (k # ks) c = Some c'"
    using c'(1) by (simp add: mem_sweep_Cons [OF Cons.prems(1)] del: mem_sweep.simps)
  with c'(2) it show ?case by auto
qed



section \<open>Lost updates and stopping\<close>

text \<open>
  C34: The check of an entry and its removal are two calls. When the janitor has found the entry of
  \<open>k\<close> expired and a client sets \<open>k\<close> before the removal, the \<open>Set\<close> reports success and the
  janitor's next step deletes the new value, however long its expiry: a following \<open>Get\<close>
  misses.
\<close>

theorem set_lost_to_janitor:
  fixes now :: Time and exp :: duration
  assumes "sys_reachable n s" "sys_phase s = Removing k ks" "mem_settable v"
  defines "s1 \<equiv> s\<lparr>sys_store := snd (mem_Set now k v exp (sys_store s))\<rparr>"
  shows "fst (mem_Set now k v exp (sys_store s)) = Ret None \<and> sys_reachable n s1
    \<and> mem_content (sys_store s1) k = Some (mem_stored (sys_store s) now v exp)
    \<and> fst (mem_Get later k ty (sys_store (run_janitor t s1))) = Ret (Some ErrCacheMiss, None)"
proof -
  from sys_reachable_ok [OF assms(1)] have inv: "mem_inv (sys_store s)" by (auto simp: sys_ok_def mem_ok_def)
  have set: "mem_Set now k v exp (sys_store s) = (Ret None,
      (sys_store s)\<lparr>store_lru := arc_Add k (box_entry (mem_stored (sys_store s) now v exp)) (store_lru (sys_store s))\<rparr>)"
    by (simp add: mem_Set_def mem_doAddSet_eq [OF assms(3)])
  have inv1: "mem_inv (sys_store s1)"
    using mem.inv_set [OF inv assms(3), of now k exp] by (simp add: s1_def mem_ops_def)
  have "sys_reachable n s1"
    using sys_reachable.step [OF assms(1) sys_step.client [OF call_Add]] by (simp add: s1_def set)
  moreover have "mem_content (sys_store s1) k = Some (mem_stored (sys_store s) now v exp)"
    using mem.set_content [OF inv assms(3), of now k exp] by (simp add: s1_def mem_ops_def)
  moreover have "fst (mem_Get later k ty (sys_store (run_janitor t s1))) = Ret (Some ErrCacheMiss, None)"
  proof -
    have c: "sys_store (run_janitor t s1) = (sys_store s1)\<lparr>store_lru := arc_Remove k (store_lru (sys_store s1))\<rparr>"
      using assms(2) by (simp add: run_janitor_def s1_def)
    have "mem_inv (sys_store (run_janitor t s1))" "mem_content (sys_store (run_janitor t s1)) k = None"
      using after_remove [where c = "sys_store s1" and l = "store_lru (sys_store s1)" and k = k] inv1 by (simp_all add: c)
    then show ?thesis using mem.get_miss [of "sys_store (run_janitor t s1)" k later ty] by (simp add: mem_ops_def)
  qed
  ultimately show ?thesis by (simp add: set)
qed

text \<open>A run up to that point: an entry added, a tick after its expiry, the key read and checked.\<close>

definition jsys0 :: system where
  "jsys0 = \<lparr>sys_store = runJanitor 60000000000 mem0, sys_phase = Spawned, sys_stopper = NotStopping\<rparr>"

definition jsys1 :: system where
  "jsys1 = run_janitor (at 2000 0) (jsys0\<lparr>sys_store := (sys_store jsys0)\<lparr>store_lru :=
     arc_Add ''k'' (box_entry mem1_entry) (store_lru (sys_store jsys0))\<rparr>\<rparr>)"

definition jsys2 :: system where
  "jsys2 = run_janitor (at 2000 0) (run_janitor (at 2000 0) (jsys1\<lparr>sys_phase := janitor_tick (sys_store jsys1)\<rparr>))"

lemma jsys0_reachable: "sys_reachable 2 jsys0"
proof -
  obtain l :: "(string, godata) ARCCache" where l: "NewARC 2 = Some l" by (simp add: NewARC_def NewLRU_def)
  then have "NewInMemoryStore 2 30000000000 60000000000 False [] = Inr (runJanitor 60000000000 mem0, None, True)"
    by (simp add: NewInMemoryStore_def mem0_def word_sless_alt)
  from sys_reachable.new [OF this] show ?thesis by (simp add: jsys0_def)
qed

lemma jsys1_reachable: "sys_reachable 2 jsys1" "sys_phase jsys1 = Selecting"
  unfolding jsys1_def
  by (rule sys_reachable.step [OF sys_reachable.step [OF jsys0_reachable client [OF call_Add]] goroutine])
    (simp add: run_janitor_def jsys0_def)

lemma jsys2_reachable: "sys_reachable 2 jsys2" "sys_phase jsys2 = Removing ''k'' []"
proof -
  have "sys_reachable 2 (jsys1\<lparr>sys_phase := janitor_tick (sys_store jsys1)\<rparr>)"
    by (rule sys_reachable.step [OF jsys1_reachable(1) tick [OF jsys1_reachable(2)]])
  then show "sys_reachable 2 jsys2"
    unfolding jsys2_def by (rule sys_reachable.step [OF sys_reachable.step [OF _ goroutine] goroutine])
  show "sys_phase jsys2 = Removing ''k'' []" by code_simp
qed

theorem janitor_interleaving_safe_witness: "sys_phase jsys2 \<noteq> Crashed \<and> mem_Len (sys_store jsys2) \<le> 3"
  using janitor_interleaving_safe [OF jsys2_reachable(1)] by simp

theorem set_lost_to_janitor_witness:
  "fst (mem_Set (at 2000 0) ''k'' (VInt 7) FOREVER (sys_store jsys2)) = Ret None
   \<and> fst (mem_Get (at 2000 0) ''k'' (TPtr TInt) (sys_store (run_janitor (at 2000 0)
        (jsys2\<lparr>sys_store := snd (mem_Set (at 2000 0) ''k'' (VInt 7) FOREVER (sys_store jsys2))\<rparr>))))
      = Ret (Some ErrCacheMiss, None)"
  using set_lost_to_janitor [OF jsys2_reachable, of "VInt 7" "at 2000 0" FOREVER "at 2000 0" "TPtr TInt" "at 2000 0"]
  by simp

text \<open>Steps the goroutine can make before it waits again.\<close>

fun remaining :: "phase \<Rightarrow> nat" where
  "remaining Spawned = 1"
| "remaining (Sweeping ks) = 3 * length ks + 1"
| "remaining (Checking k v ks) = 3 * length ks + 3"
| "remaining (Removing k ks) = 3 * length ks + 2"
| "remaining _ = 0"

lemma remaining_step: "remaining (fst (janitor_step now (p, c))) \<le> remaining p - 1"
  by (cases "(now, (p, c))" rule: janitor_step.cases) (simp_all split: prod.splits option.splits)

lemma run_janitor_simps: "sys_stopper (run_janitor now s) = sys_stopper s"
  "sys_phase (run_janitor now s) = fst (janitor_step now (sys_phase s, sys_store s))"
  by (simp_all add: run_janitor_def split: prod.splits)

lemma run_janitor_reachable: "sys_reachable n s \<Longrightarrow> sys_reachable n (fold run_janitor ts s)"
  by (induction ts arbitrary: s) (auto intro: sys_reachable.step goroutine)

lemma run_janitor_remaining: "remaining (sys_phase (fold run_janitor ts s)) \<le> remaining (sys_phase s) - length ts"
proof (induction ts arbitrary: s)
  case (Cons t ts)
  have "remaining (sys_phase (run_janitor t s)) \<le> remaining (sys_phase s) - 1"
    unfolding run_janitor_simps by (rule remaining_step)
  with Cons.IH [of "run_janitor t s"] show ?case by simp
qed simp

lemma run_janitor_stopper: "sys_stopper (fold run_janitor ts s) = sys_stopper s"
  by (induction ts arbitrary: s) (simp_all add: run_janitor_simps)

text \<open>
  C35: Stopping: once \<open>stopJanitor\<close> is sending on the channel, the goroutine, if it makes its
  remaining steps, is back in its \<open>select\<close>, where the value can be received and the loop ends.
\<close>

theorem stop_is_received:
  assumes "sys_reachable n s" "sys_stopper s = Sending" "remaining (sys_phase s) \<le> length ts"
  shows "sys_phase (fold run_janitor ts s) = Selecting
    \<and> sys_step (fold run_janitor ts s) ((fold run_janitor ts s)\<lparr>sys_stopper := Sent, sys_phase := Stopped\<rparr>)"
proof -
  let ?s = "fold run_janitor ts s"
  have ok: "sys_ok n ?s" by (rule sys_reachable_ok [OF run_janitor_reachable [OF assms(1)]])
  moreover have "sys_stopper ?s = Sending" by (simp add: run_janitor_stopper assms(2))
  moreover have "remaining (sys_phase ?s) = 0" using run_janitor_remaining [of ts s] assms(3) by simp
  ultimately have "sys_phase ?s = Selecting" by (cases "sys_phase ?s") (auto simp: sys_ok_def)
  then show ?thesis using \<open>sys_stopper ?s = Sending\<close> by (simp add: meet)
qed

theorem stop_is_received_witness:
  "sys_phase (fold run_janitor (replicate 3 (at 2000 0)) (jsys2\<lparr>sys_stopper := Sending\<rparr>)) = Selecting"
proof -
  have "sys_ok 2 jsys2" "sys_stopper jsys2 = NotStopping"
    by (rule sys_reachable_ok [OF jsys2_reachable(1)]) (simp add: jsys2_def jsys1_def jsys0_def run_janitor_simps)
  then have "sys_reachable 2 (jsys2\<lparr>sys_stopper := Sending\<rparr>)"
    by (intro sys_reachable.step [OF jsys2_reachable(1) finalize])
      (auto simp: sys_ok_def stopJanitor_def jsys2_reachable(2))
  from stop_is_received [OF this, of "replicate 3 (at 2000 0)"] show ?thesis by (simp add: jsys2_reachable(2))
qed

text \<open>A run in which the goroutine gets to run again and again, whatever else happens.\<close>

definition fair_run :: "(nat \<Rightarrow> system) \<Rightarrow> bool" where
  "fair_run r \<longleftrightarrow> (\<forall>i. sys_step (r i) (r (Suc i))) \<and> (\<forall>i. \<exists>j\<ge>i. \<exists>now. r (Suc j) = run_janitor now (r j))"

lemma sys_step_phase: "sys_step s s' \<Longrightarrow> sys_phase s \<noteq> Selecting \<Longrightarrow> sys_phase s' = sys_phase s \<or> (\<exists>now. s' = run_janitor now s)"
  by (induction rule: sys_step.induct) auto

lemma remaining_zero: "remaining p = 0 \<Longrightarrow> phase_ok p \<Longrightarrow> p = Selecting \<or> p = Stopped"
  by (cases p) simp_all

text \<open>Until the goroutine runs, its phase stays; when it runs, less remains.\<close>

lemma fair_progress:
  assumes "fair_run r" "remaining (sys_phase (r i)) \<noteq> 0"
  shows "\<exists>j\<ge>i. sys_phase (r j) = Selecting \<or> remaining (sys_phase (r j)) < remaining (sys_phase (r i))"
proof (rule ccontr)
  assume neg: "\<not> ?thesis"
  obtain j now where j: "i \<le> j" "r (Suc j) = run_janitor now (r j)" using assms(1) unfolding fair_run_def by blast
  have stay: "remaining (sys_phase (r (i + d))) = remaining (sys_phase (r i))" for d
  proof (induction d)
    case (Suc d)
    have "sys_step (r (i + d)) (r (Suc (i + d)))" using assms(1) unfolding fair_run_def by blast
    moreover have "sys_phase (r (i + d)) \<noteq> Selecting" using neg by (metis le_add1)
    ultimately have "remaining (sys_phase (r (Suc (i + d)))) \<le> remaining (sys_phase (r (i + d)))"
      using sys_step_phase remaining_step by (fastforce simp: run_janitor_simps intro: le_trans [OF remaining_step])
    then show ?case using Suc neg by (metis add_Suc_right le_add1 le_neq_implies_less)
  qed simp
  have "remaining (sys_phase (r (Suc j))) < remaining (sys_phase (r j))"
    using remaining_step [of now "sys_phase (r j)" "sys_store (r j)"] stay [of "j - i"] j assms(2) by (simp add: run_janitor_simps)
  then show False using neg j(1) stay [of "j - i"] by (metis le_SucI le_add_diff_inverse)
qed

text \<open>
  C19: A sweep ends: in every run in which the goroutine gets its turns, whatever the clients do to the store between
  them, it is back in its \<open>select\<close> at some later point, or has been stopped.
\<close>

theorem sweep_ends:
  assumes "sys_reachable n (r 0)" "fair_run r"
  shows "\<exists>j\<ge>i. sys_phase (r j) = Selecting \<or> sys_phase (r j) = Stopped"
proof (induction "remaining (sys_phase (r i))" arbitrary: i rule: less_induct)
  case less
  show ?case
  proof (cases "remaining (sys_phase (r i)) = 0")
    case True
    have "sys_reachable n (r k)" for k
      using assms unfolding fair_run_def by (induction k) (auto intro: sys_reachable.step)
    then have "phase_ok (sys_phase (r i))" using sys_reachable_ok by (auto simp: sys_ok_def)
    then show ?thesis using remaining_zero [OF True] by blast
  next
    case False
    then obtain j where "i \<le> j" "sys_phase (r j) = Selecting \<or> remaining (sys_phase (r j)) < remaining (sys_phase (r i))"
      using fair_progress [OF assms(2)] by blast
    then show ?thesis using less [of j] by (meson le_trans)
  qed
qed

theorem sweep_ends_witness:
  "\<exists>j\<ge>0. sys_phase ((run_janitor (at 2000 0) ^^ j) jsys2) = Selecting \<or> sys_phase ((run_janitor (at 2000 0) ^^ j) jsys2) = Stopped"
proof -
  have "fair_run (\<lambda>j. (run_janitor (at 2000 0) ^^ j) jsys2)" unfolding fair_run_def by (auto intro: goroutine)
  then show ?thesis using sweep_ends [where r = "\<lambda>j. (run_janitor (at 2000 0) ^^ j) jsys2" and i = 0] jsys2_reachable(1) by simp
qed

lemma blocked_step: "sys_step s s' \<Longrightarrow> sys_stopper s = BlockedOnNil \<Longrightarrow> sys_stopper s' = BlockedOnNil"
  by (induction rule: sys_step.induct) (simp_all add: run_janitor_simps)

text \<open>
  Stopping too early: when the finalizer runs before the goroutine has made its channel, it
  blocks for ever on the nil channel and the goroutine never ends, in no continuation of the run.
\<close>

theorem stop_before_start_blocks:
  assumes "sys_reachable n s" "sys_phase s = Spawned" "sys_stopper s = NotStopping"
  shows "stopJanitor (sys_store s) = Ret BlockedOnNil
    \<and> (\<forall>s'. sys_step\<^sup>*\<^sup>* (s\<lparr>sys_stopper := BlockedOnNil\<rparr>) s' \<longrightarrow>
          sys_stopper s' = BlockedOnNil \<and> sys_phase s' \<noteq> Stopped)"
proof -
  have nil: "stopJanitor (sys_store s) = Ret BlockedOnNil"
    using sys_reachable_ok [OF assms(1)] assms(2) by (auto simp: sys_ok_def stopJanitor_def)
  have "sys_stopper s' = BlockedOnNil \<and> sys_reachable n s'" if "sys_step\<^sup>*\<^sup>* (s\<lparr>sys_stopper := BlockedOnNil\<rparr>) s'" for s'
    using that
  proof (induction rule: rtranclp_induct)
    case base
    then show ?case using sys_reachable.step [OF assms(1) finalize [OF assms(3) nil]] by simp
  qed (auto intro: sys_reachable.step blocked_step)
  then show ?thesis using nil sys_reachable_ok by (fastforce simp: sys_ok_def)
qed

theorem stop_before_start_blocks_witness:
  "stopJanitor (sys_store jsys0) = Ret BlockedOnNil
   \<and> sys_stopper (run_janitor (at 1 0) (jsys0\<lparr>sys_stopper := BlockedOnNil\<rparr>)) = BlockedOnNil
   \<and> sys_phase (run_janitor (at 1 0) (jsys0\<lparr>sys_stopper := BlockedOnNil\<rparr>)) \<noteq> Stopped"
proof -
  have "sys_step\<^sup>*\<^sup>* (jsys0\<lparr>sys_stopper := BlockedOnNil\<rparr>) (run_janitor (at 1 0) (jsys0\<lparr>sys_stopper := BlockedOnNil\<rparr>))"
    by (rule r_into_rtranclp [of sys_step, OF goroutine])
  then show ?thesis using stop_before_start_blocks [OF jsys0_reachable] by (auto simp: jsys0_def)
qed

end
