(* ===== verification/ObjectStore.thy ===== *)
theory ObjectStore
  imports CacheStore
begin

text \<open>
  A second contract of a store, for clients that keep values of one type: what \<open>Set\<close> leaves under a key is found by \<open>Get\<close>
  as long as it is live. The store may keep it in a form of its own: \<open>stored\<close> is that form, which
  depends on the state only through what no operation changes (the default expiry), and \<open>carries\<close> tells
  which value it stands for. Unlike in \<open>cache_store\<close>, a live value comes back as it was set.
\<close>

locale object_store =
  fixes ty :: gotype and st :: "'w CacheStore" and inv :: "'w \<Rightarrow> bool" and entry :: "'w \<Rightarrow> string \<Rightarrow> 'e option" and live :: "Time \<Rightarrow> 'e \<Rightarrow> bool"
    and carries :: "'e \<Rightarrow> godata \<Rightarrow> bool" and stored :: "'w \<Rightarrow> Time \<Rightarrow> godata \<Rightarrow> duration \<Rightarrow> 'e" and accepts :: "godata \<Rightarrow> duration \<Rightarrow> bool"
  assumes set_object: "inv w \<Longrightarrow> type_of v = ty \<Longrightarrow> accepts v exp \<Longrightarrow>
      \<exists>w'. m_Set st now k v exp w = (Ret None, w') \<and> inv w' \<and> entry w' k = Some (stored w now v exp) \<and> stored w' = stored w"
    and get_object: "inv w \<Longrightarrow> type_of v = ty \<Longrightarrow> entry w k = Some e \<Longrightarrow> live now e \<Longrightarrow> carries e v \<Longrightarrow>
      \<exists>w'. m_Get st now k (TPtr ty) w = (Ret (None, Some v), w') \<and> inv w' \<and> entry w' k = Some e"
    and get_missing: "inv w \<Longrightarrow> (\<forall>e. entry w k = Some e \<longrightarrow> \<not> live now e) \<Longrightarrow>
      \<exists>w'. m_Get st now k (TPtr ty) w = (Ret (Some ErrCacheMiss, None), w') \<and> inv w' \<and> stored w' = stored w \<and> (\<forall>e. entry w' k = Some e \<longrightarrow> entry w k = Some e)"
    and stored_carries: "type_of v = ty \<Longrightarrow> accepts v exp \<Longrightarrow> carries (stored w now v exp) v"
begin

lemma set_then_get:
  assumes "inv w" "type_of v = ty" "accepts v exp" "live later (stored w now v exp)"
  shows "\<exists>w1 w2. m_Set st now k v exp w = (Ret None, w1) \<and> m_Get st later k (TPtr ty) w1 = (Ret (None, Some v), w2) \<and> inv w2"
  using set_object [OF assms(1-3), of now k] get_object [OF _ assms(2) _ assms(4) stored_carries [OF assms(2,3)], of _ k] by blast

end

end
