(* ===== verification/Digest.thy ===== *)
theory Digest
  imports GoPrelude
begin

text \<open>
  Key derivation of the generic cache, \<open>src/generic.go\<close>: \<open>entrySignature\<close> is the hexadecimal form
  of an HMAC with SHA-256. The standard library's SHA-256 and SHA-1 (FIPS 180-4), HMAC (RFC 2104) and
  \<open>hex.EncodeToString\<close> are written out; SHA-1 serves the keys of the page cache.
\<close>

unbundle bit_operations_syntax

type_synonym word32 = "32 word"

section \<open>SHA-256\<close>

definition rotr :: "nat \<Rightarrow> word32 \<Rightarrow> word32" where
  "rotr n w = drop_bit n w OR push_bit (32 - n) w"

definition sha256_K :: "word32 list" where
  "sha256_K = [
   1116352408, 1899447441, 3049323471, 3921009573, 961987163, 1508970993,
   2453635748, 2870763221, 3624381080, 310598401, 607225278, 1426881987,
   1925078388, 2162078206, 2614888103, 3248222580, 3835390401, 4022224774,
   264347078, 604807628, 770255983, 1249150122, 1555081692, 1996064986,
   2554220882, 2821834349, 2952996808, 3210313671, 3336571891, 3584528711,
   113926993, 338241895, 666307205, 773529912, 1294757372, 1396182291,
   1695183700, 1986661051, 2177026350, 2456956037, 2730485921, 2820302411,
   3259730800, 3345764771, 3516065817, 3600352804, 4094571909, 275423344,
   430227734, 506948616, 659060556, 883997877, 958139571, 1322822218,
   1537002063, 1747873779, 1955562222, 2024104815, 2227730452, 2361852424,
   2428436474, 2756734187, 3204031479, 3329325298]"

definition sha256_init :: "word32 list" where
  "sha256_init = [
   1779033703, 3144134277, 1013904242, 2773480762, 1359893119, 2600822924,
   528734635, 1541459225]"

definition ssig0 :: "word32 \<Rightarrow> word32" where "ssig0 x = rotr 7 x XOR rotr 18 x XOR drop_bit 3 x"
definition ssig1 :: "word32 \<Rightarrow> word32" where "ssig1 x = rotr 17 x XOR rotr 19 x XOR drop_bit 10 x"
definition bsig0 :: "word32 \<Rightarrow> word32" where "bsig0 x = rotr 2 x XOR rotr 13 x XOR rotr 22 x"
definition bsig1 :: "word32 \<Rightarrow> word32" where "bsig1 x = rotr 6 x XOR rotr 11 x XOR rotr 25 x"
definition sha_ch :: "word32 \<Rightarrow> word32 \<Rightarrow> word32 \<Rightarrow> word32" where "sha_ch x y z = (x AND y) XOR (NOT x AND z)"
definition sha_maj :: "word32 \<Rightarrow> word32 \<Rightarrow> word32 \<Rightarrow> word32" where
  "sha_maj x y z = (x AND y) XOR (x AND z) XOR (y AND z)"

text \<open>The rounds, with the message schedule as a window of its next 16 words.\<close>

fun sha256_rounds :: "word32 list \<Rightarrow> word32 list \<Rightarrow> word32 list \<Rightarrow> word32 list" where
  "sha256_rounds (k # ks) (w # ws) [a, b, c, d, e, f, g, h] =
     (let t1 = h + bsig1 e + sha_ch e f g + k + w; t2 = bsig0 a + sha_maj a b c;
          w' = ssig1 (ws ! 13) + ws ! 8 + ssig0 (ws ! 0) + w
      in sha256_rounds ks (ws @ [w']) [t1 + t2, a, b, c, d + t1, e, f, g])"
| "sha256_rounds _ _ s = s"

fun words_of_bytes :: "bytes \<Rightarrow> word32 list" where
  "words_of_bytes (a # b # c # d # bs) =
     (push_bit 24 (ucast a) OR push_bit 16 (ucast b) OR push_bit 8 (ucast c) OR ucast d) # words_of_bytes bs"
| "words_of_bytes _ = []"

definition bytes_of_word :: "word32 \<Rightarrow> bytes" where
  "bytes_of_word w = [ucast (drop_bit 24 w), ucast (drop_bit 16 w), ucast (drop_bit 8 w), ucast w]"

definition sha256_block :: "bytes \<Rightarrow> word32 list \<Rightarrow> word32 list" where
  "sha256_block m s = map2 (+) s (sha256_rounds sha256_K (words_of_bytes m) s)"

fun sha256_blocks :: "bytes \<Rightarrow> word32 list \<Rightarrow> word32 list" where
  "sha256_blocks m s = (if m = [] then s else sha256_blocks (drop 64 m) (sha256_block (take 64 m) s))"

declare sha256_blocks.simps [simp del]

text \<open>Padding: a 1 bit, zeros up to 8 bytes below a multiple of 64, and the length in bits.\<close>

definition sha256_pad :: "bytes \<Rightarrow> bytes" where
  "sha256_pad m = m @ [128] @ replicate ((119 - length m mod 64) mod 64) 0
     @ map (\<lambda>i. ucast (drop_bit i (8 * word_of_nat (length m) :: uint64))) [56, 48, 40, 32, 24, 16, 8, 0]"

definition sha256_Sum :: "bytes \<Rightarrow> bytes" where
  "sha256_Sum m = concat (map bytes_of_word (sha256_blocks (sha256_pad m) sha256_init))"

section \<open>SHA-1\<close>

text \<open>The rounds of SHA-1, numbered because the function and the constant change every 20 rounds.\<close>

definition rotl :: "nat \<Rightarrow> word32 \<Rightarrow> word32" where
  "rotl n w = push_bit n w OR drop_bit (32 - n) w"

fun sha1_rounds :: "nat \<Rightarrow> nat \<Rightarrow> word32 list \<Rightarrow> word32 list \<Rightarrow> word32 list" where
  "sha1_rounds (Suc n) t (w # ws) [a, b, c, d, e] =
     (let (f, k) = (if t < 20 then (sha_ch b c d, 1518500249)
                    else if t < 40 then (b XOR c XOR d, 1859775393)
                    else if t < 60 then (sha_maj b c d, 2400959708)
                    else (b XOR c XOR d, 3395469782));
          w' = rotl 1 (ws ! 12 XOR ws ! 7 XOR ws ! 1 XOR w)
      in sha1_rounds n (Suc t) (ws @ [w']) [rotl 5 a + f + e + k + w, a, rotl 30 b, c, d])"
| "sha1_rounds _ _ _ s = s"

definition sha1_block :: "bytes \<Rightarrow> word32 list \<Rightarrow> word32 list" where
  "sha1_block m s = map2 (+) s (sha1_rounds 80 0 (words_of_bytes m) s)"

fun sha1_blocks :: "bytes \<Rightarrow> word32 list \<Rightarrow> word32 list" where
  "sha1_blocks m s = (if m = [] then s else sha1_blocks (drop 64 m) (sha1_block (take 64 m) s))"

declare sha1_blocks.simps [simp del]

text \<open>SHA-1 pads like SHA-256.\<close>

definition sha1_Sum :: "bytes \<Rightarrow> bytes" where
  "sha1_Sum m = concat (map bytes_of_word
     (sha1_blocks (sha256_pad m) [1732584193, 4023233417, 2562383102, 271733878, 3285377520]))"

section \<open>HMAC and hexadecimal\<close>

definition hmac_key :: "bytes \<Rightarrow> bytes" where
  "hmac_key key = (let k = (if length key > 64 then sha256_Sum key else key) in k @ replicate (64 - length k) 0)"

definition hmac_Sum :: "bytes \<Rightarrow> bytes \<Rightarrow> bytes" where
  "hmac_Sum key m =
     (let k = hmac_key key in
      sha256_Sum (map (\<lambda>b. b XOR 92) k @ sha256_Sum (map (\<lambda>b. b XOR 54) k @ m)))"

definition hextable :: string where
  "hextable = ''0123456789abcdef''"

definition EncodeToString :: "bytes \<Rightarrow> string" where
  "EncodeToString src = concat (map (\<lambda>b. [hextable ! unat (drop_bit 4 b), hextable ! unat (b AND 15)]) src)"

definition entrySignature :: "bytes \<Rightarrow> bytes \<Rightarrow> string" where
  "entrySignature entry secret = (let sig = hmac_Sum secret entry in EncodeToString sig)"

section \<open>Facts\<close>

lemma sha256_rounds_length: "length s = 8 \<Longrightarrow> length (sha256_rounds ks ws s) = 8"
  by (induction ks ws s rule: sha256_rounds.induct) (simp_all add: Let_def)

lemma sha256_blocks_length: "length s = 8 \<Longrightarrow> length (sha256_blocks m s) = 8"
proof (induction m s rule: sha256_blocks.induct)
  case (1 m s)
  then show ?case by (subst sha256_blocks.simps) (simp add: sha256_block_def sha256_rounds_length)
qed

text \<open>Padding fills whole blocks.\<close>

lemma sha256_pad_length: "length (sha256_pad m) mod 64 = 0"
proof -
  define r where "r = length m mod 64"
  have "r < 64" by (simp add: r_def)
  have "(r + 9 + (119 - r) mod 64) mod 64 = 0"
  proof (cases "r \<le> 55")
    case True
    then have "(119 - r) mod 64 = 55 - r" by (simp add: mod_if)
    with True show ?thesis by simp
  next
    case False
    with \<open>r < 64\<close> show ?thesis by (simp add: mod_if)
  qed
  then have "(length m + 9 + (119 - r) mod 64) mod 64 = 0" unfolding r_def by (metis mod_add_left_eq)
  then show ?thesis by (simp add: sha256_pad_def r_def ac_simps)
qed

lemma sha256_Sum_length: "length (sha256_Sum m) = 32"
proof -
  have "length (concat (map bytes_of_word ws)) = 4 * length ws" for ws
    by (induction ws) (simp_all add: bytes_of_word_def)
  then show ?thesis by (simp add: sha256_Sum_def sha256_blocks_length sha256_init_def)
qed

lemma sha1_rounds_length: "length s = 5 \<Longrightarrow> length (sha1_rounds n t ws s) = 5"
  by (induction n t ws s rule: sha1_rounds.induct) (simp_all add: Let_def case_prod_beta)

lemma sha1_blocks_length: "length s = 5 \<Longrightarrow> length (sha1_blocks m s) = 5"
proof (induction m s rule: sha1_blocks.induct)
  case (1 m s)
  then show ?case by (subst sha1_blocks.simps) (simp add: sha1_block_def sha1_rounds_length)
qed

lemma sha1_Sum_length: "length (sha1_Sum m) = 20"
proof -
  have "length (concat (map bytes_of_word ws)) = 4 * length ws" for ws
    by (induction ws) (simp_all add: bytes_of_word_def)
  then show ?thesis by (simp add: sha1_Sum_def sha1_blocks_length)
qed

lemma hmac_Sum_length: "length (hmac_Sum key m) = 32"
  by (simp add: hmac_Sum_def Let_def sha256_Sum_length)

lemma EncodeToString_length: "length (EncodeToString b) = 2 * length b"
  by (induction b) (simp_all add: EncodeToString_def)

lemma hex_digit:
  "unat (drop_bit 4 b) < 16" "unat (b AND 15) < 16" for b :: byte
proof -
  have "b AND 15 = take_bit 4 b" using mask_eq_exp_minus_1 [of 4, where 'a = byte] by (simp add: take_bit_eq_mask)
  then show "unat (b AND 15) < 16" using take_bit_nat_less_exp [of 4 "unat b"] by (simp add: unsigned_take_bit_eq)
  show "unat (drop_bit 4 b) < 16"
    using unsigned_less [of b, where 'a = nat] by (simp add: drop_bit_eq_div unat_div)
qed

lemma hextable_inj: "i < 16 \<Longrightarrow> j < 16 \<Longrightarrow> hextable ! i = hextable ! j \<longleftrightarrow> i = j"
  by (rule nth_eq_iff_index_eq) (simp_all add: hextable_def)

lemma byte_halves: "drop_bit 4 a = drop_bit 4 b \<Longrightarrow> a AND 15 = b AND 15 \<Longrightarrow> a = (b :: byte)"
proof -
  have m: "x AND 15 = take_bit 4 x" for x :: byte using mask_eq_exp_minus_1 [of 4, where 'a = byte] by (simp add: take_bit_eq_mask)
  assume "drop_bit 4 a = drop_bit 4 b" "a AND 15 = b AND 15"
  then show "a = b" unfolding m by (metis bits_ident)
qed

text \<open>The hexadecimal form determines the bytes.\<close>

lemma EncodeToString_inj: "EncodeToString a = EncodeToString b \<longleftrightarrow> a = b"
proof (induction a arbitrary: b)
  case Nil
  then show ?case by (cases b) (simp_all add: EncodeToString_def)
next
  case (Cons x a)
  show ?case
  proof (cases b)
    case (Cons y b')
    have "hextable ! unat (drop_bit 4 x) = hextable ! unat (drop_bit 4 y) \<and> hextable ! unat (x AND 15) = hextable ! unat (y AND 15)
      \<longleftrightarrow> x = y"
      using byte_halves [of x y] by (auto simp: hextable_inj hex_digit simp flip: word_unat_eq_iff)
    then show ?thesis using Cons.IH [of b'] by (auto simp: Cons EncodeToString_def)
  qed (simp add: EncodeToString_def)
qed

lemma EncodeToString_digits: "set (EncodeToString b) \<subseteq> set hextable"
proof -
  have "hextable ! i \<in> set hextable" if "i < 16" for i using that by (intro nth_mem) (simp add: hextable_def)
  then show ?thesis by (auto simp: EncodeToString_def hex_digit)
qed

end
