(* ===== verification/UrlEscape.thy ===== *)
theory UrlEscape
  imports Digest
begin

text \<open>
  The keys of the page cache, \<open>urlEscape\<close> of \<open>src/galapagos_gin/cache/cache.go\<close>, with the standard
  library's \<open>url.QueryEscape\<close>. A Go string is a list of bytes, here of characters.
\<close>

definition upperhex :: string where
  "upperhex = ''0123456789ABCDEF''"

text \<open>\<open>url.shouldEscape\<close> for a query component: all but letters, digits and four marks.\<close>

definition should_escape :: "char \<Rightarrow> bool" where
  "should_escape c \<longleftrightarrow> (let n = of_char c :: nat in
     \<not> (65 \<le> n \<and> n \<le> 90 \<or> 97 \<le> n \<and> n \<le> 122 \<or> 48 \<le> n \<and> n \<le> 57 \<or> c \<in> set ''-_.~''))"

fun QueryEscape :: "string \<Rightarrow> string" where
  "QueryEscape [] = []"
| "QueryEscape (c # s) =
     (if should_escape c then
        (if c = CHR '' '' then CHR ''+'' # QueryEscape s
         else CHR ''%'' # upperhex ! (of_char c div 16) # upperhex ! (of_char c mod 16) # QueryEscape s)
      else c # QueryEscape s)"

definition PageCachePrefix :: string where
  "PageCachePrefix = ''gincontrib.page.cache''"

definition urlEscape :: "string \<Rightarrow> string \<Rightarrow> string" where
  "urlEscape prefix u =
     (let key = QueryEscape u;
          key' = (if length key > 200 then string_of_bytes (sha1_Sum (bytes_of_string u)) else key)
      in prefix @ '':'' @ key')"

section \<open>Escaping loses nothing\<close>

definition hex_value :: "char \<Rightarrow> nat" where
  "hex_value c = (let n = of_char c in if n < 58 then n - 48 else n - 55)"

fun QueryUnescape :: "string \<Rightarrow> string" where
  "QueryUnescape [] = []"
| "QueryUnescape (c # s) =
     (if c = CHR ''+'' then CHR '' '' # QueryUnescape s
      else if c = CHR ''%'' then
        (case s of a # b # t \<Rightarrow> char_of (16 * hex_value a + hex_value b) # QueryUnescape t | _ \<Rightarrow> [])
      else c # QueryUnescape s)"

lemma hex_value_upperhex: "i < 16 \<Longrightarrow> hex_value (upperhex ! i) = i"
proof -
  have "list_all (\<lambda>i. hex_value (upperhex ! i) = i) [0..<16]" by code_simp
  then show "i < 16 \<Longrightarrow> hex_value (upperhex ! i) = i" by (simp add: list_all_iff)
qed

lemma QueryUnescape_Escape: "QueryUnescape (QueryEscape s) = s"
proof (induction s)
  case (Cons c s)
  have "(of_char c :: nat) div 16 < 16" using nat_of_char_less_256 [of c] by (simp add: less_mult_imp_div_less del: nat_of_char_less_256)
  then have "char_of (16 * hex_value (upperhex ! (of_char c div 16)) + hex_value (upperhex ! (of_char c mod 16))) = c"
    by (simp add: hex_value_upperhex)
  moreover have "should_escape (CHR ''+'')" "should_escape (CHR ''%'')" by (simp_all add: should_escape_def)
  ultimately show ?case using Cons.IH by (auto split: if_splits)
qed simp

text \<open>
  The page keys: a request URI whose escaped form has at most 200 characters is kept in the key,
  so two such URIs share a key only if they are equal; a longer one is replaced by its SHA-1 digest,
  so no key is more than 201 characters longer than the prefix.
\<close>

theorem urlEscape_injective:
  "length (urlEscape p u) \<le> length p + 201
   \<and> (length (QueryEscape u) \<le> 200 \<and> length (QueryEscape v) \<le> 200 \<longrightarrow> (urlEscape p u = urlEscape p v \<longleftrightarrow> u = v))
   \<and> (length (QueryEscape u) > 200 \<longrightarrow> urlEscape p u = p @ '':'' @ string_of_bytes (sha1_Sum (bytes_of_string u)))"
proof -
  have inj: "QueryEscape u = QueryEscape v \<longleftrightarrow> u = v" using QueryUnescape_Escape by metis
  have "length (string_of_bytes (sha1_Sum (bytes_of_string u))) = 20" by (simp add: string_of_bytes_def sha1_Sum_length)
  then show ?thesis by (simp add: urlEscape_def Let_def inj)
qed

theorem urlEscape_injective_witness:
  "urlEscape PageCachePrefix ''/a?b=c d'' \<noteq> urlEscape PageCachePrefix ''/a?b=c+d''
   \<and> urlEscape PageCachePrefix ''/a?b=c d'' = ''gincontrib.page.cache:%2Fa%3Fb%3Dc+d''"
proof -
  have e: "QueryEscape ''/a?b=c d'' = ''%2Fa%3Fb%3Dc+d''" "QueryEscape ''/a?b=c+d'' = ''%2Fa%3Fb%3Dc%2Bd''" by code_simp+
  then show ?thesis
    using urlEscape_injective [of PageCachePrefix "''/a?b=c d''" "''/a?b=c+d''"]
    by (simp add: urlEscape_def PageCachePrefix_def)
qed

end
