(* ===== verification/GinCache.thy ===== *)
theory GinCache
  imports UrlEscape InMemoryStore
begin

text \<open>
  The page cache for gin, \<open>src/galapagos_gin/cache/cache.go\<close>: a response writer that stores what it
  writes, and the middleware that answers from the store.

  The writer under it is gin's (\<open>vendor/github.com/gin-gonic/gin/response_writer.go\<close>) on top of the
  server's. A header is a list of keys with their values in the order a \<open>range\<close> visits them. A handler
  is a function on the context. Opentracing is a parameter: what it extracts from a request's headers.

  The store gets the headers and the data as they are at the time of the write. A store that encodes
  its values does the same; the in-memory store keeps the map and the slice themselves, so for it the
  model is right as long as the handler changes neither after its last write, as in the theorems.
\<close>

section \<open>HTTP headers\<close>

text \<open>\<open>textproto.CanonicalMIMEHeaderKey\<close>: capitals at the start and after a hyphen, unless a byte is no token character.\<close>

definition upper :: "char \<Rightarrow> char" where
  "upper c = (let n = of_char c :: nat in if 97 \<le> n \<and> n \<le> 122 then char_of (n - 32) else c)"

definition lower :: "char \<Rightarrow> char" where
  "lower c = (let n = of_char c :: nat in if 65 \<le> n \<and> n \<le> 90 then char_of (n + 32) else c)"

definition token_char :: "char \<Rightarrow> bool" where
  "token_char c \<longleftrightarrow> (let n = of_char c :: nat in
     65 \<le> n \<and> n \<le> 90 \<or> 97 \<le> n \<and> n \<le> 122 \<or> 48 \<le> n \<and> n \<le> 57 \<or> n \<in> {33, 35, 36, 37, 38, 39, 42, 43, 45, 46, 94, 95, 96, 124, 126})"

fun capitalize :: "bool \<Rightarrow> string \<Rightarrow> string" where
  "capitalize up [] = []"
| "capitalize up (c # s) = (let c' = (if up then upper c else lower c) in c' # capitalize (c' = CHR ''-'') s)"

definition CanonicalHeaderKey :: "string \<Rightarrow> string" where
  "CanonicalHeaderKey s = (if list_all token_char s then capitalize True s else s)"

fun header_append :: "string \<Rightarrow> string \<Rightarrow> header \<Rightarrow> header" where
  "header_append k v [] = [(k, [v])]"
| "header_append k v ((k', vs) # h) = (if k' = k then (k', vs @ [v]) # h else (k', vs) # header_append k v h)"

definition header_Add :: "string \<Rightarrow> string \<Rightarrow> header \<Rightarrow> header" where
  "header_Add k v h = header_append (CanonicalHeaderKey k) v h"

definition header_Set :: "string \<Rightarrow> string \<Rightarrow> header \<Rightarrow> header" where
  "header_Set k v h = header_append (CanonicalHeaderKey k) v (alist_remove (CanonicalHeaderKey k) h)"

definition header_Get :: "string \<Rightarrow> header \<Rightarrow> string" where
  "header_Get k h = (case map_of h (CanonicalHeaderKey k) of Some (v # _) \<Rightarrow> v | _ \<Rightarrow> [])"

section \<open>Response writers\<close>

text \<open>
  The server's writer: the headers so far, what was sent (status and headers, once), the body, and
  whether the connection still takes data. Statuses 1xx, 204 and 304 allow no body.
\<close>

record httpWriter =
  h_header :: header
  h_sent :: "(int64 \<times> header) option"
  h_body :: bytes
  h_up :: bool

definition http_WriteHeader :: "int64 \<Rightarrow> httpWriter \<Rightarrow> httpWriter" where
  "http_WriteHeader code w = (case h_sent w of None \<Rightarrow> w\<lparr>h_sent := Some (code, h_header w)\<rparr> | Some _ \<Rightarrow> w)"

definition bodyAllowed :: "int64 \<Rightarrow> bool" where
  "bodyAllowed code \<longleftrightarrow> \<not> (100 \<le> sint code \<and> sint code \<le> 199 \<or> code = 204 \<or> code = 304)"

definition http_Write :: "bytes \<Rightarrow> httpWriter \<Rightarrow> (int \<times> error option) \<times> httpWriter" where
  "http_Write data w =
     (let w1 = http_WriteHeader 200 w in
      if \<not> h_up w1 then ((0, Some (ErrExt ''write: broken pipe'')), w1)
      else if \<not> bodyAllowed (fst (the (h_sent w1))) then
        ((0, Some (ErrExt ''http: request method or response status code does not allow body'')), w1)
      else ((int (length data), None), w1\<lparr>h_body := h_body w1 @ data\<rparr>))"

text \<open>gin's writer: \<open>size\<close> is -1 until the headers are written.\<close>

record responseWriter =
  rw_http :: httpWriter
  rw_size :: int
  rw_status :: int64

definition rw_WriteHeader :: "int64 \<Rightarrow> responseWriter \<Rightarrow> responseWriter" where
  "rw_WriteHeader code w = (if 0 <s code \<and> rw_status w \<noteq> code then w\<lparr>rw_status := code\<rparr> else w)"

definition rw_Written :: "responseWriter \<Rightarrow> bool" where
  "rw_Written w \<longleftrightarrow> rw_size w \<noteq> -1"

definition rw_WriteHeaderNow :: "responseWriter \<Rightarrow> responseWriter" where
  "rw_WriteHeaderNow w =
     (if \<not> rw_Written w then w\<lparr>rw_size := 0, rw_http := http_WriteHeader (rw_status w) (rw_http w)\<rparr> else w)"

definition rw_Write :: "bytes \<Rightarrow> responseWriter \<Rightarrow> (int \<times> error option) \<times> responseWriter" where
  "rw_Write data w =
     (let w1 = rw_WriteHeaderNow w in
      case http_Write data (rw_http w1) of
        ((n, err), h) \<Rightarrow> ((n, err), w1\<lparr>rw_http := h, rw_size := rw_size w1 + n\<rparr>))"

text \<open>\<open>cachedWriter\<close> embeds the writer it was made from, which may be another \<open>cachedWriter\<close>.\<close>

datatype 'w writer = GinWriter responseWriter
  | CachedWriter (cw_ResponseWriter: "'w writer") (cw_status: int64) (cw_written: bool) (cw_store: "'w CacheStore")
      (cw_expire: duration) (cw_key: string)

definition newCachedWriter :: "'w CacheStore \<Rightarrow> duration \<Rightarrow> 'w writer \<Rightarrow> string \<Rightarrow> 'w writer" where
  "newCachedWriter store expire writer key = CachedWriter writer 0 False store expire key"

primrec w_Header :: "'w writer \<Rightarrow> header" where
  "w_Header (GinWriter w) = h_header (rw_http w)"
| "w_Header (CachedWriter w st wr store ex key) = w_Header w"

text \<open>A change of the header map that \<open>Header()\<close> returns.\<close>

primrec w_header_update :: "(header \<Rightarrow> header) \<Rightarrow> 'w writer \<Rightarrow> 'w writer" where
  "w_header_update f (GinWriter w) = GinWriter (w\<lparr>rw_http := (rw_http w)\<lparr>h_header := f (h_header (rw_http w))\<rparr>\<rparr>)"
| "w_header_update f (CachedWriter w st wr store ex key) = CachedWriter (w_header_update f w) st wr store ex key"

primrec w_WriteHeader :: "int64 \<Rightarrow> 'w writer \<Rightarrow> 'w writer" where
  "w_WriteHeader code (GinWriter w) = GinWriter (rw_WriteHeader code w)"
| "w_WriteHeader code (CachedWriter w st wr store ex key) = CachedWriter (w_WriteHeader code w) code True store ex key"

primrec w_Status :: "'w writer \<Rightarrow> int64" where
  "w_Status (GinWriter w) = rw_status w"
| "w_Status (CachedWriter w st wr store ex key) = w_Status w"

primrec w_Written :: "'w writer \<Rightarrow> bool" where
  "w_Written (GinWriter w) = rw_Written w"
| "w_Written (CachedWriter w st wr store ex key) = w_Written w"

text \<open>\<open>Write\<close> passes the data on and then stores it as the whole response; a store error is dropped.\<close>

primrec w_Write :: "Time \<Rightarrow> bytes \<Rightarrow> 'w writer \<Rightarrow> 'w \<Rightarrow> (int \<times> error option) outcome \<times> 'w writer \<times> 'w" where
  "w_Write now data (GinWriter w) s = (case rw_Write data w of (r, w') \<Rightarrow> (Ret r, GinWriter w', s))"
| "w_Write now data (CachedWriter w st wr store ex key) s =
     (case w_Write now data w s of
        (Ret (ret, None), w', s1) \<Rightarrow>
          (let val = VResponse st (w_Header w') data; w'' = CachedWriter w' st wr store ex key in
           case m_Set store now key val ex s1 of
             (Panic p, s2) \<Rightarrow> (Panic p, w'', s2)
           | (Ret storeErr, s2) \<Rightarrow> (Ret (ret, None), w'', s2))
      | (Ret (ret, Some err), w', s1) \<Rightarrow> (Ret (ret, Some err), CachedWriter w' st wr store ex key, s1)
      | (Panic p, w', s1) \<Rightarrow> (Panic p, CachedWriter w' st wr store ex key, s1))"

text \<open>\<open>WriteString\<close> returns a store error.\<close>

primrec w_WriteString :: "Time \<Rightarrow> string \<Rightarrow> 'w writer \<Rightarrow> 'w \<Rightarrow> (int \<times> error option) outcome \<times> 'w writer \<times> 'w" where
  "w_WriteString now data (GinWriter w) s = (case rw_Write (bytes_of_string data) w of (r, w') \<Rightarrow> (Ret r, GinWriter w', s))"
| "w_WriteString now data (CachedWriter w st wr store ex key) s =
     (case w_WriteString now data w s of
        (Ret (ret, None), w', s1) \<Rightarrow>
          (let val = VResponse st (w_Header w') (bytes_of_string data); w'' = CachedWriter w' st wr store ex key in
           case m_Set store now key val ex s1 of
             (Panic p, s2) \<Rightarrow> (Panic p, w'', s2)
           | (Ret (Some err), s2) \<Rightarrow> (Ret (0, Some err), w'', s2)
           | (Ret None, s2) \<Rightarrow> (Ret (ret, None), w'', s2))
      | (Ret (ret, Some err), w', s1) \<Rightarrow> (Ret (ret, Some err), CachedWriter w' st wr store ex key, s1)
      | (Panic p, w', s1) \<Rightarrow> (Panic p, CachedWriter w' st wr store ex key, s1))"

section \<open>Tracing\<close>

text \<open>A span: its operation, its tags and its parent, if it has one.\<close>

record span =
  sp_operation :: string
  sp_tags :: "(string \<times> string) list"
  sp_parent :: "string option"

text \<open>Span contexts are identified by a name; \<open>g\<close> is the number of goroutines.\<close>

definition startSpanWithParent :: "nat \<Rightarrow> string option \<Rightarrow> string \<Rightarrow> string \<Rightarrow> string \<Rightarrow> span" where
  "startSpanWithParent g parent operationName method path =
     \<lparr>sp_operation = operationName,
      sp_tags = [(''span.kind'', ''server''), (''http.method'', method), (''http.url'', path), (''current-goroutines'', show_nat g)],
      sp_parent = parent\<rparr>"

definition startSpanWithHeader ::
  "(header \<Rightarrow> string option) \<Rightarrow> nat \<Rightarrow> header option \<Rightarrow> string \<Rightarrow> string \<Rightarrow> string \<Rightarrow> span" where
  "startSpanWithHeader extractor g header operationName method path =
     (let wireContext = (case header of Some h \<Rightarrow> extractor h | None \<Rightarrow> None)
      in startSpanWithParent g wireContext operationName method path)"

section \<open>The middleware\<close>

datatype ginval = KSpan span string | KStore | KOther

text \<open>\<open>KSpan span name\<close> is a span with the name of its context.\<close>

record 'w ginContext =
  c_Writer :: "'w writer"
  c_Keys :: "string \<rightharpoonup> ginval"
  c_Method :: string
  c_Path :: string
  c_RequestURI :: string
  c_ReqHeader :: header
  c_state :: 'w
  c_log :: "string list"

type_synonym 'w handler = "'w ginContext \<Rightarrow> unit outcome \<times> 'w ginContext"

definition log_line :: "string \<Rightarrow> 'w ginContext \<Rightarrow> 'w ginContext" where
  "log_line t c = c\<lparr>c_log := c_log c @ [t]\<rparr>"

text \<open>The values of the headers of a stored response are added one by one.\<close>

definition add_headers :: "header \<Rightarrow> header \<Rightarrow> header" where
  "add_headers cached h = fold (\<lambda>(k, vals) h. fold (header_Add k) vals h) cached h"

definition replay :: "Time \<Rightarrow> int64 \<Rightarrow> header \<Rightarrow> bytes \<Rightarrow> 'w ginContext \<Rightarrow> unit outcome \<times> 'w ginContext" where
  "replay now st h data c =
     (let w1 = w_WriteHeader st (c_Writer c); w2 = w_header_update (add_headers h) w1 in
      case w_Write now data w2 (c_state c) of
        (Ret (n, None), w3, s) \<Rightarrow> (Ret (), c\<lparr>c_Writer := w3, c_state := s\<rparr>)
      | (Ret (n, Some err), w3, s) \<Rightarrow> (Ret (), log_line (Error err) (c\<lparr>c_Writer := w3, c_state := s\<rparr>))
      | (Panic p, w3, s) \<Rightarrow> (Panic p, c\<lparr>c_Writer := w3, c_state := s\<rparr>))"

text \<open>What \<open>store.Get\<close> wrote into the variable \<open>cache\<close>.\<close>

fun response_of :: "godata option \<Rightarrow> int64 \<times> header \<times> bytes" where
  "response_of (Some (VResponse st h data)) = (st, h, data)"
| "response_of _ = (0, [], [])"

text \<open>
  A handler of a chain tells whether it called \<open>Next\<close>: gin's loop goes on with the following handlers
  unless they have run already.
\<close>

fun run_chain :: "('w handler \<Rightarrow> 'w ginContext \<Rightarrow> bool \<times> unit outcome \<times> 'w ginContext) list \<Rightarrow> 'w handler" where
  "run_chain [] c = (Ret (), c)"
| "run_chain (m # ms) c =
     (case m (run_chain ms) c of
        (called, Panic p, c') \<Rightarrow> (Panic p, c')
      | (called, Ret _, c') \<Rightarrow> if called then (Ret (), c') else run_chain ms c')"

definition CACHE_MIDDLEWARE_KEY :: string where
  "CACHE_MIDDLEWARE_KEY = ''gincontrib.cache''"

definition Cache_middleware :: "'w handler \<Rightarrow> 'w ginContext \<Rightarrow> bool \<times> unit outcome \<times> 'w ginContext" where
  "Cache_middleware Next c = (True, Next (c\<lparr>c_Keys := (c_Keys c)(CACHE_MIDDLEWARE_KEY \<mapsto> KStore)\<rparr>))"

definition SiteCache :: "Time \<Rightarrow> 'w CacheStore \<Rightarrow> duration \<Rightarrow> 'w handler \<Rightarrow> 'w ginContext \<Rightarrow> bool \<times> unit outcome \<times> 'w ginContext" where
  "SiteCache now store expire Next c =
     (let key = urlEscape PageCachePrefix (c_RequestURI c) in
      case m_Get store now key (TPtr TResponse) (c_state c) of
        (Panic p, s) \<Rightarrow> (False, Panic p, c\<lparr>c_state := s\<rparr>)
      | (Ret (Some err, _), s) \<Rightarrow> (True, Next (c\<lparr>c_state := s\<rparr>))
      | (Ret (None, out), s) \<Rightarrow>
          (case response_of out of (st, h, data) \<Rightarrow> (False, replay now st h data (c\<lparr>c_state := s\<rparr>))))"

definition start_span :: "(header \<Rightarrow> string option) \<Rightarrow> nat \<Rightarrow> string \<Rightarrow> 'w ginContext \<Rightarrow> unit outcome \<times> 'w ginContext" where
  "start_span extractor g name c =
     (let put = (\<lambda>span. (Ret (), c\<lparr>c_Keys := (c_Keys c)(''tracing-context'' \<mapsto> KSpan span name)\<rparr>)) in
      case c_Keys c ''tracing-context'' of
        Some (KSpan _ parent) \<Rightarrow> put (startSpanWithParent g (Some parent) ''api-request-cache-page'' (c_Method c) (c_Path c))
      | Some _ \<Rightarrow> (Panic ''interface conversion'', c)
      | None \<Rightarrow> put (startSpanWithHeader extractor g (Some (c_ReqHeader c)) ''api-request-cache-page'' (c_Method c) (c_Path c)))"

text \<open>
  \<open>CachePage\<close>: \<open>now\<close> is the clock of the store's lookup; the handler has its own. The deferred
  \<open>span.Finish\<close> has no effect on what is modelled. \<open>name\<close> names the new span's context.
\<close>

definition CachePage ::
  "(header \<Rightarrow> string option) \<Rightarrow> nat \<Rightarrow> string \<Rightarrow> Time \<Rightarrow> 'w CacheStore \<Rightarrow> duration \<Rightarrow> 'w handler \<Rightarrow> 'w handler" where
  "CachePage extractor g name now store expire handle c =
     (case start_span extractor g name c of
        (Panic p, c1) \<Rightarrow> (Panic p, c1)
      | (Ret _, c1) \<Rightarrow>
          (let key = urlEscape PageCachePrefix (c_RequestURI c1) in
           case m_Get store now key (TPtr TResponse) (c_state c1) of
             (Panic p, s) \<Rightarrow> (Panic p, c1\<lparr>c_state := s\<rparr>)
           | (Ret (Some err, _), s) \<Rightarrow>
               (let c2 = log_line (Error err) (c1\<lparr>c_state := s\<rparr>)
                in handle (c2\<lparr>c_Writer := newCachedWriter store expire (c_Writer c2) key\<rparr>))
           | (Ret (None, out), s) \<Rightarrow>
               (case response_of out of
                  (st, h, data) \<Rightarrow>
                    if length (header_Get ''x-okay-to-cache'' h) = 0 then
                      let c2 = log_line ''not okay to cache'' (c1\<lparr>c_state := s\<rparr>)
                      in handle (c2\<lparr>c_Writer := newCachedWriter store expire (c_Writer c2) key\<rparr>)
                    else replay now st h data (c1\<lparr>c_state := s\<rparr>))))"

text \<open>\<open>CachePageAtomic\<close>: \<open>None\<close> is waiting for the mutex, which is free again afterwards, panic or not.\<close>

definition CachePageAtomic ::
  "(header \<Rightarrow> string option) \<Rightarrow> nat \<Rightarrow> string \<Rightarrow> Time \<Rightarrow> 'w CacheStore \<Rightarrow> duration \<Rightarrow> 'w handler \<Rightarrow>
   bool \<Rightarrow> 'w ginContext \<Rightarrow> (bool \<times> unit outcome \<times> 'w ginContext) option" where
  "CachePageAtomic extractor g name now store expire handle locked c =
     (if locked then None else Some (False, CachePage extractor g name now store expire handle c))"

end
