(* ===== verification/GinRender.thy ===== *)
theory GinRender
  imports GinCache
begin

text \<open>
  The part of gin that renders text: \<open>Context.Status\<close>, \<open>Context.Render\<close> and \<open>Context.String\<close> of
  \<open>vendor/github.com/gin-gonic/gin/context.go\<close>, with \<open>render.String\<close> of \<open>render/text.go\<close> and \<open>writeContentType\<close> of
  \<open>render/render.go\<close>.

  A context owns the writer it starts with, \<open>writermem\<close>; \<open>c.Writer\<close> is that writer or one that was wrapped around it.
  So \<open>writermem\<close> is the innermost writer of \<open>c.Writer\<close>. The values of \<open>String\<close> are given as \<open>Sprintf\<close> prints them.
\<close>

section \<open>The writer of the context\<close>

primrec writermem_update :: "(responseWriter \<Rightarrow> responseWriter) \<Rightarrow> 'w writer \<Rightarrow> 'w writer" where
  "writermem_update f (GinWriter w) = GinWriter (f w)"
| "writermem_update f (CachedWriter w st wr store ex key) = CachedWriter (writermem_update f w) st wr store ex key"

text \<open>\<open>Status\<close> goes past \<open>c.Writer\<close> to the context's own writer.\<close>

definition ctx_Status :: "int64 \<Rightarrow> 'w ginContext \<Rightarrow> 'w ginContext" where
  "ctx_Status code c = c\<lparr>c_Writer := writermem_update (rw_WriteHeader code) (c_Writer c)\<rparr>"

definition bodyAllowedForStatus :: "int64 \<Rightarrow> bool" where
  "bodyAllowedForStatus status =
     (if 100 \<le> sint status \<and> sint status \<le> 199 then False else if status = 204 then False else if status = 304 then False else True)"

section \<open>Renderers\<close>

text \<open>The interface \<open>render.Render\<close>.\<close>

record 'w Render =
  rn_Render :: "'w writer \<Rightarrow> 'w \<Rightarrow> error option outcome \<times> 'w writer \<times> 'w"
  rn_WriteContentType :: "'w writer \<Rightarrow> 'w writer"

text \<open>The assignment \<open>header[k] = value\<close>.\<close>

fun header_put :: "string \<Rightarrow> string list \<Rightarrow> header \<Rightarrow> header" where
  "header_put k value [] = [(k, value)]"
| "header_put k value ((k', vs) # h) = (if k' = k then (k, value) # h else (k', vs) # header_put k value h)"

definition writeContentType :: "string list \<Rightarrow> 'w writer \<Rightarrow> 'w writer" where
  "writeContentType value w =
     (case map_of (w_Header w) ''Content-Type'' of
        Some (_ # _) \<Rightarrow> w
      | _ \<Rightarrow> w_header_update (header_put ''Content-Type'' value) w)"

definition plainContentType :: "string list" where
  "plainContentType = [''text/plain; charset=utf-8'']"

definition render_WriteString ::
  "Time \<Rightarrow> string \<Rightarrow> string list \<Rightarrow> 'w writer \<Rightarrow> 'w \<Rightarrow> error option outcome \<times> 'w writer \<times> 'w" where
  "render_WriteString now format data w s =
     (let w1 = writeContentType plainContentType w in
      case (if length data > 0 then w_Write now (bytes_of_string (Sprintf format data)) w1 s else w_WriteString now format w1 s) of
        (Panic p, w2, s2) \<Rightarrow> (Panic p, w2, s2)
      | (Ret (_, err), w2, s2) \<Rightarrow> (Ret err, w2, s2))"

definition render_String :: "Time \<Rightarrow> string \<Rightarrow> string list \<Rightarrow> 'w Render" where
  "render_String now format data =
     \<lparr>rn_Render = render_WriteString now format data, rn_WriteContentType = writeContentType plainContentType\<rparr>"

section \<open>Rendering\<close>

definition ctx_Render :: "int64 \<Rightarrow> 'w Render \<Rightarrow> 'w handler" where
  "ctx_Render code r c =
     (let c1 = ctx_Status code c in
      if \<not> bodyAllowedForStatus code then
        (Ret (), c1\<lparr>c_Writer := writermem_update rw_WriteHeaderNow (rn_WriteContentType r (c_Writer c1))\<rparr>)
      else
        (case rn_Render r (c_Writer c1) (c_state c1) of
           (Panic p, w, s) \<Rightarrow> (Panic p, c1\<lparr>c_Writer := w, c_state := s\<rparr>)
         | (Ret (Some err), w, s) \<Rightarrow> (Panic (Error err), c1\<lparr>c_Writer := w, c_state := s\<rparr>)
         | (Ret None, w, s) \<Rightarrow> (Ret (), c1\<lparr>c_Writer := w, c_state := s\<rparr>)))"

definition ctx_String :: "Time \<Rightarrow> int64 \<Rightarrow> string \<Rightarrow> string list \<Rightarrow> 'w handler" where
  "ctx_String now code format values = ctx_Render code (render_String now format values)"

end
