(* ===== verification/PageContract.thy ===== *)
theory PageContract
  imports ObjectStore GinRender
begin

text \<open>
  What the gin page cache needs of a store, as the locale \<open>response_store\<close> (an \<open>object_store\<close> for responses), and what it then does: a handler is a list
  of actions on the response, or renders a text; what is stored and what a later request gets back is
  shown for every such handler.
\<close>

section \<open>Header facts\<close>

lemma of_upper: "of_char (upper c) = (let n = of_char c :: nat in if 97 \<le> n \<and> n \<le> 122 then n - 32 else n)"
  and of_lower: "of_char (lower c) = (let n = of_char c :: nat in if 65 \<le> n \<and> n \<le> 90 then n + 32 else n)"
  by (auto simp: upper_def lower_def Let_def)

lemma upper_lower_idem: "upper (upper c) = upper c" "lower (lower c) = lower c"
proof -
  have "\<not> (97 \<le> (of_char (upper c) :: nat) \<and> (of_char (upper c) :: nat) \<le> 122)"
    "\<not> (65 \<le> (of_char (lower c) :: nat) \<and> (of_char (lower c) :: nat) \<le> 90)"
    by (auto simp: of_upper of_lower Let_def)
  then show "upper (upper c) = upper c" "lower (lower c) = lower c"
    by (simp_all only: upper_def [of "upper c"] lower_def [of "lower c"] Let_def if_False)
qed

lemma token_upper_lower: "token_char (upper c) = token_char c" "token_char (lower c) = token_char c"
proof -
  have letter: "65 \<le> (of_char x :: nat) \<and> (of_char x :: nat) \<le> 90 \<or> 97 \<le> (of_char x :: nat) \<and> (of_char x :: nat) \<le> 122 \<Longrightarrow> token_char x" for x
    unfolding token_char_def Let_def by blast
  show "token_char (upper c) = token_char c"
  proof (cases "97 \<le> (of_char c :: nat) \<and> (of_char c :: nat) \<le> 122")
    case True
    then have "65 \<le> (of_char (upper c) :: nat) \<and> (of_char (upper c) :: nat) \<le> 90" by (simp add: of_upper) linarith
    with True show ?thesis using letter by blast
  qed (auto simp: upper_def Let_def)
  show "token_char (lower c) = token_char c"
  proof (cases "65 \<le> (of_char c :: nat) \<and> (of_char c :: nat) \<le> 90")
    case True
    then have "97 \<le> (of_char (lower c) :: nat) \<and> (of_char (lower c) :: nat) \<le> 122" by (simp add: of_lower)
    with True show ?thesis using letter by blast
  qed (auto simp: lower_def Let_def)
qed

lemma capitalize_idem: "capitalize up (capitalize up s) = capitalize up s"
  by (induction s arbitrary: up) (auto simp: Let_def upper_lower_idem)

lemma capitalize_token: "list_all token_char (capitalize up s) = list_all token_char s"
  by (induction s arbitrary: up) (auto simp: Let_def token_upper_lower)

lemma Canonical_idem [simp]: "CanonicalHeaderKey (CanonicalHeaderKey k) = CanonicalHeaderKey k"
  by (simp add: CanonicalHeaderKey_def capitalize_idem capitalize_token)

text \<open>Headers made with \<open>Set\<close> and \<open>Add\<close>: every key once, in canonical form, with a value.\<close>

definition header_wf :: "header \<Rightarrow> bool" where
  "header_wf h \<longleftrightarrow> distinct (map fst h) \<and> (\<forall>(k, vs) \<in> set h. CanonicalHeaderKey k = k \<and> vs \<noteq> [])"

lemma header_append_keys:
  "map fst (header_append k v h) = (if k \<in> fst ` set h then map fst h else map fst h @ [k])"
  by (induction h) (auto simp: image_iff, force)

lemma header_append_cases: "(j, us) \<in> set (header_append k v h) \<Longrightarrow> (j, us) \<in> set h \<or> j = k \<and> us \<noteq> []"
  by (induction h) (auto split: if_splits)

lemma header_append_wf: "header_wf h \<Longrightarrow> header_wf (header_append (CanonicalHeaderKey k) v h)"
  by (auto simp: header_wf_def header_append_keys image_iff dest!: header_append_cases)

lemma header_Add_wf: "header_wf h \<Longrightarrow> header_wf (header_Add k v h)"
  by (simp add: header_Add_def header_append_wf)

lemma header_Set_wf: "header_wf h \<Longrightarrow> header_wf (header_Set k v h)"
  unfolding header_Set_def by (rule header_append_wf) (auto simp: header_wf_def set_alist_remove)

lemma header_append_new: "k \<notin> fst ` set h \<Longrightarrow> header_append k v h = h @ [(k, [v])]"
  by (induction h) auto

lemma header_append_last: "k \<notin> fst ` set h \<Longrightarrow> header_append k v (h @ [(k, vs)]) = h @ [(k, vs @ [v])]"
  by (induction h) auto

lemma add_values:
  assumes "k \<notin> fst ` set h" "CanonicalHeaderKey k = k"
  shows "fold (header_Add k) vs (h @ [(k, us)]) = h @ [(k, us @ vs)]"
  using assms by (induction vs arbitrary: us) (simp_all add: header_Add_def header_append_last)

lemma add_new_values:
  assumes "k \<notin> fst ` set h" "CanonicalHeaderKey k = k" "vs \<noteq> []"
  shows "fold (header_Add k) vs h = h @ [(k, vs)]"
  using assms add_values [OF assms(1,2), of _ "[hd vs]"] by (cases vs) (simp_all add: header_Add_def header_append_new)

lemma add_headers_append:
  "header_wf g \<Longrightarrow> fst ` set g \<inter> fst ` set h = {} \<Longrightarrow> add_headers g h = h @ g"
proof (induction g arbitrary: h)
  case (Cons p g)
  obtain k vs where p: "p = (k, vs)" by fastforce
  have "fold (header_Add k) vs h = h @ [(k, vs)]"
    using Cons.prems by (intro add_new_values) (auto simp: header_wf_def p)
  moreover have "add_headers g (h @ [(k, vs)]) = (h @ [(k, vs)]) @ g"
    using Cons.prems by (intro Cons.IH) (auto simp: header_wf_def p)
  ultimately show ?case by (simp add: p add_headers_def)
qed (simp add: add_headers_def)

section \<open>Handlers as sequences of writer calls\<close>

datatype action = SetHeader string string | AddHeader string string | DoWriteHeader int64 | DoWrite bytes

fun run_actions :: "Time \<Rightarrow> action list \<Rightarrow> 'w handler" where
  "run_actions now [] c = (Ret (), c)"
| "run_actions now (SetHeader k v # as) c = run_actions now as (c\<lparr>c_Writer := w_header_update (header_Set k v) (c_Writer c)\<rparr>)"
| "run_actions now (AddHeader k v # as) c = run_actions now as (c\<lparr>c_Writer := w_header_update (header_Add k v) (c_Writer c)\<rparr>)"
| "run_actions now (DoWriteHeader code # as) c = run_actions now as (c\<lparr>c_Writer := w_WriteHeader code (c_Writer c)\<rparr>)"
| "run_actions now (DoWrite data # as) c =
     (case w_Write now data (c_Writer c) (c_state c) of
        (Panic p, w, s) \<Rightarrow> (Panic p, c\<lparr>c_Writer := w, c_state := s\<rparr>)
      | (Ret _, w, s) \<Rightarrow> run_actions now as (c\<lparr>c_Writer := w, c_state := s\<rparr>))"

text \<open>What the calls before the first write leave: the headers, and the last status (0 if none was given).\<close>

fun act_header :: "action \<Rightarrow> header \<Rightarrow> header" where
  "act_header (SetHeader k v) h = header_Set k v h"
| "act_header (AddHeader k v) h = header_Add k v h"
| "act_header _ h = h"

fun act_status :: "action \<Rightarrow> int64 \<Rightarrow> int64" where
  "act_status (DoWriteHeader code) st = code"
| "act_status _ st = st"

fun preparing :: "action \<Rightarrow> bool" where
  "preparing (DoWrite data) = False"
| "preparing (DoWriteHeader code) = (0 <s code)"
| "preparing _ = True"

definition sent_status :: "int64 \<Rightarrow> int64" where
  "sent_status st = (if 0 <s st then st else 200)"

text \<open>A writer that has sent nothing, or the given status and headers and the given body.\<close>

definition ready :: "int64 \<Rightarrow> header \<Rightarrow> bytes \<Rightarrow> responseWriter \<Rightarrow> bool" where
  "ready code h b w \<longleftrightarrow> h_up (rw_http w) \<and> bodyAllowed code \<and> rw_status w = code \<and> h_header (rw_http w) = h \<and> h_body (rw_http w) = b
     \<and> (rw_size w = -1 \<and> h_sent (rw_http w) = None \<or> 0 \<le> rw_size w \<and> h_sent (rw_http w) = Some (code, h))"

lemma ready_Write:
  assumes "ready code h b w"
  shows "\<exists>w'. rw_Write data w = ((int (length data), None), w') \<and> ready code h (b @ data) w' \<and> h_sent (rw_http w') = Some (code, h)"
  using assms by (auto simp: ready_def rw_Write_def rw_WriteHeaderNow_def rw_Written_def http_Write_def http_WriteHeader_def Let_def)

definition fresh_writer :: responseWriter where
  "fresh_writer = \<lparr>rw_http = \<lparr>h_header = [], h_sent = None, h_body = [], h_up = True\<rparr>, rw_size = -1, rw_status = 200\<rparr>"

lemma update_order:
  "r\<lparr>c_state := s, c_Writer := w\<rparr> = r\<lparr>c_Writer := w, c_state := s\<rparr>"
  "v\<lparr>rw_status := x, rw_http := y\<rparr> = v\<lparr>rw_http := y, rw_status := x\<rparr>"
  by simp_all

text \<open>The calls before the first write only change the headers and the status.\<close>

lemma run_preparing:
  assumes "\<forall>a \<in> set pre. preparing a" "st = 0 \<or> 0 <s st"
  shows "\<exists>wr'. run_actions now (pre @ as) (c\<lparr>c_Writer := CachedWriter (GinWriter (w\<lparr>rw_http := (rw_http w)\<lparr>h_header := h\<rparr>, rw_status := sent_status st\<rparr>)) st wr store ex key\<rparr>)
    = run_actions now as (c\<lparr>c_Writer := CachedWriter (GinWriter (w\<lparr>rw_http := (rw_http w)\<lparr>h_header := fold act_header pre h\<rparr>, rw_status := sent_status (fold act_status pre st)\<rparr>))
         (fold act_status pre st) wr' store ex key\<rparr>)"
  using assms
proof (induction pre arbitrary: h st wr)
  case (Cons a pre)
  show ?case
  proof (cases a)
    case (DoWriteHeader code)
    then have "0 <s code" using Cons.prems(1) by simp
    then have "rw_WriteHeader code (w\<lparr>rw_http := (rw_http w)\<lparr>h_header := h\<rparr>, rw_status := sent_status st\<rparr>)
        = w\<lparr>rw_http := (rw_http w)\<lparr>h_header := h\<rparr>, rw_status := sent_status code\<rparr>"
      by (simp add: rw_WriteHeader_def sent_status_def)
    then show ?thesis using Cons.IH [of code h True] Cons.prems(1) \<open>0 <s code\<close> by (simp add: DoWriteHeader)
  next
    case (SetHeader k v)
    then show ?thesis using Cons.IH [of st "header_Set k v h" wr] Cons.prems by (simp add: update_order)
  next
    case (AddHeader k v)
    then show ?thesis using Cons.IH [of st "header_Add k v h" wr] Cons.prems by (simp add: update_order)
  next
    case (DoWrite data)
    then show ?thesis using Cons.prems(1) by simp
  qed
qed auto

lemma act_header_wf: "header_wf h \<Longrightarrow> header_wf (fold act_header as h)"
proof (induction as arbitrary: h)
  case (Cons a as)
  have "header_wf (act_header a h)" using Cons.prems by (cases a) (simp_all add: header_Set_wf header_Add_wf)
  then show ?case using Cons.IH by simp
qed simp



text \<open>A request as the server hands it over: nothing written, no tracing.\<close>

definition new_request :: "string \<Rightarrow> 'w \<Rightarrow> 'w ginContext" where
  "new_request uri s = \<lparr>c_Writer = GinWriter fresh_writer, c_Keys = Map.empty, c_Method = ''GET'', c_Path = uri,
     c_RequestURI = uri, c_ReqHeader = [], c_state = s, c_log = []\<rparr>"

fun base_writer :: "'w writer \<Rightarrow> responseWriter" where
  "base_writer (GinWriter w) = w"
| "base_writer (CachedWriter w st wr store ex key) = base_writer w"

text \<open>The response the client sees.\<close>

definition response :: "'w ginContext \<Rightarrow> (int64 \<times> header) option \<times> bytes" where
  "response c = (let w = rw_http (base_writer (c_Writer c)) in (h_sent w, h_body w))"

abbreviation page_key :: "string \<Rightarrow> string" where
  "page_key uri \<equiv> urlEscape PageCachePrefix uri"

lemma new_request_simps [simp]: "c_Writer (new_request uri s) = GinWriter fresh_writer" "c_RequestURI (new_request uri s) = uri"
  "c_state (new_request uri s) = s"
  by (simp_all add: new_request_def)

lemma start_span_new: "\<exists>k. start_span extractor g name (new_request uri s) = (Ret (), (new_request uri s)\<lparr>c_Keys := k\<rparr>)"
  by (auto simp: start_span_def new_request_def Let_def)

lemma replay_fresh:
  assumes "c_Writer c = GinWriter fresh_writer" "header_wf h" "bodyAllowed (sent_status st)"
  shows "\<exists>c'. replay now st h d c = (Ret (), c') \<and> response c' = (Some (sent_status st, h), d) \<and> c_state c' = c_state c"
proof -
  let ?w = "fresh_writer\<lparr>rw_http := (rw_http fresh_writer)\<lparr>h_header := h\<rparr>, rw_status := sent_status st\<rparr>"
  have w: "w_header_update (add_headers h) (w_WriteHeader st (GinWriter fresh_writer)) = GinWriter ?w"
    using add_headers_append [OF assms(2), of "[]"]
    by (auto simp: rw_WriteHeader_def sent_status_def fresh_writer_def)
  have "ready (sent_status st) h [] ?w" using assms(3) by (simp add: ready_def fresh_writer_def)
  from ready_Write [OF this, of d] obtain w' where
    w': "rw_Write d ?w = ((int (length d), None), w')" "ready (sent_status st) h d w'" "h_sent (rw_http w') = Some (sent_status st, h)"
    by auto
  from w'(2) have "h_body (rw_http w') = d" by (simp add: ready_def)
  moreover have "replay now st h d c = (Ret (), c\<lparr>c_Writer := GinWriter w', c_state := c_state c\<rparr>)"
    unfolding replay_def assms(1) Let_def w by (simp add: w'(1))
  ultimately show ?thesis using w'(3) by (simp add: response_def)
qed

section \<open>Requests one after another\<close>

text \<open>
  Requests for one page behind \<open>CachePageAtomic\<close>, in the order in which they get the mutex, each with its clock and the handler that
  would make the page: what each client gets, whether the mutex is held, and the state. \<open>None\<close> is a request that waits
  for ever.
\<close>

fun atomic_requests ::
  "(header \<Rightarrow> string option) \<Rightarrow> 'w CacheStore \<Rightarrow> duration \<Rightarrow> string \<Rightarrow> (nat \<times> string \<times> Time \<times> 'w handler) list \<Rightarrow> bool \<Rightarrow> 'w \<Rightarrow>
   ((unit outcome \<times> (int64 \<times> header) option \<times> bytes) list \<times> bool \<times> 'w) option" where
  "atomic_requests extractor st expire uri [] locked s = Some ([], locked, s)"
| "atomic_requests extractor st expire uri ((g, name, now, handle) # rs) locked s =
     (case CachePageAtomic extractor g name now st expire handle locked (new_request uri s) of
        None \<Rightarrow> None
      | Some (locked', r, c) \<Rightarrow>
          (case atomic_requests extractor st expire uri rs locked' (c_state c) of
             None \<Rightarrow> None
           | Some (xs, l, s') \<Rightarrow> Some ((r, response c) # xs, l, s')))"

section \<open>What the page cache asks of a store\<close>

locale response_store = object_store TResponse st inv entry live carries stored accepts
  for st :: "'w CacheStore" and inv :: "'w \<Rightarrow> bool" and entry :: "'w \<Rightarrow> string \<Rightarrow> 'e option" and live :: "Time \<Rightarrow> 'e \<Rightarrow> bool"
    and carries :: "'e \<Rightarrow> godata \<Rightarrow> bool" and stored :: "'w \<Rightarrow> Time \<Rightarrow> godata \<Rightarrow> duration \<Rightarrow> 'e" and accepts :: "godata \<Rightarrow> duration \<Rightarrow> bool"
begin

lemmas set_response = set_object [where v = "VResponse code h d" for code h d, simplified]
lemmas get_response = get_object [where v = "VResponse code h d" for code h d, simplified]

text \<open>Each write goes out and replaces what is stored under the key.\<close>

lemma run_writes:
  assumes "ready code h b w" "inv (c_state c)" "ds \<noteq> []" "\<forall>d \<in> set ds. accepts (VResponse status h d) ex"
  shows "\<exists>w' s'. run_actions now (map DoWrite ds) (c\<lparr>c_Writer := CachedWriter (GinWriter w) status wr st ex key\<rparr>)
      = (Ret (), c\<lparr>c_Writer := CachedWriter (GinWriter w') status wr st ex key, c_state := s'\<rparr>)
    \<and> ready code h (b @ concat ds) w' \<and> h_sent (rw_http w') = Some (code, h) \<and> inv s'
    \<and> entry s' key = Some (stored (c_state c) now (VResponse status h (last ds)) ex)"
  using assms
proof (induction ds arbitrary: w b c)
  case (Cons d ds)
  obtain w1 where w1: "rw_Write d w = ((int (length d), None), w1)" "ready code h (b @ d) w1" "h_sent (rw_http w1) = Some (code, h)"
    using ready_Write [OF Cons.prems(1)] by blast
  obtain s1 where s1: "m_Set st now key (VResponse status h d) ex (c_state c) = (Ret None, s1)" "inv s1"
    "entry s1 key = Some (stored (c_state c) now (VResponse status h d) ex)" "stored s1 = stored (c_state c)"
    using set_response [OF Cons.prems(2), of status h d ex now key] Cons.prems(4) by auto
  have hdr: "h_header (rw_http w1) = h" using w1(2) by (simp add: ready_def)
  let ?c = "c\<lparr>c_state := s1\<rparr>"
  have step: "run_actions now (map DoWrite (d # ds)) (c\<lparr>c_Writer := CachedWriter (GinWriter w) status wr st ex key\<rparr>)
      = run_actions now (map DoWrite ds) (?c\<lparr>c_Writer := CachedWriter (GinWriter w1) status wr st ex key\<rparr>)"
    using s1(1) by (simp add: w1 hdr Let_def update_order)
  show ?case
  proof (cases "ds = []")
    case True
    then show ?thesis unfolding step using w1 s1 by (auto simp: update_order intro!: exI [of _ w1] exI [of _ s1])
  next
    case False
    have "\<exists>w' s'. run_actions now (map DoWrite ds) (?c\<lparr>c_Writer := CachedWriter (GinWriter w1) status wr st ex key\<rparr>)
      = (Ret (), ?c\<lparr>c_Writer := CachedWriter (GinWriter w') status wr st ex key, c_state := s'\<rparr>)
    \<and> ready code h ((b @ d) @ concat ds) w' \<and> h_sent (rw_http w') = Some (code, h) \<and> inv s'
    \<and> entry s' key = Some (stored (c_state ?c) now (VResponse status h (last ds)) ex)"
      using w1(2) s1(2) False Cons.prems(4) by (intro Cons.IH) simp_all
    then show ?thesis unfolding step using False s1(4) by (simp add: update_order)
  qed
qed simp

lemma miss_runs_handler:
  assumes "inv s" "\<forall>e. entry s (page_key uri) = Some e \<longrightarrow> \<not> live now e"
  obtains c where "CachePage extractor g name now st expire handle (new_request uri s)
      = handle (c\<lparr>c_Writer := CachedWriter (GinWriter fresh_writer) 0 False st expire (page_key uri)\<rparr>)"
    "inv (c_state c)" "stored (c_state c) = stored s"
proof -
  obtain ks where ks: "start_span extractor g name (new_request uri s) = (Ret (), (new_request uri s)\<lparr>c_Keys := ks\<rparr>)"
    using start_span_new [of extractor g name uri s] by blast
  obtain s1 where s1: "m_Get st now (page_key uri) (TPtr TResponse) s = (Ret (Some ErrCacheMiss, None), s1)" "inv s1" "stored s1 = stored s"
    using get_missing [OF assms] by blast
  let ?c = "log_line (Error ErrCacheMiss) ((new_request uri s)\<lparr>c_Keys := ks, c_state := s1\<rparr>)"
  have "CachePage extractor g name now st expire handle (new_request uri s)
      = handle (?c\<lparr>c_Writer := CachedWriter (GinWriter fresh_writer) 0 False st expire (page_key uri)\<rparr>)"
    using s1(1) by (simp add: CachePage_def ks Let_def newCachedWriter_def log_line_def del: Error.simps)
  then show ?thesis using that [of ?c] s1(2,3) by (simp add: log_line_def)
qed

lemma page_stored:
  assumes "inv s" "\<forall>e. entry s (page_key uri) = Some e \<longrightarrow> \<not> live now e" "\<forall>a \<in> set pre. preparing a" "ds \<noteq> []"
    and "status = fold act_status pre 0" "h = fold act_header pre []" "bodyAllowed (sent_status status)" "\<forall>d \<in> set ds. accepts (VResponse status h d) expire"
  shows "\<exists>c. CachePage extractor g name now st expire (run_actions now' (pre @ map DoWrite ds)) (new_request uri s) = (Ret (), c)
    \<and> response c = (Some (sent_status status, h), concat ds) \<and> inv (c_state c)
    \<and> entry (c_state c) (page_key uri) = Some (stored s now' (VResponse status h (last ds)) expire)"
proof -
  let ?acts = "pre @ map DoWrite ds"
  obtain c where c: "CachePage extractor g name now st expire (run_actions now' ?acts) (new_request uri s)
      = run_actions now' ?acts (c\<lparr>c_Writer := CachedWriter (GinWriter fresh_writer) 0 False st expire (page_key uri)\<rparr>)"
    "inv (c_state c)" "stored (c_state c) = stored s"
    using miss_runs_handler [OF assms(1,2)] by metis
  let ?w = "fresh_writer\<lparr>rw_http := (rw_http fresh_writer)\<lparr>h_header := h\<rparr>, rw_status := sent_status status\<rparr>"
  have fresh: "fresh_writer = fresh_writer\<lparr>rw_http := (rw_http fresh_writer)\<lparr>h_header := []\<rparr>, rw_status := sent_status 0\<rparr>"
    by (simp add: fresh_writer_def sent_status_def)
  obtain wr where pre: "run_actions now' ?acts (c\<lparr>c_Writer := CachedWriter (GinWriter fresh_writer) 0 False st expire (page_key uri)\<rparr>)
      = run_actions now' (map DoWrite ds) (c\<lparr>c_Writer := CachedWriter (GinWriter ?w) status wr st expire (page_key uri)\<rparr>)"
    using run_preparing [OF assms(3), where st = 0 and now = now' and as = "map DoWrite ds" and c = c and w = fresh_writer and h = "[]"
        and wr = False and store = st and ex = expire and key = "page_key uri"] fresh
    unfolding assms(5,6) by metis
  have "ready (sent_status status) h [] ?w" using assms(7) by (simp add: ready_def fresh_writer_def)
  from run_writes [OF this c(2) assms(4,8), of now' wr "page_key uri"] obtain w' s' where
    run: "run_actions now' (map DoWrite ds) (c\<lparr>c_Writer := CachedWriter (GinWriter ?w) status wr st expire (page_key uri)\<rparr>)
      = (Ret (), c\<lparr>c_Writer := CachedWriter (GinWriter w') status wr st expire (page_key uri), c_state := s'\<rparr>)"
    and w': "ready (sent_status status) h (concat ds) w'" "h_sent (rw_http w') = Some (sent_status status, h)"
    and s': "inv s'" "entry s' (page_key uri) = Some (stored (c_state c) now' (VResponse status h (last ds)) expire)"
    by auto
  from w'(1) have "h_body (rw_http w') = concat ds" by (simp add: ready_def)
  then show ?thesis using w'(2) s' c(3) by (simp add: c(1) pre run response_def Let_def)
qed

lemma hit_replays:
  assumes "inv s" "entry s (page_key uri) = Some e" "live now e" "carries e (VResponse status h d)"
    and "header_wf h" "bodyAllowed (sent_status status)" "header_Get ''x-okay-to-cache'' h \<noteq> []"
  shows "\<exists>c. CachePage extractor g name now st expire handle (new_request uri s) = (Ret (), c)
    \<and> response c = (Some (sent_status status, h), d) \<and> inv (c_state c) \<and> entry (c_state c) (page_key uri) = Some e"
proof -
  obtain ks where ks: "start_span extractor g name (new_request uri s) = (Ret (), (new_request uri s)\<lparr>c_Keys := ks\<rparr>)"
    using start_span_new [of extractor g name uri s] by blast
  obtain s1 where s1: "m_Get st now (page_key uri) (TPtr TResponse) s = (Ret (None, Some (VResponse status h d)), s1)" "inv s1" "entry s1 (page_key uri) = Some e"
    using get_response [OF assms(1-4)] by blast
  have "CachePage extractor g name now st expire handle (new_request uri s) = replay now status h d ((new_request uri s)\<lparr>c_Keys := ks, c_state := s1\<rparr>)"
    using s1(1) assms(7) by (simp add: CachePage_def ks Let_def)
  then show ?thesis
    using replay_fresh [of "(new_request uri s)\<lparr>c_Keys := ks, c_state := s1\<rparr>" h status now d] assms(5,6) s1(2,3) by auto
qed

lemma atomic_hits:
  assumes "inv s" "entry s (page_key uri) = Some e" "\<forall>(g, name, now, handle) \<in> set rs. live now e" "carries e (VResponse status h d)"
    and "header_wf h" "bodyAllowed (sent_status status)" "header_Get ''x-okay-to-cache'' h \<noteq> []"
  shows "\<exists>s'. atomic_requests extractor st expire uri rs False s = Some (replicate (length rs) (Ret (), Some (sent_status status, h), d), False, s')
    \<and> inv s' \<and> entry s' (page_key uri) = Some e"
  using assms(1-3)
proof (induction rs arbitrary: s)
  case (Cons a rs)
  obtain g name now handle where a: "a = (g, name, now, handle)" by (cases a)
  obtain c where c: "CachePage extractor g name now st expire handle (new_request uri s) = (Ret (), c)" "response c = (Some (sent_status status, h), d)"
    "inv (c_state c)" "entry (c_state c) (page_key uri) = Some e"
    using hit_replays [OF Cons.prems(1,2) _ assms(4-7), of now extractor g name expire handle] Cons.prems(3) a by auto
  then show ?case using Cons.IH [OF c(3,4)] Cons.prems(3) by (auto simp: a CachePageAtomic_def)
qed simp

text \<open>A handler that renders a text: the caching writer never learns the status.\<close>

lemma text_stored:
  assumes "inv s" "\<forall>e. entry s (page_key uri) = Some e \<longrightarrow> \<not> live now e" "0 <s code" "bodyAllowed code" "h = header_put ''Content-Type'' plainContentType (header_Set k v [])"
    and "CanonicalHeaderKey k \<noteq> ''Content-Type''" "accepts (VResponse 0 h (bytes_of_string line)) expire"
  shows "\<exists>c. CachePage extractor g name now st expire (\<lambda>c. ctx_String now' code line [] (c\<lparr>c_Writer := w_header_update (header_Set k v) (c_Writer c)\<rparr>)) (new_request uri s) = (Ret (), c)
    \<and> response c = (Some (code, h), bytes_of_string line) \<and> inv (c_state c)
    \<and> entry (c_state c) (page_key uri) = Some (stored s now' (VResponse 0 h (bytes_of_string line)) expire)"
proof -
  obtain c where c: "CachePage extractor g name now st expire (\<lambda>c. ctx_String now' code line [] (c\<lparr>c_Writer := w_header_update (header_Set k v) (c_Writer c)\<rparr>)) (new_request uri s)
      = ctx_String now' code line [] (c\<lparr>c_Writer := CachedWriter (w_header_update (header_Set k v) (GinWriter fresh_writer)) 0 False st expire (page_key uri)\<rparr>)"
    "inv (c_state c)" "stored (c_state c) = stored s"
    by (rule miss_runs_handler [OF assms(1,2), where extractor = extractor and g = g and name = name and expire = expire
          and handle = "\<lambda>c. ctx_String now' code line [] (c\<lparr>c_Writer := w_header_update (header_Set k v) (c_Writer c)\<rparr>)"]) simp
  let ?w = "fresh_writer\<lparr>rw_http := (rw_http fresh_writer)\<lparr>h_header := h\<rparr>, rw_status := code\<rparr>"
  have "ready code h [] ?w" using assms(4) by (simp add: ready_def fresh_writer_def)
  then obtain w' where w': "rw_Write (bytes_of_string line) ?w = ((int (length (bytes_of_string line)), None), w')" "ready code h (bytes_of_string line) w'" "h_sent (rw_http w') = Some (code, h)"
    using ready_Write [of code h "[]" ?w "bytes_of_string line"] by auto
  obtain s1 where s1: "m_Set st now' (page_key uri) (VResponse 0 h (bytes_of_string line)) expire (c_state c) = (Ret None, s1)" "inv s1"
    "entry s1 (page_key uri) = Some (stored s now' (VResponse 0 h (bytes_of_string line)) expire)"
    using set_response [OF c(2) assms(7), of now' "page_key uri"] c(3) by auto
  have w: "writeContentType plainContentType (CachedWriter (writermem_update (rw_WriteHeader code) (w_header_update (header_Set k v) (GinWriter fresh_writer))) 0 False st expire (page_key uri))
      = CachedWriter (GinWriter ?w) 0 False st expire (page_key uri)"
    using assms(3,5,6) by (auto simp: writeContentType_def fresh_writer_def rw_WriteHeader_def header_Set_def)
  have f: "h_header (rw_http w') = h" "h_body (rw_http w') = bytes_of_string line" "bodyAllowedForStatus code" using w'(2) assms(4) by (auto simp: ready_def bodyAllowedForStatus_def bodyAllowed_def)
  show ?thesis using w'(1,3) s1 f unfolding c(1)
    by (simp add: ctx_String_def ctx_Render_def ctx_Status_def render_String_def render_WriteString_def w [simplified] response_def Let_def)
qed

end

end
