(* ===== verification/GinCacheSpec.thy ===== *)
theory GinCacheSpec
  imports PageContract
begin

text \<open>
  Properties of the gin page cache over the in-memory store, which is a store of responses.
\<close>

section \<open>The in-memory store holds responses\<close>

lemma mem_stored_cong: "store_DefaultExp s = store_DefaultExp s' \<Longrightarrow> mem_stored s = mem_stored s'"
  by (simp add: fun_eq_iff mem_stored_def expiry_of_def)

lemma get_page:
  assumes "mem_inv s" "mem_content s k = Some e" "\<not> Expired now e" "Data e = VResponse st h d"
  shows "m_Get mem_ops now k (TPtr TResponse) s = (Ret (None, Some (VResponse st h d)), touched k s)"
  using assms by (simp add: mem_ops_def mem_Get_eq mem_deliver_def)

interpretation mem_pages: response_store mem_ops mem_inv mem_content "\<lambda>now e. \<not> Expired now e" "\<lambda>e v. Data e = v" mem_stored "\<lambda>v exp. True"
proof (unfold_locales, goal_cases)
  case (1 w v exp now k)
  then obtain code h d where v: "v = VResponse code h d" by (cases v) simp_all
  let ?v = "VResponse code h d"
  have "mem_stored (snd (m_Set mem_ops now k ?v exp w)) = mem_stored w" by (rule mem_stored_cong) (simp add: mem_ops_def mem_Set_def mem_doAddSet_eq)
  then show ?case
    using mem.set_ok [OF 1(1), of ?v now k exp] mem.inv_set [OF 1(1), of ?v now k exp] mem.set_content [OF 1(1), of ?v now k exp]
    by (intro exI [of _ "snd (m_Set mem_ops now k ?v exp w)"]) (simp add: v prod_eq_iff)
next
  case (2 w v k e now)
  then obtain code h d where v: "v = VResponse code h d" by (cases v) simp_all
  show ?case using get_page [OF 2(1,3,4), of code h d] 2(3,5) v after_get(1,3) [OF 2(1) refl, of k] by auto
next
  case (3 w k now)
  have "m_Get mem_ops now k (TPtr TResponse) w = (Ret (Some ErrCacheMiss, None), snd (m_Get mem_ops now k (TPtr TResponse) w))"
    using mem.get_miss [OF 3(1), of k now "TPtr TResponse"] 3(2) by (cases "mem_content w k") (simp_all add: prod_eq_iff)
  moreover have "mem_stored (snd (m_Get mem_ops now k (TPtr TResponse) w)) = mem_stored w"
    using 3 by (intro mem_stored_cong) (auto simp: mem_ops_def mem_Get_eq split: option.split)
  moreover have "mem_content (snd (m_Get mem_ops now k (TPtr TResponse) w)) \<subseteq>\<^sub>m mem_content w" by (rule mem.get_content [OF 3(1)])
  ultimately show ?case using mem.inv_get [OF 3(1), of now k "TPtr TResponse"] map_le_Some by metis
next
  case (4 v exp w now)
  then show ?case by (cases v) (simp_all add: mem_stored_def)
qed

section \<open>Properties\<close>

text \<open>
  C36: A page that is not in the store: the handler's response goes to the client, and what is stored is
  the last status the handler gave (0 if it gave none), its headers and, of the body, only what the
  last write wrote.
\<close>

theorem CachePage_stores_last_write:
  assumes "mem_inv s" "mem_content s (page_key uri) = None" "\<forall>a \<in> set pre. preparing a" "ds \<noteq> []"
    and "st = fold act_status pre 0" "h = fold act_header pre []" "bodyAllowed (sent_status st)"
  shows "let (r, c) = CachePage extractor g name now mem_ops expire (run_actions now' (pre @ map DoWrite ds)) (new_request uri s)
    in r = Ret () \<and> response c = (Some (sent_status st, h), concat ds) \<and> mem_inv (c_state c)
     \<and> mem_content (c_state c) (page_key uri) = Some (mem_stored s now' (VResponse st h (last ds)) expire)"
  using mem_pages.page_stored [where uri = uri, OF assms(1) _ assms(3-7), where extractor = extractor and g = g and name = name and now = now and expire = expire and now' = now'] assms(2) by auto

text \<open>For the witnesses: a handler that marks its page as cacheable.\<close>

definition demo_pre :: "action list" where
  "demo_pre = [SetHeader ''x-okay-to-cache'' ''yes'', DoWriteHeader 201]"

lemma demo_pre_facts: "\<forall>a \<in> set demo_pre. preparing a" "fold act_status demo_pre 0 = 201"
  "fold act_header demo_pre [] = [(''X-Okay-To-Cache'', [''yes''])]" "sent_status 201 = 201" "bodyAllowed 201"
proof -
  show "\<forall>a \<in> set demo_pre. preparing a" by (simp add: demo_pre_def word_sless_alt)
  show "fold act_status demo_pre 0 = 201" by (simp add: demo_pre_def)
  show "fold act_header demo_pre [] = [(''X-Okay-To-Cache'', [''yes''])]" by code_simp
  show "sent_status 201 = 201" "bodyAllowed 201" by (simp_all add: sent_status_def bodyAllowed_def word_sless_alt)
qed

lemma demo_header: "header_Get ''x-okay-to-cache'' [(''X-Okay-To-Cache'', [''yes''])] \<noteq> []"
  by code_simp

theorem CachePage_stores_last_write_witness:
  "let (r, c) = CachePage (\<lambda>_. None) 1 ''s'' (at 1000 0) mem_ops FOREVER (run_actions (at 1000 0) (demo_pre @ map DoWrite [[1, 2], [3]])) (new_request ''/p'' mem0)
    in r = Ret () \<and> response c = (Some (201, [(''X-Okay-To-Cache'', [''yes''])]), [1, 2, 3])
     \<and> mem_content (c_state c) (page_key ''/p'') = Some (mem_stored mem0 (at 1000 0) (VResponse 201 [(''X-Okay-To-Cache'', [''yes''])] [3]) FOREVER)"
  using CachePage_stores_last_write [OF mem0_inv(1) _ demo_pre_facts(1) _ refl refl, of "''/p''" "[[1, 2], [3]]" "\<lambda>_. None" 1 "''s''" "at 1000 0" FOREVER "at 1000 0"]
  by (simp add: mem0_inv(2) demo_pre_facts case_prod_beta Let_def)




text \<open>
  C23: The status of a rendered page is lost: gin's \<open>String\<close> sets it on the context's own writer, past the caching
  writer, which stores 0. The first client gets the status of the handler, the next one 200 with the
  same headers and body.
\<close>

theorem CachePage_text_status:
  assumes "mem_inv s" "mem_content s (page_key uri) = None" "0 <s code" "bodyAllowed code" "v \<noteq> []"
    and "h = header_put ''Content-Type'' plainContentType (header_Set ''x-okay-to-cache'' v [])" "\<not> Expired later (mem_stored s now' (VResponse 0 h (bytes_of_string line)) expire)"
  shows "let (r1, c1) = CachePage extractor g name now mem_ops expire
               (\<lambda>c. ctx_String now' code line [] (c\<lparr>c_Writer := w_header_update (header_Set ''x-okay-to-cache'' v) (c_Writer c)\<rparr>)) (new_request uri s);
             (r2, c2) = CachePage extractor g' name' later mem_ops expire handle' (new_request uri (c_state c1))
         in r1 = Ret () \<and> response c1 = (Some (code, h), bytes_of_string line)
          \<and> r2 = Ret () \<and> response c2 = (Some (200, h), bytes_of_string line)"
proof -
  have key: "CanonicalHeaderKey ''x-okay-to-cache'' = ''X-Okay-To-Cache''" "CanonicalHeaderKey ''X-Okay-To-Cache'' = ''X-Okay-To-Cache''" "CanonicalHeaderKey ''Content-Type'' = ''Content-Type''"
    by code_simp+
  have h: "h = [(''X-Okay-To-Cache'', [v]), (''Content-Type'', plainContentType)]" by (simp add: assms(6) header_Set_def key)
  have hw: "header_wf h" "header_Get ''x-okay-to-cache'' h \<noteq> []" "sent_status 0 = 200" "bodyAllowed 200"
    using assms(5) by (simp_all add: h header_wf_def header_Get_def key plainContentType_def sent_status_def bodyAllowed_def)
  obtain c1 where c1: "CachePage extractor g name now mem_ops expire
        (\<lambda>c. ctx_String now' code line [] (c\<lparr>c_Writer := w_header_update (header_Set ''x-okay-to-cache'' v) (c_Writer c)\<rparr>)) (new_request uri s) = (Ret (), c1)"
    "response c1 = (Some (code, h), bytes_of_string line)" "mem_inv (c_state c1)"
    "mem_content (c_state c1) (page_key uri) = Some (mem_stored s now' (VResponse 0 h (bytes_of_string line)) expire)"
    using mem_pages.text_stored [where uri = uri and k = "''x-okay-to-cache''" and v = v and now = now and expire = expire and line = line and extractor = extractor and g = g and name = name and now' = now', OF assms(1) _ assms(3,4,6)] assms(2) by (auto simp: key)
  from mem_pages.hit_replays [OF c1(3,4) assms(7) _ hw(1) _ hw(2), where status = 0 and d = "bytes_of_string line" and extractor = extractor and g = g' and name = name' and expire = expire and handle = handle'] show ?thesis
    using c1(1,2) hw(3,4) by (auto simp: mem_stored_def)
qed

theorem CachePage_text_status_witness:
  "let (r1, c1) = CachePage (\<lambda>_. None) 1 ''s'' (at 1000 0) mem_ops FOREVER
         (\<lambda>c. ctx_String (at 1000 0) 404 ''none'' [] (c\<lparr>c_Writer := w_header_update (header_Set ''x-okay-to-cache'' ''yes'') (c_Writer c)\<rparr>)) (new_request ''/p'' mem0);
       (r2, c2) = CachePage (\<lambda>_. None) 1 ''t'' (at 2000 0) mem_ops FOREVER (run_actions (at 2000 0) []) (new_request ''/p'' (c_state c1))
   in fst (the (fst (response c1))) = 404 \<and> fst (the (fst (response c2))) = 200"
proof -
  have "\<not> Expired (at 2000 0) (mem_stored mem0 (at 1000 0) v FOREVER)" for v by (simp add: mem_stored_def expiry_of_def Expired_def)
  note e = this
  show ?thesis
    using CachePage_text_status [OF mem0_inv(1) _ _ _ _ refl e, where uri = "''/p''" and v = "''yes''" and code = 404 and line = "''none''" and extractor = "\<lambda>_. None" and g = 1 and g' = 1
        and name = "''s''" and name' = "''t''" and now = "at 1000 0" and handle' = "run_actions (at 2000 0) []"]
    by (simp add: mem0_inv(2) bodyAllowed_def word_sless_alt case_prod_beta Let_def)
qed

text \<open>
  A stored page without a value for \<open>x-okay-to-cache\<close> is not used: the handler runs behind a new
  caching writer, just as for a page that is not in the store, only the log line differs.
\<close>

theorem CachePage_not_okay:
  assumes "mem_inv s" "mem_content s (page_key uri) = Some e" "\<not> Expired now e" "Data e = VResponse st h d"
    and "header_Get ''x-okay-to-cache'' h = []"
  shows "\<exists>c. CachePage extractor g name now mem_ops expire handle (new_request uri s) = handle c
    \<and> c_Writer c = CachedWriter (GinWriter fresh_writer) 0 False mem_ops expire (page_key uri)
    \<and> c_log c = [''not okay to cache''] \<and> c_state c = touched (page_key uri) s"
proof -
  obtain ks where ks: "start_span extractor g name (new_request uri s) = (Ret (), (new_request uri s)\<lparr>c_Keys := ks\<rparr>)"
    using start_span_new [of extractor g name uri s] by blast
  let ?c = "(log_line ''not okay to cache'' ((new_request uri s)\<lparr>c_Keys := ks, c_state := touched (page_key uri) s\<rparr>))
    \<lparr>c_Writer := CachedWriter (GinWriter fresh_writer) 0 False mem_ops expire (page_key uri)\<rparr>"
  have "CachePage extractor g name now mem_ops expire handle (new_request uri s) = handle ?c"
    using get_page [OF assms(1-4)] assms(5) by (simp add: CachePage_def ks Let_def newCachedWriter_def log_line_def)
  moreover have "c_log (new_request uri s) = []" for s by (simp add: new_request_def)
  ultimately show ?thesis by (intro exI [of _ ?c]) (simp add: log_line_def)
qed

text \<open>A store with a page.\<close>

definition page_store :: "header \<Rightarrow> inMemoryStore" where
  "page_store h = snd (mem_Set (at 1000 0) (page_key ''/p'') (VResponse 200 h [7]) FOREVER mem0)"

definition page_entry :: "header \<Rightarrow> GenericCacheEntry" where
  "page_entry h = \<lparr>Data = VResponse 200 h [7], TimeAdded = 1000, ExpiresAt = 0\<rparr>"

lemma page_store_facts: "mem_inv (page_store h)" "mem_content (page_store h) (page_key ''/p'') = Some (page_entry h)"
  "\<not> Expired now (page_entry h)" "Data (page_entry h) = VResponse 200 h [7]"
  using mem.inv_set [OF mem0_inv(1), of "VResponse 200 h [7]" "at 1000 0" "page_key ''/p''" FOREVER]
    mem.set_content [OF mem0_inv(1), of "VResponse 200 h [7]" "at 1000 0" "page_key ''/p''" FOREVER]
  by (simp_all add: page_store_def page_entry_def mem_ops_def mem_stored_def expiry_of_def at_def Expired_def)

theorem CachePage_not_okay_witness:
  "\<exists>c. CachePage (\<lambda>_. None) 1 ''s'' (at 1000 0) mem_ops FOREVER (run_actions (at 1000 0) []) (new_request ''/p'' (page_store []))
      = run_actions (at 1000 0) [] c
    \<and> c_log c = [''not okay to cache'']"
  using CachePage_not_okay [OF page_store_facts(1,2,3) [where h = "[]"] page_store_facts(4) [where h = "[]"], where extractor = "\<lambda>_. None" and g = 1 and name = "''s''" and now = "at 1000 0"
      and expire = FOREVER and handle = "run_actions (at 1000 0) []"]
  by (auto simp: header_Get_def)


text \<open>
  C37: \<open>SiteCache\<close> in a chain: on a miss the rest of the chain runs once. On a hit the stored response is
  written and then the rest of the chain runs all the same, on the context that already has the
  response, because nothing aborts the chain.
\<close>

theorem SiteCache_continues:
  assumes "mem_inv s"
  shows "(mem_content s (page_key uri) = None \<longrightarrow>
      (\<exists>c. run_chain (SiteCache now mem_ops expire # rest) (new_request uri s) = run_chain rest c
        \<and> response c = (None, []) \<and> mem_inv (c_state c)))
    \<and> (\<forall>e st h d. mem_content s (page_key uri) = Some e \<and> \<not> Expired now e \<and> Data e = VResponse st h d
        \<and> header_wf h \<and> bodyAllowed (sent_status st) \<longrightarrow>
      (\<exists>c. run_chain (SiteCache now mem_ops expire # rest) (new_request uri s) = run_chain rest c
        \<and> response c = (Some (sent_status st, h), d)))"
proof (intro conjI impI allI)
  assume none: "mem_content s (page_key uri) = None"
  define s1 where "s1 = snd (m_Get mem_ops now (page_key uri) (TPtr TResponse) s)"
  have get: "m_Get mem_ops now (page_key uri) (TPtr TResponse) s = (Ret (Some ErrCacheMiss, None), s1)"
    using mem.get_miss [OF assms, of "page_key uri" now "TPtr TResponse"] none by (simp add: s1_def prod_eq_iff)
  have "response ((new_request uri s)\<lparr>c_state := s1\<rparr>) = (None, [])" by (simp add: response_def fresh_writer_def)
  then show "\<exists>c. run_chain (SiteCache now mem_ops expire # rest) (new_request uri s) = run_chain rest c
        \<and> response c = (None, []) \<and> mem_inv (c_state c)"
  proof (intro exI [of _ "(new_request uri s)\<lparr>c_state := s1\<rparr>"] conjI)
    have "SiteCache now mem_ops expire (run_chain rest) (new_request uri s) = (True, run_chain rest ((new_request uri s)\<lparr>c_state := s1\<rparr>))"
      by (simp add: SiteCache_def Let_def get)
    then show "run_chain (SiteCache now mem_ops expire # rest) (new_request uri s) = run_chain rest ((new_request uri s)\<lparr>c_state := s1\<rparr>)"
      by (simp split: prod.splits outcome.splits)
    show "mem_inv (c_state ((new_request uri s)\<lparr>c_state := s1\<rparr>))"
      using mem.inv_get [OF assms, of now "page_key uri" "TPtr TResponse"] by (simp add: s1_def)
  qed
next
  fix e st h d
  assume e: "mem_content s (page_key uri) = Some e \<and> \<not> Expired now e \<and> Data e = VResponse st h d \<and> header_wf h \<and> bodyAllowed (sent_status st)"
  have get: "m_Get mem_ops now (page_key uri) (TPtr TResponse) s = (Ret (None, Some (VResponse st h d)), touched (page_key uri) s)"
    using e by (intro get_page [OF assms]) auto
  obtain c where c: "replay now st h d ((new_request uri s)\<lparr>c_state := touched (page_key uri) s\<rparr>) = (Ret (), c)"
    "response c = (Some (sent_status st, h), d)"
    using replay_fresh [of "(new_request uri s)\<lparr>c_state := touched (page_key uri) s\<rparr>" h st now d] e by auto
  show "\<exists>c. run_chain (SiteCache now mem_ops expire # rest) (new_request uri s) = run_chain rest c
        \<and> response c = (Some (sent_status st, h), d)"
    using get c by (intro exI [of _ c]) (simp add: SiteCache_def Let_def)
qed

theorem SiteCache_continues_witness:
  "\<exists>c. run_chain (SiteCache (at 1000 0) mem_ops FOREVER # [\<lambda>Next c. (False, run_actions (at 1000 0) [DoWrite [8]] c)]) (new_request ''/p'' (page_store []))
      = run_chain [\<lambda>Next c. (False, run_actions (at 1000 0) [DoWrite [8]] c)] c
    \<and> response c = (Some (200, []), [7])"
  using SiteCache_continues [OF page_store_facts(1) [of "[]"], where uri = "''/p''" and now = "at 1000 0" and expire = FOREVER and rest = "[\<lambda>Next c. (False, run_actions (at 1000 0) [DoWrite [8]] c)]"]
    page_store_facts [where h = "[]"]
  by (simp add: header_wf_def sent_status_def bodyAllowed_def word_sless_alt)

end
