(* ===== verification/Metrics.thy ===== *)
theory Metrics
  imports InMemoryStore
begin

text \<open>
  The metrics of \<open>src/metrics.go\<close> and the gauge of an in-memory store (\<open>src/inmemory.go\<close>).

  Collectors live in a heap of objects; a pointer is an address, nil is \<open>None\<close>. The registry is that of
  \<open>vendor/github.com/prometheus/client_golang/prometheus/registry.go\<close>, for collectors with one
  descriptor and no constant labels, as they are here; it compares descriptors by hashes, which the model
  takes to be different for different names, and in messages descriptors are shown by their names. Observations are kept in nanoseconds; the code divides them by
  a second. A gauge's function reads the state \<open>'w\<close> of the program.
\<close>

section \<open>Collectors and the registry\<close>

record Desc =
  d_fqName :: string
  d_help :: string
  d_labels :: "string list"

datatype 'w collector = CounterVec Desc "string \<Rightarrow> nat" | Summary Desc "duration list" | GaugeFunc Desc "'w \<Rightarrow> int"

fun desc_of :: "'w collector \<Rightarrow> Desc" where
  "desc_of (CounterVec d _) = d"
| "desc_of (Summary d _) = d"
| "desc_of (GaugeFunc d _) = d"

record 'w prometheus =
  pr_objs :: "nat \<rightharpoonup> 'w collector"
  pr_next :: nat
  pr_registered :: "string \<rightharpoonup> nat"
  pr_log :: "string list"

definition subsystem :: string where
  "subsystem = ''go_cache''"

definition BuildFQName :: "string \<Rightarrow> string \<Rightarrow> string" where
  "BuildFQName subsys name = (if name = [] then [] else if subsys \<noteq> [] then subsys @ ''_'' @ name else name)"

definition metric_char :: "char \<Rightarrow> bool" where
  "metric_char c \<longleftrightarrow> (let n = of_char c :: nat in 97 \<le> n \<and> n \<le> 122 \<or> 65 \<le> n \<and> n \<le> 90 \<or> c = CHR ''_'' \<or> c = CHR '':'')"

definition IsValidMetricName :: "string \<Rightarrow> bool" where
  "IsValidMetricName s \<longleftrightarrow> s \<noteq> [] \<and> metric_char (hd s) \<and>
     list_all (\<lambda>c. metric_char c \<or> (let n = of_char c :: nat in 48 \<le> n \<and> n \<le> 57)) (tl s)"

definition AlreadyRegistered :: error where
  "AlreadyRegistered = ErrExt ''duplicate metrics collector registration attempted''"

definition newDesc :: "string \<Rightarrow> string \<Rightarrow> string list \<Rightarrow> Desc" where
  "newDesc name help labels = \<lparr>d_fqName = BuildFQName subsystem name, d_help = help, d_labels = labels\<rparr>"

definition alloc :: "'w collector \<Rightarrow> 'w prometheus \<Rightarrow> nat \<times> 'w prometheus" where
  "alloc c p = (pr_next p, p\<lparr>pr_objs := (pr_objs p)(pr_next p \<mapsto> c), pr_next := pr_next p + 1\<rparr>)"

definition Register :: "nat \<Rightarrow> 'w prometheus \<Rightarrow> error option \<times> 'w prometheus" where
  "Register a p =
     (case pr_objs p a of
        None \<Rightarrow> (Some (ErrExt ''nil collector''), p)
      | Some c \<Rightarrow>
          (let d = desc_of c in
           if \<not> IsValidMetricName (d_fqName d) then (Some (Errorf ''descriptor %s is invalid: %s is not a valid metric name'' [d_fqName d, d_fqName d]), p)
           else case pr_registered p (d_fqName d) of
             None \<Rightarrow> (None, p\<lparr>pr_registered := (pr_registered p)(d_fqName d \<mapsto> a)\<rparr>)
           | Some b \<Rightarrow>
               (case pr_objs p b of
                  Some c' \<Rightarrow>
                    if d_labels (desc_of c') \<noteq> d_labels d \<or> d_help (desc_of c') \<noteq> d_help d then
                      (Some (Errorf ''a previously registered descriptor with the same fully-qualified name as %s has different label names or a different help string'' [d_fqName d]), p)
                    else (Some AlreadyRegistered, p)
                | None \<Rightarrow> (Some AlreadyRegistered, p))))"

definition Infof :: "string \<Rightarrow> string list \<Rightarrow> 'w prometheus \<Rightarrow> 'w prometheus" where
  "Infof f as p = p\<lparr>pr_log := pr_log p @ [Sprintf f as]\<rparr>"

section \<open>The functions of metrics.go\<close>

definition incrementCounterVec :: "nat option \<Rightarrow> int64 \<Rightarrow> 'w prometheus \<Rightarrow> 'w prometheus" where
  "incrementCounterVec c statusCode p =
     (case c of
        None \<Rightarrow> p
      | Some a \<Rightarrow>
          (case pr_objs p a of
             Some (CounterVec d counts) \<Rightarrow> (let l = show_int statusCode in p\<lparr>pr_objs := (pr_objs p)(a \<mapsto> CounterVec d (counts(l := counts l + 1)))\<rparr>)
           | _ \<Rightarrow> p))"

text \<open>The message of a failed registration has no argument for its verb.\<close>

definition registered_or_logged :: "nat \<Rightarrow> string \<Rightarrow> 'w prometheus \<Rightarrow> 'w prometheus" where
  "registered_or_logged a name p =
     (case Register a p of
        (Some err, p1) \<Rightarrow> Infof (''%s could not be registered: '' @ name @ Error err) [] p1
      | (None, p1) \<Rightarrow> Infof ''%s registered.'' [name] p1)"

definition initCounterVec :: "nat option \<Rightarrow> string \<Rightarrow> string \<Rightarrow> 'w prometheus \<Rightarrow> nat option \<times> 'w prometheus" where
  "initCounterVec m name help p =
     (case m of
        Some a \<Rightarrow> (Some a, p)
      | None \<Rightarrow>
          (case alloc (CounterVec (newDesc name help [''status_code'']) (\<lambda>_. 0)) p of
             (a, p1) \<Rightarrow> (Some a, registered_or_logged a name p1)))"

definition initSummary :: "nat option \<Rightarrow> string \<Rightarrow> string \<Rightarrow> 'w prometheus \<Rightarrow> nat option \<times> 'w prometheus" where
  "initSummary m name help p =
     (case m of
        Some a \<Rightarrow> (Some a, p)
      | None \<Rightarrow>
          (case alloc (Summary (newDesc name help []) []) p of
             (a, p1) \<Rightarrow> (Some a, registered_or_logged a name p1)))"

text \<open>\<open>elapsed\<close> is \<open>time.Since(start)\<close>; a nil summary panics.\<close>

definition observeSummary :: "nat option \<Rightarrow> duration \<Rightarrow> 'w prometheus \<Rightarrow> unit outcome \<times> 'w prometheus" where
  "observeSummary s elapsed p =
     (case s of
        None \<Rightarrow> (Panic ''invalid memory address or nil pointer dereference'', p)
      | Some a \<Rightarrow>
          (case pr_objs p a of
             Some (Summary d obs) \<Rightarrow> (Ret (), p\<lparr>pr_objs := (pr_objs p)(a \<mapsto> Summary d (obs @ [elapsed]))\<rparr>)
           | _ \<Rightarrow> (Ret (), p)))"

definition initGaugeWithFunc :: "('w \<Rightarrow> int) \<Rightarrow> string \<Rightarrow> string \<Rightarrow> 'w prometheus \<Rightarrow> error option \<times> 'w prometheus" where
  "initGaugeWithFunc gaugeFunc name help p =
     (case alloc (GaugeFunc (newDesc name help []) gaugeFunc) p of
        (a, p1) \<Rightarrow>
          (case Register a p1 of
             (Some err, p2) \<Rightarrow> (Some err, Infof ''%s could not be registered: %s'' [name, Error err] p2)
           | (None, p2) \<Rightarrow> (None, Infof ''%s registered.'' [name] p2)))"

text \<open>What a scrape sees of a gauge.\<close>

definition gauge_value :: "string \<Rightarrow> 'w \<Rightarrow> 'w prometheus \<Rightarrow> int option" where
  "gauge_value name w p =
     (case Option.bind (pr_registered p name) (pr_objs p) of Some (GaugeFunc d f) \<Rightarrow> Some (f w) | _ \<Rightarrow> None)"

section \<open>Properties\<close>

definition prom_ok :: "'w prometheus \<Rightarrow> bool" where
  "prom_ok p \<longleftrightarrow> (\<forall>a \<ge> pr_next p. pr_objs p a = None)
     \<and> (\<forall>name a. pr_registered p name = Some a \<longrightarrow> (\<exists>c. pr_objs p a = Some c \<and> d_fqName (desc_of c) = name))"

lemma Sprintf_plain: "c \<noteq> CHR ''%'' \<Longrightarrow> Sprintf (c # cs) as = c # Sprintf cs as"
  by (cases cs) simp_all

lemma Sprintf_missing: "\<exists>u. Sprintf (''%s could not be registered: '' @ t) [] = ''%!s(MISSING) could not be registered: '' @ u"
  by (simp add: Sprintf_plain)

lemma Sprintf_registered: "Sprintf ''%s registered.'' [name] = name @ '' registered.''"
  by simp

lemma alloc_register:
  assumes "prom_ok p" "alloc c p = (a, p1)" "Register a p1 = (r, p2)" "fq = d_fqName (desc_of c)"
  shows "a = pr_next p" "pr_objs p a = None" "pr_objs p2 = (pr_objs p)(a \<mapsto> c)" "pr_log p2 = pr_log p"
    "r = None \<longleftrightarrow> IsValidMetricName fq \<and> pr_registered p fq = None"
    "pr_registered p2 = (if r = None then (pr_registered p)(fq \<mapsto> a) else pr_registered p)"
  using assms by (auto simp: alloc_def Register_def prom_ok_def Let_def split: if_splits option.splits)


text \<open>
  The gauges of two in-memory stores with the same metric label: the second registration fails, its
  error is dropped, and a scrape keeps showing the number of items of the first store.
\<close>

theorem second_gauge_lost:
  assumes "prom_ok p" "NewInMemoryStore n1 d1 i1 True label = Inr (c1, Some (name1, help1), f1)"
    and "NewInMemoryStore n2 d2 i2 True label = Inr (c2, Some (name2, help2), f2)"
    and "fq = BuildFQName subsystem name1" "IsValidMetricName fq" "pr_registered p fq = None"
    and "initGaugeWithFunc (\<lambda>(a, b). mem_Len a) name1 help1 p = (r1, p1)"
    and "initGaugeWithFunc (\<lambda>(a, b). mem_Len b) name2 help2 p1 = (r2, p2)"
  shows "r1 = None \<and> r2 = Some AlreadyRegistered \<and> gauge_value fq (s1, s2) p2 = Some (mem_Len s1)"
proof -
  let ?d = "newDesc name1 help1 []" and ?a = "pr_next p"
  have same: "name2 = name1" "help2 = help1"
    using assms(2,3) by (auto simp: NewInMemoryStore_def Let_def split: option.splits if_splits)
  have fq: "d_fqName ?d = fq" by (simp add: newDesc_def assms(4))
  have 1: "r1 = None" "p1 = Infof ''%s registered.'' [name1] (p\<lparr>pr_objs := (pr_objs p)(?a \<mapsto> GaugeFunc ?d (\<lambda>(a, b). mem_Len a)), pr_next := ?a + 1,
      pr_registered := (pr_registered p)(fq \<mapsto> ?a)\<rparr>)"
    using assms(5-7) by (auto simp: initGaugeWithFunc_def alloc_def Register_def fq Let_def)
  have 2: "r2 = Some AlreadyRegistered" "pr_registered p2 = pr_registered p1" "pr_objs p2 ?a = pr_objs p1 ?a"
    using assms(5,8) 1(2) by (auto simp: initGaugeWithFunc_def alloc_def Register_def fq same Infof_def Let_def)
  then show ?thesis using 1 by (simp add: gauge_value_def Infof_def)
qed

text \<open>An empty registry.\<close>

definition prom0 :: "'w prometheus" where
  "prom0 = \<lparr>pr_objs = Map.empty, pr_next = 0, pr_registered = Map.empty, pr_log = []\<rparr>"

lemma prom0_ok: "prom_ok prom0"
  by (simp add: prom_ok_def prom0_def)


theorem second_gauge_lost_witness:
  "let (r1, p1) = initGaugeWithFunc (\<lambda>(a, b). mem_Len a) ''items'' ''Total count the number of items in the in-memory cache for items'' prom0;
       (r2, p2) = initGaugeWithFunc (\<lambda>(a, b). mem_Len b) ''items'' ''Total count the number of items in the in-memory cache for items'' p1
   in r2 = Some AlreadyRegistered \<and> gauge_value ''go_cache_items'' (mem0, mem1) p2 = Some (mem_Len mem0)"
proof -
  obtain l :: "(string, godata) ARCCache" where l: "NewARC 2 = Some l" by (simp add: NewARC_def NewLRU_def)
  let ?text = "''Total count the number of items in the in-memory cache for items''"
  obtain c where new: "NewInMemoryStore 2 0 0 True ''items'' = Inr (c, Some (''items'', ?text), False)"
    using l by (simp add: NewInMemoryStore_def Let_def)
  have fq: "''go_cache_items'' = BuildFQName subsystem ''items''" "IsValidMetricName ''go_cache_items''" by code_simp+
  show ?thesis
    using second_gauge_lost [OF prom0_ok new new fq(1) fq(2) _ surjective_pairing surjective_pairing, of mem0 mem1]
    by (simp add: prom0_def case_prod_beta Let_def)
qed

end
