(* ===== verification/LruSpec.thy ===== *)
theory LruSpec
  imports SimpleLRU
begin

text \<open>
  The pointer-based list of \<open>simplelru/lru.go\<close> cannot be told from a plain association list: every sequence of
  calls gives the same results on both.
\<close>

section \<open>Calls and their results\<close>

datatype ('k, 'v) lru_call = CAdd 'k 'v | CGet 'k | CPeek 'k | CContains 'k | CRemove 'k | CRemoveOldest | CGetOldest
  | CPurge | CKeys | CLen | CResize int

datatype ('k, 'v) lru_result = RFlag bool | RValue "'v option" | RPair "('k \<times> 'v) option" | RKeys "'k list" | RSize int | RDone

text \<open>One call of the code, and of the reference, whose state is the capacity and the association list.\<close>

fun lru_do :: "('k, 'v) lru_call \<Rightarrow> ('k, 'v) LRU \<Rightarrow> ('k, 'v) lru_result \<times> ('k, 'v) LRU" where
  "lru_do (CAdd k v) c = map_prod RFlag id (lru_Add k v c)"
| "lru_do (CGet k) c = map_prod RValue id (lru_Get k c)"
| "lru_do (CPeek k) c = (RValue (lru_Peek k c), c)"
| "lru_do (CContains k) c = (RFlag (lru_Contains k c), c)"
| "lru_do (CRemove k) c = map_prod RFlag id (lru_Remove k c)"
| "lru_do CRemoveOldest c = map_prod RPair id (lru_RemoveOldest c)"
| "lru_do CGetOldest c = (RPair (lru_GetOldest c), c)"
| "lru_do CPurge c = (RDone, lru_Purge c)"
| "lru_do CKeys c = (RKeys (lru_Keys c), c)"
| "lru_do CLen c = (RSize (lru_Len c), c)"
| "lru_do (CResize n) c = map_prod RSize id (lru_Resize n c)"

type_synonym ('k, 'v) bounded_alist = "int \<times> ('k \<times> 'v) list"

definition oldest :: "('k \<times> 'v) list \<Rightarrow> ('k \<times> 'v) option" where
  "oldest xs = (if xs = [] then None else Some (last xs))"

fun alist_do :: "('k, 'v) lru_call \<Rightarrow> ('k, 'v) bounded_alist \<Rightarrow> ('k, 'v) lru_result \<times> ('k, 'v) bounded_alist" where
  "alist_do (CAdd k v) (cap, xs) = (RFlag (k \<notin> fst ` set xs \<and> cap \<le> int (length xs)), (cap, alist_push cap k v xs))"
| "alist_do (CGet k) (cap, xs) = (RValue (map_of xs k), (cap, alist_touch k xs))"
| "alist_do (CPeek k) (cap, xs) = (RValue (map_of xs k), (cap, xs))"
| "alist_do (CContains k) (cap, xs) = (RFlag (k \<in> fst ` set xs), (cap, xs))"
| "alist_do (CRemove k) (cap, xs) = (RFlag (k \<in> fst ` set xs), (cap, alist_remove k xs))"
| "alist_do CRemoveOldest (cap, xs) = (RPair (oldest xs), (cap, butlast xs))"
| "alist_do CGetOldest (cap, xs) = (RPair (oldest xs), (cap, xs))"
| "alist_do CPurge (cap, xs) = (RDone, (cap, []))"
| "alist_do CKeys (cap, xs) = (RKeys (rev (map fst xs)), (cap, xs))"
| "alist_do CLen (cap, xs) = (RSize (int (length xs)), (cap, xs))"
| "alist_do (CResize n) (cap, xs) = (let diff = resize_diff (int (length xs)) n
     in (RSize diff, (n, take (length xs - nat diff) xs)))"

fun results :: "('c \<Rightarrow> 's \<Rightarrow> 'r \<times> 's) \<Rightarrow> 'c list \<Rightarrow> 's \<Rightarrow> 'r list" where
  "results step [] s = []"
| "results step (x # xs) s = (case step x s of (r, s') \<Rightarrow> r # results step xs s')"

section \<open>Equivalence\<close>

definition lru_view :: "('k, 'v) LRU \<Rightarrow> ('k, 'v) bounded_alist" where
  "lru_view c = (lru_size c, entries c)"

lemma lru_do_refines:
  assumes "lru_wf c"
  shows "alist_do x (lru_view c) = map_prod id lru_view (lru_do x c)" "lru_wf (snd (lru_do x c))"
  using assms by (cases x; simp add: lru_wf_refines lru_view_def oldest_def length_entries Let_def prod_eq_iff)+

lemma results_refine: "lru_wf c \<Longrightarrow> results lru_do xs c = results alist_do xs (lru_view c)"
proof (induction xs arbitrary: c)
  case (Cons x xs)
  show ?case using lru_do_refines [OF Cons.prems, of x] Cons.IH [of "snd (lru_do x c)"]
    by (simp add: case_prod_beta)
qed simp

text \<open>
  C11: From a new list of size \<open>n\<close> on, every sequence of calls, whatever the keys and values and whatever
  sizes it is resized to, has the same results on the linked elements and the map of the code as on an association
  list that is ordered by recent use and drops its last element when it is full.
\<close>

theorem lru_equivalent:
  assumes "NewLRU n = Some c"
  shows "results lru_do xs c = results alist_do xs (n, [])"
  using results_refine [of c xs] NewLRU_refines [OF assms] by (simp add: lru_view_def lru_inv_wf)

theorem lru_equivalent_witness:
  "map_option (results lru_do [CAdd ''a'' (1 :: nat), CAdd ''b'' 2, CGet ''a'', CAdd ''c'' 3, CKeys, CResize 1, CGetOldest])
     (NewLRU 2)
   = Some [RFlag False, RFlag False, RValue (Some 1), RFlag True, RKeys [''a'', ''c''], RSize 1, RPair (Some (''c'', 3))]"
proof -
  obtain c :: "(string, nat) LRU" where c: "NewLRU 2 = Some c" by (simp add: NewLRU_def)
  have "results alist_do [CAdd ''a'' (1 :: nat), CAdd ''b'' 2, CGet ''a'', CAdd ''c'' 3, CKeys, CResize 1, CGetOldest] (2, [])
      = [RFlag False, RFlag False, RValue (Some 1), RFlag True, RKeys [''a'', ''c''], RSize 1, RPair (Some (''c'', 3))]"
    by (simp add: alist_push_def alist_touch_def alist_remove_def oldest_def resize_diff_exact)
  then show ?thesis unfolding c by (simp only: option.map lru_equivalent [OF c])
qed

end
