(* ===== verification/AES.thy ===== *)
theory AES
  imports GoPrelude
begin

text \<open>
  The block cipher the generic cache uses: AES with a 128-bit key (\<open>aes.NewCipher\<close> of Go's standard
  library, FIPS 197), on blocks of 16 bytes in column order. The cipher is written out so that
  encryption can be evaluated, and decryption is proved to invert it for every key.
\<close>

unbundle bit_operations_syntax

section \<open>The cipher\<close>

definition sbox_table :: "byte list" where
  "sbox_table = [
    99, 124, 119, 123, 242, 107, 111, 197,  48,   1, 103,  43, 254, 215, 171, 118,
   202, 130, 201, 125, 250,  89,  71, 240, 173, 212, 162, 175, 156, 164, 114, 192,
   183, 253, 147,  38,  54,  63, 247, 204,  52, 165, 229, 241, 113, 216,  49,  21,
     4, 199,  35, 195,  24, 150,   5, 154,   7,  18, 128, 226, 235,  39, 178, 117,
     9, 131,  44,  26,  27, 110,  90, 160,  82,  59, 214, 179,  41, 227,  47, 132,
    83, 209,   0, 237,  32, 252, 177,  91, 106, 203, 190,  57,  74,  76,  88, 207,
   208, 239, 170, 251,  67,  77,  51, 133,  69, 249,   2, 127,  80,  60, 159, 168,
    81, 163,  64, 143, 146, 157,  56, 245, 188, 182, 218,  33,  16, 255, 243, 210,
   205,  12,  19, 236,  95, 151,  68,  23, 196, 167, 126,  61, 100,  93,  25, 115,
    96, 129,  79, 220,  34,  42, 144, 136,  70, 238, 184,  20, 222,  94,  11, 219,
   224,  50,  58,  10,  73,   6,  36,  92, 194, 211, 172,  98, 145, 149, 228, 121,
   231, 200,  55, 109, 141, 213,  78, 169, 108,  86, 244, 234, 101, 122, 174,   8,
   186, 120,  37,  46,  28, 166, 180, 198, 232, 221, 116,  31,  75, 189, 139, 138,
   112,  62, 181, 102,  72,   3, 246,  14,  97,  53,  87, 185, 134, 193,  29, 158,
   225, 248, 152,  17, 105, 217, 142, 148, 155,  30, 135, 233, 206,  85,  40, 223,
   140, 161, 137,  13, 191, 230,  66, 104,  65, 153,  45,  15, 176,  84, 187,  22]"

definition inv_sbox_table :: "byte list" where
  "inv_sbox_table = [
    82,   9, 106, 213,  48,  54, 165,  56, 191,  64, 163, 158, 129, 243, 215, 251,
   124, 227,  57, 130, 155,  47, 255, 135,  52, 142,  67,  68, 196, 222, 233, 203,
    84, 123, 148,  50, 166, 194,  35,  61, 238,  76, 149,  11,  66, 250, 195,  78,
     8,  46, 161, 102,  40, 217,  36, 178, 118,  91, 162,  73, 109, 139, 209,  37,
   114, 248, 246, 100, 134, 104, 152,  22, 212, 164,  92, 204,  93, 101, 182, 146,
   108, 112,  72,  80, 253, 237, 185, 218,  94,  21,  70,  87, 167, 141, 157, 132,
   144, 216, 171,   0, 140, 188, 211,  10, 247, 228,  88,   5, 184, 179,  69,   6,
   208,  44,  30, 143, 202,  63,  15,   2, 193, 175, 189,   3,   1,  19, 138, 107,
    58, 145,  17,  65,  79, 103, 220, 234, 151, 242, 207, 206, 240, 180, 230, 115,
   150, 172, 116,  34, 231, 173,  53, 133, 226, 249,  55, 232,  28, 117, 223, 110,
    71, 241,  26, 113,  29,  41, 197, 137, 111, 183,  98,  14, 170,  24, 190,  27,
   252,  86,  62,  75, 198, 210, 121,  32, 154, 219, 192, 254, 120, 205,  90, 244,
    31, 221, 168,  51, 136,   7, 199,  49, 177,  18,  16,  89,  39, 128, 236,  95,
    96,  81, 127, 169,  25, 181,  74,  13,  45, 229, 122, 159, 147, 201, 156, 239,
   160, 224,  59,  77, 174,  42, 245, 176, 200, 235, 187,  60, 131,  83, 153,  97,
    23,  43,   4, 126, 186, 119, 214,  38, 225, 105,  20,  99,  85,  33,  12, 125]"

definition sbox :: "byte \<Rightarrow> byte" where
  "sbox b = sbox_table ! unat b"

definition inv_sbox :: "byte \<Rightarrow> byte" where
  "inv_sbox b = inv_sbox_table ! unat b"

text \<open>Multiplication by \<open>x\<close> in the field of 256 elements, and by the constants of the cipher.\<close>

definition xtime :: "byte \<Rightarrow> byte" where
  "xtime b = push_bit 1 b XOR (if bit b 7 then 27 else 0)"

definition mul3 :: "byte \<Rightarrow> byte" where "mul3 b = xtime b XOR b"
definition mul9 :: "byte \<Rightarrow> byte" where "mul9 b = xtime (xtime (xtime b)) XOR b"
definition mul11 :: "byte \<Rightarrow> byte" where "mul11 b = xtime (xtime (xtime b)) XOR xtime b XOR b"
definition mul13 :: "byte \<Rightarrow> byte" where "mul13 b = xtime (xtime (xtime b)) XOR xtime (xtime b) XOR b"
definition mul14 :: "byte \<Rightarrow> byte" where "mul14 b = xtime (xtime (xtime b)) XOR xtime (xtime b) XOR xtime b"

fun MixColumns :: "bytes \<Rightarrow> bytes" where
  "MixColumns (a # b # c # d # s) =
     (xtime a XOR mul3 b XOR c XOR d) # (a XOR xtime b XOR mul3 c XOR d)
     # (a XOR b XOR xtime c XOR mul3 d) # (mul3 a XOR b XOR c XOR xtime d) # MixColumns s"
| "MixColumns s = s"

fun InvMixColumns :: "bytes \<Rightarrow> bytes" where
  "InvMixColumns (a # b # c # d # s) =
     (mul14 a XOR mul11 b XOR mul13 c XOR mul9 d) # (mul9 a XOR mul14 b XOR mul11 c XOR mul13 d)
     # (mul13 a XOR mul9 b XOR mul14 c XOR mul11 d) # (mul11 a XOR mul13 b XOR mul9 c XOR mul14 d) # InvMixColumns s"
| "InvMixColumns s = s"

definition ShiftRows :: "bytes \<Rightarrow> bytes" where
  "ShiftRows s = map ((!) s) [0, 5, 10, 15, 4, 9, 14, 3, 8, 13, 2, 7, 12, 1, 6, 11]"

definition InvShiftRows :: "bytes \<Rightarrow> bytes" where
  "InvShiftRows s = map ((!) s) [0, 13, 10, 7, 4, 1, 14, 11, 8, 5, 2, 15, 12, 9, 6, 3]"

definition xor_bytes :: "bytes \<Rightarrow> bytes \<Rightarrow> bytes" where
  "xor_bytes s t = map2 (XOR) s t"

text \<open>The key schedule: each round key is four words, made from the round key before it.\<close>

definition next_round_key :: "byte \<Rightarrow> bytes \<Rightarrow> bytes" where
  "next_round_key rcon k =
     (let w = (\<lambda>i. take 4 (drop (4 * i) k));
          g = xor_bytes [sbox (k ! 13), sbox (k ! 14), sbox (k ! 15), sbox (k ! 12)] [rcon, 0, 0, 0];
          w4 = xor_bytes (w 0) g; w5 = xor_bytes (w 1) w4; w6 = xor_bytes (w 2) w5; w7 = xor_bytes (w 3) w6
      in w4 @ w5 @ w6 @ w7)"

fun expand_key :: "nat \<Rightarrow> byte \<Rightarrow> bytes \<Rightarrow> bytes list" where
  "expand_key 0 rcon k = []"
| "expand_key (Suc n) rcon k = (let k' = next_round_key rcon k in k' # expand_key n (xtime rcon) k')"

definition round_enc :: "bytes \<Rightarrow> bytes \<Rightarrow> bytes" where
  "round_enc k s = xor_bytes (MixColumns (ShiftRows (map sbox s))) k"

definition round_dec :: "bytes \<Rightarrow> bytes \<Rightarrow> bytes" where
  "round_dec k s = map inv_sbox (InvShiftRows (InvMixColumns (xor_bytes s k)))"

definition last_enc :: "bytes \<Rightarrow> bytes \<Rightarrow> bytes" where
  "last_enc k s = xor_bytes (ShiftRows (map sbox s)) k"

definition last_dec :: "bytes \<Rightarrow> bytes \<Rightarrow> bytes" where
  "last_dec k s = map inv_sbox (InvShiftRows (xor_bytes s k))"

definition aes_Encrypt :: "bytes \<Rightarrow> bytes \<Rightarrow> bytes" where
  "aes_Encrypt key s = (let ks = expand_key 10 1 key in last_enc (last ks) (fold round_enc (butlast ks) (xor_bytes s key)))"

definition aes_Decrypt :: "bytes \<Rightarrow> bytes \<Rightarrow> bytes" where
  "aes_Decrypt key s = (let ks = expand_key 10 1 key in xor_bytes (fold round_dec (rev (butlast ks)) (last_dec (last ks) s)) key)"

section \<open>Decryption inverts encryption\<close>

lemma xor_bytes_length [simp]: "length (xor_bytes s t) = min (length s) (length t)"
  by (simp add: xor_bytes_def)

lemma xor_bytes_twice: "length s = length t \<Longrightarrow> xor_bytes (xor_bytes s t) t = s"
  by (induction s t rule: list_induct2) (simp_all add: xor_bytes_def xor.assoc)

lemma inv_sbox_table: "map (\<lambda>i. inv_sbox_table ! unat (sbox_table ! i)) [0..<256] = map word_of_nat [0..<256]"
  by code_simp

lemma inv_sbox [simp]: "inv_sbox (sbox b) = b"
proof -
  have "unat b < 256" using unsigned_less [of b, where 'a = nat] by simp
  with arg_cong [OF inv_sbox_table, of "\<lambda>xs. xs ! unat b"] show ?thesis by (simp add: sbox_def inv_sbox_def)
qed

lemma xtime_xor: "xtime (a XOR b) = xtime a XOR xtime b"
  by (auto simp: xtime_def push_bit_xor bit_xor_iff ac_simps)

lemma xor_left_cancel [simp]: "a XOR (a XOR b) = (b :: byte)"
  by (simp flip: xor.assoc)

lemma InvMixColumns [simp]: "InvMixColumns (MixColumns s) = s"
  by (induction s rule: MixColumns.induct)
    (simp_all add: mul3_def mul9_def mul11_def mul13_def mul14_def xtime_xor ac_simps)

lemma length_MixColumns [simp]: "length (MixColumns s) = length s" "length (InvMixColumns s) = length s"
  by (induction s rule: MixColumns.induct) simp_all

lemma length_ShiftRows [simp]: "length (ShiftRows s) = 16" "length (InvShiftRows s) = 16"
  by (simp_all add: ShiftRows_def InvShiftRows_def)

lemma list16: "length s = 16 \<Longrightarrow> s = map ((!) s) [0, 1, 2, 3, 4, 5, 6, 7, 8, 9, 10, 11, 12, 13, 14, 15]"
  by (rule nth_equalityI) (auto simp: less_Suc_eq numeral_eq_Suc)

lemma InvShiftRows: "length s = 16 \<Longrightarrow> InvShiftRows (ShiftRows s) = s"
  by (subst (2) list16) (simp_all add: ShiftRows_def InvShiftRows_def)

lemma round_dec_enc:
  assumes "length k = 16" "length s = 16"
  shows "round_dec k (round_enc k s) = s" "last_dec k (last_enc k s) = s"
  using assms by (simp_all add: round_dec_def round_enc_def last_dec_def last_enc_def xor_bytes_twice InvShiftRows comp_def)

lemma round_length: "length k = 16 \<Longrightarrow> length s = 16 \<Longrightarrow> length (round_enc k s) = 16"
  "length k = 16 \<Longrightarrow> length s = 16 \<Longrightarrow> length (last_enc k s) = 16"
  "length k = 16 \<Longrightarrow> length s = 16 \<Longrightarrow> length (round_dec k s) = 16"
  "length k = 16 \<Longrightarrow> length s = 16 \<Longrightarrow> length (last_dec k s) = 16"
  by (simp_all add: round_enc_def last_enc_def round_dec_def last_dec_def)

lemma rounds_length: "(\<And>k. k \<in> set ks \<Longrightarrow> length k = 16) \<Longrightarrow> length s = 16 \<Longrightarrow> length (fold round_enc ks s) = 16"
  "(\<And>k. k \<in> set ks \<Longrightarrow> length k = 16) \<Longrightarrow> length s = 16 \<Longrightarrow> length (fold round_dec ks s) = 16"
  by (induction ks arbitrary: s) (simp_all add: round_length)

lemma rounds_dec_enc:
  "(\<And>k. k \<in> set ks \<Longrightarrow> length k = 16) \<Longrightarrow> length s = 16 \<Longrightarrow> fold round_dec (rev ks) (fold round_enc ks s) = s"
  by (induction ks arbitrary: s) (simp_all add: round_dec_enc round_length)

lemma expand_key_length: "length k = 16 \<Longrightarrow> k' \<in> set (expand_key n rcon k) \<Longrightarrow> length k' = 16"
  by (induction n rcon k rule: expand_key.induct) (auto simp: Let_def next_round_key_def)

lemma expand_key_nonempty: "expand_key (Suc n) rcon k \<noteq> []"
  by (simp add: Let_def)

lemma round_keys:
  assumes "length key = 16"
  shows "length (last (expand_key 10 1 key)) = 16" "k \<in> set (butlast (expand_key 10 1 key)) \<Longrightarrow> length k = 16"
proof -
  have "expand_key 10 1 key \<noteq> []" using expand_key_nonempty [of 9] by simp
  then show "length (last (expand_key 10 1 key)) = 16"
    by (rule expand_key_length [OF assms last_in_set])
  show "length k = 16" if "k \<in> set (butlast (expand_key 10 1 key))"
    using that by (rule expand_key_length [OF assms in_set_butlastD])
qed

lemma aes_length:
  assumes "length key = 16" "length s = 16"
  shows "length (aes_Encrypt key s) = 16" "length (aes_Decrypt key s) = 16"
  using assms round_keys [OF assms(1)] rounds_length(2) [of "rev (butlast (expand_key 10 1 key))"]
  by (simp_all add: aes_Encrypt_def aes_Decrypt_def Let_def round_length rounds_length(1))

lemma aes_Decrypt_Encrypt:
  assumes "length key = 16" "length s = 16"
  shows "aes_Decrypt key (aes_Encrypt key s) = s"
  using assms round_keys [OF assms(1)]
  by (simp add: aes_Encrypt_def aes_Decrypt_def Let_def round_dec_enc rounds_length rounds_dec_enc xor_bytes_twice)

end
