(* ===== verification/PKCS.thy ===== *)
theory PKCS
  imports GoValues
begin

text \<open>
  The padding of \<open>src/pkcs.go\<close>. Lengths and block sizes are Go ints; the only arithmetic on them
  is a remainder and differences below the block size, so they are modelled as integers.
  \<open>append\<close> and slicing return lists: no caller keeps the underlying array.
\<close>

definition Unpadding :: "bytes \<Rightarrow> int \<Rightarrow> (error + bytes) outcome" where
  "Unpadding src blockSize =
     (let srcLen = int (length src) in
      if srcLen - 1 < 0 then Panic ''index out of range''
      else
        let paddingLen = uint (src ! nat (srcLen - 1)) in
        if paddingLen \<ge> srcLen \<or> paddingLen > blockSize then Ret (Inl ErrPaddingSize)
        else Ret (Inr (take (nat (srcLen - paddingLen)) src)))"

text \<open>\<open>%\<close> panics on a zero divisor and takes the sign of the dividend; \<open>bytes.Repeat\<close> panics on a negative count.\<close>

definition Padding :: "bytes \<Rightarrow> int \<Rightarrow> bytes outcome" where
  "Padding src blockSize =
     (let srcLen = int (length src) in
      if blockSize = 0 then Panic ''integer divide by zero''
      else
        let padLen = blockSize - srcLen smod blockSize in
        if padLen < 0 then Panic ''bytes: negative Repeat count''
        else Ret (src @ replicate (nat padLen) (word_of_int padLen)))"

lemma smod_pos: "0 \<le> n \<Longrightarrow> 0 < b \<Longrightarrow> n smod b = n mod (b :: int)"
  by (cases "n = 0") (simp_all add: signed_modulo_int_def signed_divide_int_def minus_div_mult_eq_mod [symmetric] sgn_1_pos)

text \<open>With a positive block size there is a number of padding bytes from 1 to the block size.\<close>

lemma Padding_pos:
  assumes "0 < b"
  obtains n where "Padding src b = Ret (src @ replicate n (word_of_nat n))" "0 < n" "int n \<le> b"
    "(int (length src) + int n) mod b = 0"
proof
  let ?n = "b - int (length src) mod b"
  have m: "0 < ?n" "?n \<le> b" using assms by simp_all
  then show "0 < nat ?n" "int (nat ?n) \<le> b" by linarith+
  from m show "Padding src b = Ret (src @ replicate (nat ?n) (word_of_nat (nat ?n)))"
  proof -
    have "word_of_int ?n = (word_of_nat (nat ?n) :: byte)"
      using m of_int_of_nat_eq [of "nat ?n", where 'a = byte] by (simp only: nat_0_le less_imp_le)
    moreover have "\<not> ?n < 0" "b \<noteq> 0" "int (length src) smod b = int (length src) mod b"
      using m(1) assms by (linarith, simp_all add: smod_pos)
    ultimately show ?thesis by (simp only: Padding_def Let_def if_False)
  qed
  have "(int (length src) + ?n) mod b = 0"
    by (simp add: mod_diff_right_eq algebra_simps mod_simps)
  with m show "(int (length src) + int (nat ?n)) mod b = 0" by simp
qed

lemma Unpadding_snoc:
  "Unpadding (xs @ [m]) b = Ret (if uint m \<le> int (length xs) \<and> uint m \<le> b
     then Inr (take (Suc (length xs) - unat m) (xs @ [m])) else Inl ErrPaddingSize)"
proof -
  have "nat (1 + int (length xs) - uint m) = Suc (length xs) - unat m"
    using nat_diff_distrib' [of "int (Suc (length xs))" "uint m"] by (simp add: nat_add_distrib)
  then show ?thesis by (auto simp: Unpadding_def Let_def nth_append)
qed

lemma Unpadding_padded:
  assumes "0 < n" "int n \<le> b" "b \<le> 255"
  shows "Unpadding (src @ replicate n (word_of_nat n)) b = Ret (if src = [] then Inl ErrPaddingSize else Inr src)"
proof -
  have u: "uint (word_of_nat n :: byte) = int n" "unat (word_of_nat n :: byte) = n"
    using assms(2,3) by (simp_all add: unsigned_of_nat take_bit_nat_eq_self)
  have "src @ replicate n (word_of_nat n) = (src @ replicate (n - 1) (word_of_nat n)) @ [word_of_nat n :: byte]"
    using assms(1) by (cases n) (simp_all add: replicate_append_same)
  moreover have "Unpadding ((src @ replicate (n - 1) (word_of_nat n)) @ [word_of_nat n]) b
      = Ret (if src = [] then Inl ErrPaddingSize else Inr src)"
  proof -
    have "int n \<le> int (length (src @ replicate (n - 1) (word_of_nat n :: byte))) \<longleftrightarrow> src \<noteq> []"
      using assms(1) by (cases src) auto
    moreover have "Suc (length (src @ replicate (n - 1) (word_of_nat n :: byte))) - n = length src" using assms(1) by simp
    ultimately show ?thesis using assms(2) unfolding Unpadding_snoc u by simp
  qed
  ultimately show ?thesis by simp
qed

text \<open>
  C16: Padding and unpadding with a block size of at most 255: the padded text is a positive number of
  whole blocks, between 1 and \<open>b\<close> bytes longer than the source, and unpadding gives back the source
  unless it is empty: an empty source is padded to one block, which unpadding rejects with
  \<open>ErrPaddingSize\<close>.
\<close>

theorem Padding_roundtrip:
  assumes "0 < b" "b \<le> 255"
  shows "\<exists>p. Padding src b = Ret p \<and> int (length p) mod b = 0
    \<and> length src < length p \<and> int (length p) \<le> int (length src) + b \<and> take (length src) p = src
    \<and> Unpadding p b = Ret (if src = [] then Inl ErrPaddingSize else Inr src)"
proof -
  obtain n where n: "Padding src b = Ret (src @ replicate n (word_of_nat n))" "0 < n" "int n \<le> b"
    "(int (length src) + int n) mod b = 0"
    using Padding_pos [OF assms(1)] .
  with Unpadding_padded [OF n(2,3) assms(2), of src] show ?thesis by auto
qed

theorem Padding_roundtrip_witness:
  "\<exists>p. Padding [1, 2, 3] 16 = Ret p \<and> int (length p) mod 16 = 0 \<and> Unpadding p 16 = Ret (Inr [1, 2, 3])"
  using Padding_roundtrip [of 16 "[1, 2, 3]"] by auto

text \<open>
  \<open>Unpadding\<close> on any input: it panics exactly on the empty input, and otherwise looks only at the
  last byte \<open>m\<close>: if \<open>m\<close> is below the length and at most the block size it drops \<open>m\<close> bytes,
  whatever they are (and none if \<open>m\<close> is 0), else it returns \<open>ErrPaddingSize\<close>.
\<close>

theorem Unpadding_cases:
  "(panics (Unpadding src b) \<longleftrightarrow> src = [])
   \<and> (\<forall>xs m. src = xs @ [m] \<longrightarrow>
        Unpadding src b = Ret (if uint m \<le> int (length xs) \<and> uint m \<le> b
          then Inr (take (Suc (length xs) - unat m) src) else Inl ErrPaddingSize))"
  by (cases src rule: rev_cases) (auto simp: Unpadding_snoc, simp add: Unpadding_def)

theorem Unpadding_cases_witness: "Unpadding [9, 9, 7, 2] 16 = Ret (Inr [9, 9])"
  using Unpadding_cases [of "[9, 9, 7, 2]" 16] by (auto dest: spec [of _ "[9, 9, 7]"])

end
