(* ===== verification/Encryption.thy ===== *)
theory Encryption
  imports AES PKCS
begin

text \<open>
  Encryption of byte arrays, \<open>src/generic.go\<close>: \<open>keyAndIV\<close>, \<open>encryptByteArray\<close> and
  \<open>decryptByteArray\<close>, on CBC mode over a block cipher. What CBC needs of the cipher is the locale
  \<open>block_cipher\<close>, interpreted on AES.
\<close>

section \<open>Cipher block chaining\<close>

fun cbc_encrypt :: "(bytes \<Rightarrow> bytes) \<Rightarrow> bytes \<Rightarrow> bytes \<Rightarrow> bytes" where
  "cbc_encrypt enc iv src =
     (if src = [] then [] else let c = enc (xor_bytes (take 16 src) iv) in c @ cbc_encrypt enc c (drop 16 src))"

fun cbc_decrypt :: "(bytes \<Rightarrow> bytes) \<Rightarrow> bytes \<Rightarrow> bytes \<Rightarrow> bytes" where
  "cbc_decrypt dec iv src =
     (if src = [] then [] else xor_bytes (dec (take 16 src)) iv @ cbc_decrypt dec (take 16 src) (drop 16 src))"

declare cbc_encrypt.simps [simp del] cbc_decrypt.simps [simp del]

text \<open>\<open>CryptBlocks\<close> panics when the input is not a number of whole blocks.\<close>

definition CryptBlocks :: "(bytes \<Rightarrow> bytes \<Rightarrow> bytes) \<Rightarrow> bytes \<Rightarrow> bytes \<Rightarrow> bytes outcome" where
  "CryptBlocks mode iv src =
     (if length src mod 16 \<noteq> 0 then Panic ''crypto/cipher: input not full blocks'' else Ret (mode iv src))"

locale block_cipher =
  fixes enc dec :: "bytes \<Rightarrow> bytes \<Rightarrow> bytes" and valid :: "bytes \<Rightarrow> bool"
  assumes enc_length: "valid k \<Longrightarrow> length b = 16 \<Longrightarrow> length (enc k b) = 16"
    and dec_enc: "valid k \<Longrightarrow> length b = 16 \<Longrightarrow> dec k (enc k b) = b"
begin

lemma cbc_roundtrip:
  assumes k: "valid k"
  shows "length iv = 16 \<Longrightarrow> length src mod 16 = 0 \<Longrightarrow>
    length (cbc_encrypt (enc k) iv src) = length src \<and> cbc_decrypt (dec k) iv (cbc_encrypt (enc k) iv src) = src"
proof (induction "enc k" iv src rule: cbc_encrypt.induct)
  case (1 iv src)
  show ?case
  proof (cases "src = []")
    case False
    then have len: "16 \<le> length src" using 1(3) by (cases "length src < 16") auto
    define b where "b = take 16 src"
    define c where "c = enc k (xor_bytes b iv)"
    have b: "length b = 16" "length (xor_bytes b iv) = 16" using len 1(2) by (simp_all add: b_def)
    have c: "length c = 16" "dec k c = xor_bytes b iv" using b(2) enc_length [OF k] dec_enc [OF k] by (simp_all add: c_def)
    have enc: "cbc_encrypt (enc k) iv src = c @ cbc_encrypt (enc k) c (drop 16 src)"
      using False by (subst cbc_encrypt.simps) (simp add: c_def b_def Let_def)
    have "length (drop 16 src) mod 16 = 0" using 1(3) len by (simp add: mod_if)
    then have ih: "length (cbc_encrypt (enc k) c (drop 16 src)) = length (drop 16 src)"
      "cbc_decrypt (dec k) c (cbc_encrypt (enc k) c (drop 16 src)) = drop 16 src"
      using 1(1) [OF False c_def [unfolded b_def]] c(1) by simp_all
    have "c \<noteq> []" using c(1) by auto
    then have "cbc_decrypt (dec k) iv (cbc_encrypt (enc k) iv src) = xor_bytes (xor_bytes b iv) iv @ drop 16 src"
      unfolding enc by (subst cbc_decrypt.simps) (simp add: c ih)
    then show ?thesis
      using ih(1) c(1) len b(1) 1(2) by (simp add: enc xor_bytes_twice b_def)
  qed (simp add: cbc_encrypt.simps cbc_decrypt.simps)
qed

end

interpretation aes: block_cipher aes_Encrypt aes_Decrypt "\<lambda>k. length k = 16"
  by unfold_locales (simp_all add: aes_length aes_Decrypt_Encrypt)

section \<open>Key and initialisation vector\<close>

text \<open>
  \<open>key\<close> and \<open>IV\<close> are slices of one array, \<open>tmp[:16]\<close>, and the loop swaps its elements in place, so
  both see the swaps.
\<close>

primrec swap_loop :: "nat \<Rightarrow> bytes \<Rightarrow> bytes" where
  "swap_loop 0 IV = IV"
| "swap_loop (Suc i) IV = (let opp = 16 - 1 - i in swap_loop i (IV[i := IV ! opp, opp := IV ! i]))"

definition keyAndIV :: "bytes \<Rightarrow> error + bytes \<times> bytes" where
  "keyAndIV secret =
     (if length secret < 16 then Inl (Errorf ''cache.keyAndIV: secret is too short - must be a min len of 16'' [])
      else let tmp = swap_loop (16 div 2) secret in Inr (take 16 tmp, take 16 tmp))"

text \<open>\<open>aes.NewCipher\<close>; \<open>keyAndIV\<close> gives keys of 16 bytes only.\<close>

definition NewCipher :: "bytes \<Rightarrow> error + bytes" where
  "NewCipher key = (if length key = 16 then Inr key
     else Inl (ErrExt (Sprintf ''crypto/aes: invalid key size %d'' [show_nat (length key)])))"

definition encryptByteArray :: "bytes \<Rightarrow> bytes \<Rightarrow> (error + bytes) outcome" where
  "encryptByteArray data secret =
     (case keyAndIV secret of
        Inl err \<Rightarrow> Ret (Inl err)
      | Inr (key, IV) \<Rightarrow>
          (case NewCipher key of
             Inl err \<Rightarrow> Ret (Inl err)
           | Inr block \<Rightarrow>
               (case CryptBlocks (cbc_encrypt (aes_Encrypt block)) IV data of
                  Panic p \<Rightarrow> Panic p
                | Ret ciphertext \<Rightarrow> Ret (Inr ciphertext))))"

definition decryptByteArray :: "bytes \<Rightarrow> bytes \<Rightarrow> (error + bytes) outcome" where
  "decryptByteArray data secret =
     (case keyAndIV secret of
        Inl err \<Rightarrow> Ret (Inl err)
      | Inr (key, IV) \<Rightarrow>
          (case NewCipher key of
             Inl err \<Rightarrow> Ret (Inl err)
           | Inr block \<Rightarrow>
               (case CryptBlocks (cbc_decrypt (aes_Decrypt block)) IV data of
                  Panic p \<Rightarrow> Panic p
                | Ret ciphertext \<Rightarrow> Ret (Inr ciphertext))))"

lemma keyAndIV_short:
  "length secret < 16 \<Longrightarrow>
    keyAndIV secret = Inl (Errorf ''cache.keyAndIV: secret is too short - must be a min len of 16'' [])"
  by (simp add: keyAndIV_def)

lemma keyAndIV_long:
  assumes "16 \<le> length secret"
  shows "keyAndIV secret = Inr (rev (take 16 secret), rev (take 16 secret))"
proof -
  define s where "s = take 16 secret"
  have s: "length s = 16" "secret = s @ drop 16 secret" using assms by (simp_all add: s_def)
  have "take 16 (swap_loop 8 (s @ drop 16 secret)) = rev s"
    by (subst (1 2) list16 [OF s(1)]) (simp add: numeral_eq_Suc)
  with assms s(2) show ?thesis by (simp add: keyAndIV_def s_def Let_def)
qed

lemma crypt_long:
  assumes "16 \<le> length secret"
  defines "key \<equiv> rev (take 16 secret)"
  shows "encryptByteArray data secret =
      (if length data mod 16 = 0 then Ret (Inr (cbc_encrypt (aes_Encrypt key) key data))
       else Panic ''crypto/cipher: input not full blocks'')"
    "decryptByteArray data secret =
      (if length data mod 16 = 0 then Ret (Inr (cbc_decrypt (aes_Decrypt key) key data))
       else Panic ''crypto/cipher: input not full blocks'')"
  using assms by (simp_all add: encryptByteArray_def decryptByteArray_def keyAndIV_long NewCipher_def CryptBlocks_def)

lemma crypt_roundtrip:
  assumes "16 \<le> length secret" "length data mod 16 = 0"
  obtains c where "encryptByteArray data secret = Ret (Inr c)" "length c = length data"
    "decryptByteArray c secret = Ret (Inr data)"
  using aes.cbc_roundtrip [of "rev (take 16 secret)" "rev (take 16 secret)" data] assms by (simp add: crypt_long)

text \<open>
  The key and the initialisation vector: a secret shorter than 16 bytes is an error; otherwise
  both are the first 16 bytes of the secret in reverse order, so they are always the same bytes,
  and what follows the first 16 bytes of a secret has no influence on what encryption gives.
\<close>

theorem keyAndIV_same:
  "(length secret < 16 \<longrightarrow>
      keyAndIV secret = Inl (Errorf ''cache.keyAndIV: secret is too short - must be a min len of 16'' []))
   \<and> (16 \<le> length secret \<longrightarrow> keyAndIV secret = Inr (rev (take 16 secret), rev (take 16 secret))
        \<and> encryptByteArray data (secret @ tail) = encryptByteArray data secret)"
  by (simp add: keyAndIV_short keyAndIV_long crypt_long)

theorem keyAndIV_same_witness:
  "keyAndIV (bytes_of_string ''0123456789abcdefXYZ'') = Inr (bytes_of_string ''fedcba9876543210'', bytes_of_string ''fedcba9876543210'')
   \<and> encryptByteArray [] (bytes_of_string ''0123456789abcdefXYZ'' @ [1]) = encryptByteArray [] (bytes_of_string ''0123456789abcdefXYZ'')"
  using keyAndIV_same [of "bytes_of_string ''0123456789abcdefXYZ''" "[]" "[1]"] by (simp add: bytes_of_string_def)

text \<open>
  C15: Encrypting and decrypting byte arrays: with a secret of at least 16 bytes and whole blocks of
  data, encryption returns as many bytes and decryption gives the data back; data that is not
  whole blocks makes both panic; a shorter secret is an error of both, whatever the data.
\<close>

theorem byte_array_roundtrip:
  "(16 \<le> length secret \<and> length data mod 16 = 0 \<longrightarrow>
      (\<exists>c. encryptByteArray data secret = Ret (Inr c) \<and> length c = length data \<and> decryptByteArray c secret = Ret (Inr data)))
   \<and> (16 \<le> length secret \<and> length data mod 16 \<noteq> 0 \<longrightarrow>
      panics (encryptByteArray data secret) \<and> panics (decryptByteArray data secret))
   \<and> (length secret < 16 \<longrightarrow>
      (\<exists>e. encryptByteArray data secret = Ret (Inl e) \<and> decryptByteArray data secret = Ret (Inl e)))"
proof -
  have "\<exists>c. encryptByteArray data secret = Ret (Inr c) \<and> length c = length data \<and> decryptByteArray c secret = Ret (Inr data)"
    if "16 \<le> length secret" "length data mod 16 = 0"
    using crypt_roundtrip [OF that] by metis
  moreover have "panics (encryptByteArray data secret) \<and> panics (decryptByteArray data secret)"
    if "16 \<le> length secret" "length data mod 16 \<noteq> 0"
    using that by (simp add: crypt_long)
  moreover have "\<exists>e. encryptByteArray data secret = Ret (Inl e) \<and> decryptByteArray data secret = Ret (Inl e)"
    if "length secret < 16"
    using that by (simp add: encryptByteArray_def decryptByteArray_def keyAndIV_short)
  ultimately show ?thesis by simp
qed

theorem byte_array_roundtrip_witness:
  "\<exists>c. encryptByteArray (replicate 32 7) (replicate 20 65) = Ret (Inr c) \<and> length c = 32
     \<and> decryptByteArray c (replicate 20 65) = Ret (Inr (replicate 32 7))"
  using byte_array_roundtrip [of "replicate 20 65" "replicate 32 7"] by simp

end
