(* ===== verification/GenericCache.thy ===== *)
theory GenericCache
  imports Encryption Digest InMemoryStore
begin

text \<open>
  The generic cache, \<open>src/generic.go\<close>: a front end for any \<open>persistence.CacheStore\<close>, with default
  expiry, key signatures, an optional separate read cache and optional encryption of entries.

  The state \<open>'w\<close> behind the stores is threaded together with the log. A log line keeps its format
  and arguments; only the texts of errors are rendered, because the code compares them. The gob
  encoder and decoder are parameters: \<open>enc\<close> and \<open>dec\<close> encode a value of interface type.
\<close>

section \<open>Types\<close>

text \<open>\<open>Type\<close> and \<open>Level\<close> are ints with named constants.\<close>

definition ReadOnly :: int64 where "ReadOnly = 0"
definition Writable :: int64 where "Writable = 1"
definition L1 :: int64 where "L1 = 1"
definition L2 :: int64 where "L2 = 2"

datatype logarg = LStr string | LInt int64 | LDur duration | LTime int64 | LBool bool
datatype logtext = Text string | Fmt string "logarg list"
datatype logline = Debug string logtext | ErrorLine string logtext | Stderr logtext

record 'w world =
  w_store :: 'w
  w_log :: "logline list"

text \<open>The methods of \<open>*persistence.RedisStore\<close> beyond the interface.\<close>

record 'w RedisMethods =
  r_ExpireAt :: "Time \<Rightarrow> string \<Rightarrow> uint64 \<Rightarrow> 'w method_err"
  r_GetExpiresIn :: "Time \<Rightarrow> string \<Rightarrow> 'w method_num"
  r_IncrementAtomic :: "Time \<Rightarrow> string \<Rightarrow> uint64 \<Rightarrow> 'w method_num"
  r_IncrementCheckSet :: "Time \<Rightarrow> string \<Rightarrow> uint64 \<Rightarrow> 'w method_num"

text \<open>
  The dynamic value of the field \<open>Cache\<close>: a store, a \<open>*RedisStore\<close> (which is a store too), or
  something that is no store. A nil field is \<open>None\<close>.
\<close>

datatype 'w iface = StoreIface "'w CacheStore" | RedisIface "'w CacheStore" "'w RedisMethods" | OtherIface

fun as_store :: "'w iface \<Rightarrow> 'w CacheStore option" where
  "as_store (StoreIface st) = Some st"
| "as_store (RedisIface st r) = Some st"
| "as_store OtherIface = None"

fun as_redis :: "'w iface \<Rightarrow> 'w RedisMethods option" where
  "as_redis (RedisIface st r) = Some r"
| "as_redis _ = None"

text \<open>\<open>ReadCache\<close> points to another generic cache.\<close>

datatype 'w GenericCache = GenericCache (gc_Cache: "'w iface option") (gc_ReadCache: "'w GenericCache option")
  (gc_sharedSecret: bytes) (gc_DefaultExp: duration) (gc_cType: int64) (gc_cLevel: int64)
  (gc_KeyPrefix: "bytes option") (gc_Logger: "string option") (gc_EncryptData: bool)

section \<open>Construction\<close>

definition NewCacheWithPool ::
  "'w iface option \<Rightarrow> int64 \<Rightarrow> int64 \<Rightarrow> string \<Rightarrow> int64 \<Rightarrow> bytes option \<Rightarrow> bool \<Rightarrow> 'w GenericCache" where
  "NewCacheWithPool cachePool cType cLevel sharedSecret expirySeconds keyPrefix encryptData =
     (let storeExp = expirySeconds * time_Second in
      GenericCache cachePool None (bytes_of_string sharedSecret) storeExp cType cLevel keyPrefix None encryptData)"

definition NewCacheWithMultiPools ::
  "'w iface option \<Rightarrow> 'w iface option \<Rightarrow> int64 \<Rightarrow> string \<Rightarrow> int64 \<Rightarrow> bytes option \<Rightarrow> bool \<Rightarrow> 'w GenericCache" where
  "NewCacheWithMultiPools writeCachePool readCachePool cLevel sharedSecret expirySeconds keyPrefix encryptData =
     (case NewCacheWithPool writeCachePool Writable cLevel sharedSecret expirySeconds keyPrefix encryptData of
        GenericCache c _ s d t l p lg e \<Rightarrow>
          GenericCache c (Some (NewCacheWithPool readCachePool ReadOnly cLevel sharedSecret expirySeconds keyPrefix encryptData))
            s d t l p lg e)"

fun set_Logger :: "string option \<Rightarrow> 'w GenericCache \<Rightarrow> 'w GenericCache" where
  "set_Logger lg (GenericCache c r s d t l p _ e) = GenericCache c r s d t l p lg e"

section \<open>Keys, logging and encryption\<close>

definition GetKey :: "'w GenericCache \<Rightarrow> bytes \<Rightarrow> string" where
  "GetKey c entryData =
     (case gc_KeyPrefix c of
        Some prefix \<Rightarrow> Sprintf ''%s::%s'' [string_of_bytes prefix, entrySignature entryData (gc_sharedSecret c)]
      | None \<Rightarrow> entrySignature entryData (gc_sharedSecret c))"

definition logDebug :: "'w GenericCache \<Rightarrow> logtext \<Rightarrow> 'w world \<Rightarrow> 'w world" where
  "logDebug c entry w = (case gc_Logger c of Some lg \<Rightarrow> w\<lparr>w_log := w_log w @ [Debug lg entry]\<rparr> | None \<Rightarrow> w)"

definition logError :: "'w GenericCache \<Rightarrow> logtext \<Rightarrow> 'w world \<Rightarrow> 'w world" where
  "logError c entry w =
     (case gc_Logger c of
        Some lg \<Rightarrow> w\<lparr>w_log := w_log w @ [ErrorLine lg entry]\<rparr>
      | None \<Rightarrow> w\<lparr>w_log := w_log w @ [Stderr entry]\<rparr>)"

text \<open>The arguments \<open>c.cLevel, c.cType\<close> that start every message, and the two messages that recur.\<close>

abbreviation lt :: "'w GenericCache \<Rightarrow> logarg list" where
  "lt c \<equiv> [LInt (gc_cLevel c), LInt (gc_cType c)]"

definition no_cache :: "string \<Rightarrow> 'w GenericCache \<Rightarrow> error" where
  "no_cache method c =
     Errorf (method @ '': error - no L%v/T%v cache intialized'') [show_int (gc_cLevel c), show_int (gc_cType c)]"

definition log_failed :: "string \<Rightarrow> 'w GenericCache \<Rightarrow> error \<Rightarrow> 'w world \<Rightarrow> 'w world" where
  "log_failed method c err w = logError c (Fmt (method @ '': L%v/T%v error == %s'') (lt c @ [LStr (Error err)])) w"

definition debugEntry :: "'w GenericCache \<Rightarrow> string \<Rightarrow> GenericCacheEntry \<Rightarrow> 'w world \<Rightarrow> 'w world" where
  "debugEntry c key e w =
     logDebug c (Fmt ''GenericCache.debugEntry: L%v/T%v, Key == %s, TimeAdded == %s, ExpiresAt == %s''
       (lt c @ [LStr key, LTime (TimeAdded e), LTime (ExpiresAt e)])) w"

definition encryptEntry :: "'w GenericCache \<Rightarrow> bytes \<Rightarrow> 'w world \<Rightarrow> (error + bytes) outcome \<times> 'w world" where
  "encryptEntry c data w =
     (if gc_EncryptData c then
        (case Padding data 16 of
           Panic p \<Rightarrow> (Panic p, w)
         | Ret paddedData \<Rightarrow>
             (case encryptByteArray paddedData (gc_sharedSecret c) of
                Panic p \<Rightarrow> (Panic p, w)
              | Ret (Inl cryptErr) \<Rightarrow>
                  (let err = Errorf ''GenericCache.encryptEntry: can't encrypt data: %s'' [Error cryptErr]
                   in (Ret (Inl err), logError c (Text (Error err)) w))
              | Ret (Inr encrypted) \<Rightarrow> (Ret (Inr encrypted), w)))
      else (Ret (Inr data), w))"

definition decryptEntry :: "'w GenericCache \<Rightarrow> bytes \<Rightarrow> 'w world \<Rightarrow> (error + bytes) outcome \<times> 'w world" where
  "decryptEntry c data w =
     (if gc_EncryptData c then
        (case decryptByteArray data (gc_sharedSecret c) of
           Panic p \<Rightarrow> (Panic p, w)
         | Ret (Inl cryptErr) \<Rightarrow>
             (let err = Errorf ''GenericCache.decryptEntry: can't decrypt data: %s'' [Error cryptErr]
              in (Ret (Inl err), logError c (Text (Error err)) w))
         | Ret (Inr decryptedData) \<Rightarrow>
             (case Unpadding decryptedData 16 of
                Panic p \<Rightarrow> (Panic p, w)
              | Ret (Inl cryptErr) \<Rightarrow>
                  (let err = Errorf ''GenericCache.decryptEntry: can't unpadding error: %s'' [Error cryptErr]
                   in (Ret (Inl err), logError c (Text (Error err)) w))
              | Ret (Inr unpaddedData) \<Rightarrow> (Ret (Inr unpaddedData), w)))
      else (Ret (Inr data), w))"

definition gc_NewGenericCacheEntry :: "'w GenericCache \<Rightarrow> Time \<Rightarrow> godata \<Rightarrow> duration \<Rightarrow> GenericCacheEntry" where
  "gc_NewGenericCacheEntry c now data exp = NewGenericCacheEntry (gc_DefaultExp c) now data exp"

section \<open>Calls of the store\<close>

text \<open>A method call on the field \<open>Cache\<close> after the assertion to the interface, which panics if it fails.\<close>

definition on_store :: "('w CacheStore \<Rightarrow> 'w \<Rightarrow> 'a outcome \<times> 'w) \<Rightarrow> 'w iface option \<Rightarrow> 'w world \<Rightarrow> 'a outcome \<times> 'w world" where
  "on_store call cache w =
     (case Option.bind cache as_store of
        None \<Rightarrow> (Panic ''interface conversion'', w)
      | Some st \<Rightarrow> (case call st (w_store w) of (r, s) \<Rightarrow> (r, w\<lparr>w_store := s\<rparr>)))"

definition on_redis :: "('w RedisMethods \<Rightarrow> 'w \<Rightarrow> 'a outcome \<times> 'w) \<Rightarrow> 'w iface option \<Rightarrow> 'w world \<Rightarrow> 'a outcome \<times> 'w world" where
  "on_redis call cache w =
     (case Option.bind cache as_redis of
        None \<Rightarrow> (Panic ''interface conversion'', w)
      | Some r \<Rightarrow> (case call r (w_store w) of (x, s) \<Rightarrow> (x, w\<lparr>w_store := s\<rparr>)))"

text \<open>\<open>if err := ...; err != nil { log; return err }; return nil\<close> for the two shapes of results.\<close>

definition report_err :: "string \<Rightarrow> 'w GenericCache \<Rightarrow> error option outcome \<times> 'w world \<Rightarrow> error option outcome \<times> 'w world" where
  "report_err method c r =
     (case r of
        (Ret (Some err), w) \<Rightarrow> (Ret (Some err), log_failed method c err w)
      | (Ret None, w) \<Rightarrow> (Ret None, w)
      | (Panic p, w) \<Rightarrow> (Panic p, w))"

definition report_num :: "string \<Rightarrow> 'w GenericCache \<Rightarrow> (uint64 \<times> error option) outcome \<times> 'w world \<Rightarrow> (uint64 \<times> error option) outcome \<times> 'w world" where
  "report_num method c r =
     (case r of
        (Ret (n, Some err), w) \<Rightarrow> (Ret (0, Some err), log_failed method c err w)
      | (Ret (n, None), w) \<Rightarrow> (Ret (n, None), w)
      | (Panic p, w) \<Rightarrow> (Panic p, w))"

section \<open>Methods\<close>

text \<open>\<open>now0\<close> is the method's own clock reading, \<open>now\<close> the store's.\<close>

definition gc_AddExistingEntry ::
  "Time \<Rightarrow> Time \<Rightarrow> string \<Rightarrow> GenericCacheEntry \<Rightarrow> int64 \<Rightarrow> 'w GenericCache \<Rightarrow> 'w world \<Rightarrow> error option outcome \<times> 'w world" where
  "gc_AddExistingEntry now0 now key entry expiresAt c w =
     (let w1 = logDebug c (Fmt ''GenericCache.AddExistingEntry: L%v/T%v key == %s'' (lt c @ [LStr key])) w;
          expCacheAt = (expiresAt - t_sec now0) * time_Second
      in report_err ''GenericCache.AddExistingEntry'' c
           (on_store (\<lambda>st. m_Set st now key (box_entry entry) expCacheAt) (gc_Cache c) w1))"

definition gc_Add ::
  "Time \<Rightarrow> string \<Rightarrow> godata \<Rightarrow> duration \<Rightarrow> 'w GenericCache \<Rightarrow> 'w world \<Rightarrow> error option outcome \<times> 'w world" where
  "gc_Add now key data exp c w =
     (if gc_Cache c = None then
        (let err = no_cache ''GenericCache.Add'' c in (Ret (Some err), logError c (Text (Error err)) w))
      else
        let w1 = logDebug c (Fmt ''GenericCache.Add: L%v/T%v key == %s'' (lt c @ [LStr key])) w;
            t = (if exp \<noteq> 0 then exp else gc_DefaultExp c)
        in report_err ''GenericCache.Add'' c (on_store (\<lambda>st. m_Add st now key data t) (gc_Cache c) w1))"

definition gc_Delete :: "Time \<Rightarrow> string \<Rightarrow> 'w GenericCache \<Rightarrow> 'w world \<Rightarrow> error option outcome \<times> 'w world" where
  "gc_Delete now key c w =
     (if gc_Cache c = None then
        (let err = no_cache ''GenericCache.Delete'' c in (Ret (Some err), logError c (Text (Error err)) w))
      else
        let w1 = logDebug c (Fmt ''GenericCache.Delete: L%v/T%v key == %s'' (lt c @ [LStr key])) w
        in (case on_store (\<lambda>st. m_Delete st now key) (gc_Cache c) w1 of
              (Ret (Some err), w2) \<Rightarrow>
                if Error err \<noteq> Error ErrCacheMiss then (Ret (Some err), log_failed ''GenericCache.Delete'' c err w2)
                else (Ret (Some ErrCacheMiss), w2)
            | (Ret None, w2) \<Rightarrow> (Ret None, w2)
            | (Panic p, w2) \<Rightarrow> (Panic p, w2)))"

text \<open>The block of \<open>Get\<close> that calls the store and turns a miss into the sentinel error.\<close>

definition fetch ::
  "Time \<Rightarrow> string \<Rightarrow> gotype \<Rightarrow> 'w GenericCache \<Rightarrow> 'w world \<Rightarrow> (error option \<times> godata option) outcome \<times> 'w world" where
  "fetch now key ty c w =
     (case on_store (\<lambda>st. m_Get st now key ty) (gc_Cache c) w of
        (Ret (Some err, out), w1) \<Rightarrow>
          if Error err \<noteq> Error ErrCacheMiss then (Ret (Some err, out), log_failed ''GenericCache.Get'' c err w1)
          else (Ret (Some ErrCacheMiss, out), w1)
      | (Ret (None, out), w1) \<Rightarrow> (Ret (None, out), w1)
      | (Panic p, w1) \<Rightarrow> (Panic p, w1))"

text \<open>
  \<open>Get\<close>: \<open>ty\<close> is the dynamic type of \<open>value\<close>; the result has what was written through it. With
  encryption the entry that the store wrote is decrypted and decoded in place.
\<close>

definition unseal ::
  "(bytes \<Rightarrow> error + godata) \<Rightarrow> 'w GenericCache \<Rightarrow> GenericCacheEntry \<Rightarrow> 'w world \<Rightarrow> (error option \<times> godata option) outcome \<times> 'w world" where
  "unseal dec c entry w =
     (case Data entry of
        VBytes sealed \<Rightarrow>
          (case decryptEntry c sealed w of
             (Panic p, w1) \<Rightarrow> (Panic p, w1)
           | (Ret (Inl err), w1) \<Rightarrow> (Ret (Some err, Some (box_entry entry)), log_failed ''GenericCache.Get'' c err w1)
           | (Ret (Inr decryptedData), w1) \<Rightarrow>
               (case dec decryptedData of
                  Inl err \<Rightarrow> (Ret (Some err, Some (box_entry entry)), w1)
                | Inr d \<Rightarrow> (Ret (None, Some (box_entry (entry\<lparr>Data := d\<rparr>))), w1)))
      | _ \<Rightarrow> (Panic ''interface conversion'', w))"

definition fetch_entry ::
  "(bytes \<Rightarrow> error + godata) \<Rightarrow> Time \<Rightarrow> string \<Rightarrow> 'w GenericCache \<Rightarrow> 'w world \<Rightarrow> (error option \<times> godata option) outcome \<times> 'w world" where
  "fetch_entry dec now key c w =
     (case fetch now key (TPtr TEntry) c w of
        (Ret (None, Some v), w1) \<Rightarrow>
          (case assert_entry v of
             Some entry \<Rightarrow> if gc_EncryptData c then unseal dec c entry w1 else (Ret (None, Some v), w1)
           | None \<Rightarrow> (Ret (None, Some v), w1))
      | (Ret (None, None), w1) \<Rightarrow>
          if gc_EncryptData c then (Panic ''interface conversion'', w1) else (Ret (None, None), w1)
      | r \<Rightarrow> r)"

definition int_names :: "string list" where
  "int_names = [''int'', ''int8'', ''int16'', ''int32'', ''int64'', ''uint'', ''uint8'', ''uint16'', ''uint32'', ''uint64'']"

definition gc_Get ::
  "(bytes \<Rightarrow> error + godata) \<Rightarrow> Time \<Rightarrow> string \<Rightarrow> gotype \<Rightarrow> 'w GenericCache \<Rightarrow> 'w world \<Rightarrow> (error option \<times> godata option) outcome \<times> 'w world" where
  "gc_Get dec now key ty c w =
     (if gc_Cache c = None then
        (let err = no_cache ''GenericCache.Get'' c in (Ret (Some err, None), logError c (Text (Error err)) w))
      else
        let valueType = type_name ty;
            w1 = logDebug c (Fmt ''GenericCache.Get: L%v/T%v key == %s and entry type == %s and encryption == %v''
                   (lt c @ [LStr key, LStr valueType, LBool (gc_EncryptData c)])) w
        in if valueType = ''*cache.ResponseCache'' then
             (if ty = TPtr TResponse then fetch now key ty c w1 else (Panic ''interface conversion'', w1))
           else if valueType \<in> {''*GenericCacheEntry'', ''*cache.GenericCacheEntry''} then
             (if ty = TPtr TEntry then fetch_entry dec now key c w1 else (Panic ''interface conversion'', w1))
           else if valueType = ''*string'' then
             (if ty = TPtr TString then fetch now key ty c w1 else (Panic ''interface conversion'', w1))
           else if valueType \<in> (\<lambda>n. CHR ''*'' # n) ` set int_names then fetch now key ty c w1
           else if valueType \<in> set int_names then
             (case fetch now key (TPtr TInterface) c w1 of
                (Ret (err, _), w2) \<Rightarrow> (Ret (err, None), w2)
              | r \<Rightarrow> r)
           else if valueType = ''*float64'' then
             (if ty = TPtr (TNamed [] ''float64'') then fetch now key ty c w1 else (Panic ''interface conversion'', w1))
           else
             let err = Errorf ''GenericCache.Get: L%v/T%v error - not supported type - %s''
                         [show_int (gc_cLevel c), show_int (gc_cType c), valueType]
             in (Ret (Some ErrNotSupport, None), logError c (Text (Error err)) w1))"

text \<open>
  \<open>Exists\<close> asks the read cache if there is one, after giving it the logger, and returns the cache
  as well because of that assignment. The zero entry is what a caller sees when nothing was found.
\<close>

definition zero_entry :: GenericCacheEntry where
  "zero_entry = \<lparr>Data = VNil, TimeAdded = 0, ExpiresAt = 0\<rparr>"

definition written :: "godata option \<Rightarrow> GenericCacheEntry" where
  "written out = (case Option.bind out assert_entry of Some e \<Rightarrow> e | None \<Rightarrow> zero_entry)"

definition gc_Exists_here ::
  "(bytes \<Rightarrow> error + godata) \<Rightarrow> Time \<Rightarrow> string \<Rightarrow> 'w GenericCache \<Rightarrow> 'w world \<Rightarrow> (bool \<times> GenericCacheEntry \<times> error option) outcome \<times> 'w world" where
  "gc_Exists_here dec now key c w =
     (if gc_Cache c = None then
        (let err = no_cache ''GenericCache.Add'' c
         in (Ret (False, zero_entry, Some err), logError c (Text (Error err)) w))
      else
        let w1 = logDebug c (Fmt ''GenericCache.Exists: L%v/T%v looking for key %s and encryption %v''
                   (lt c @ [LStr key, LBool (gc_EncryptData c)])) w
        in (case gc_Get dec now key (TPtr TEntry) c w1 of
              (Panic p, w2) \<Rightarrow> (Panic p, w2)
            | (Ret (Some err, out), w2) \<Rightarrow>
                (Ret (False, written out, Some err),
                 if gc_cLevel c = L1 then logDebug c (Fmt ''GenericCache::Exist: L1 not found - %s'' [LStr (Error err)]) w2
                 else if gc_cLevel c = L2 then logDebug c (Fmt ''GenericCache::Exist: L2 not found - %s'' [LStr (Error err)]) w2
                 else w2)
            | (Ret (None, out), w2) \<Rightarrow> (Ret (True, written out, None), debugEntry c key (written out) w2)))"

fun gc_Exists ::
  "(bytes \<Rightarrow> error + godata) \<Rightarrow> Time \<Rightarrow> string \<Rightarrow> 'w GenericCache \<Rightarrow> 'w world \<Rightarrow>
   (bool \<times> GenericCacheEntry \<times> error option) outcome \<times> 'w GenericCache \<times> 'w world" where
  "gc_Exists dec now key (GenericCache c (Some (GenericCache c' r' s' d' t' l' p' lg' e')) s d t l p lg e) w =
     (case gc_Exists dec now key (GenericCache c' r' s' d' t' l' p' lg e') w of
        (res, rc, w1) \<Rightarrow> (res, GenericCache c (Some rc) s d t l p lg e, w1))"
| "gc_Exists dec now key (GenericCache c None s d t l p lg e) w =
     (case gc_Exists_here dec now key (GenericCache c None s d t l p lg e) w of
        (res, w1) \<Rightarrow> (res, GenericCache c None s d t l p lg e, w1))"

text \<open>The part of \<open>Set\<close> that replaces the data of an entry by its encoded and encrypted form.\<close>

definition seal ::
  "(godata \<Rightarrow> error + bytes) \<Rightarrow> Time \<Rightarrow> string \<Rightarrow> godata \<Rightarrow> duration \<Rightarrow> 'w GenericCache \<Rightarrow> 'w world \<Rightarrow> (error + godata) outcome \<times> 'w world" where
  "seal enc now0 key data exp c w =
     (let valueType = type_name (type_of data);
          w1 = logDebug c (Fmt ''GenericCache.Get: L%v/T%v key == %s and entry type == %s'' (lt c @ [LStr key, LStr valueType])) w
      in if valueType \<in> {''GenericCacheEntry'', ''cache.GenericCacheEntry''} then
           (case assert_entry data of
              None \<Rightarrow> (Panic ''interface conversion'', w1)
            | Some e \<Rightarrow>
                (case enc (Data e) of
                   Inl err \<Rightarrow> (Ret (Inl err), w1)
                 | Inr b \<Rightarrow>
                     (case encryptEntry c b w1 of
                        (Panic p, w2) \<Rightarrow> (Panic p, w2)
                      | (Ret (Inl err), w2) \<Rightarrow> (Ret (Inl err), log_failed ''GenericCache.Set'' c err w2)
                      | (Ret (Inr encryptedData), w2) \<Rightarrow>
                          (Ret (Inr (box_entry (gc_NewGenericCacheEntry c now0 (VBytes encryptedData) exp))), w2))))
         else (Ret (Inr data), w1))"

definition gc_Set ::
  "(godata \<Rightarrow> error + bytes) \<Rightarrow> Time \<Rightarrow> Time \<Rightarrow> string \<Rightarrow> godata \<Rightarrow> duration \<Rightarrow> 'w GenericCache \<Rightarrow> 'w world \<Rightarrow> error option outcome \<times> 'w world" where
  "gc_Set enc now0 now key data exp c w =
     (if gc_Cache c = None then
        (let err = no_cache ''GenericCache.Set'' c in (Ret (Some err), logError c (Text (Error err)) w))
      else
        let w1 = logDebug c (Fmt ''GenericCache.Set: L%v/T%v key == %s'' (lt c @ [LStr key])) w;
            t = (if exp \<noteq> 0 then exp else gc_DefaultExp c)
        in (case (if gc_EncryptData c then seal enc now0 key data exp c w1 else (Ret (Inr data), w1)) of
              (Panic p, w2) \<Rightarrow> (Panic p, w2)
            | (Ret (Inl err), w2) \<Rightarrow> (Ret (Some err), w2)
            | (Ret (Inr data'), w2) \<Rightarrow>
                report_err ''GenericCache.Set'' c (on_store (\<lambda>st. m_Set st now key data' t) (gc_Cache c) w2)))"

definition gc_Replace ::
  "Time \<Rightarrow> string \<Rightarrow> godata \<Rightarrow> duration \<Rightarrow> 'w GenericCache \<Rightarrow> 'w world \<Rightarrow> error option outcome \<times> 'w world" where
  "gc_Replace now key data exp c w =
     (if gc_Cache c = None then
        (let err = no_cache ''GenericCache.Replace'' c in (Ret (Some err), logError c (Text (Error err)) w))
      else
        let w1 = logDebug c (Fmt ''GenericCache.Replace: L%v/T%v key == %s and exp == %v'' (lt c @ [LStr key, LDur exp])) w;
            t = (if exp \<noteq> 0 then exp else gc_DefaultExp c);
            w2 = logDebug c (Fmt ''GenericCache.Replace: L%v/T%v and t == %v'' (lt c @ [LDur t])) w1
        in report_err ''GenericCache.Replace'' c (on_store (\<lambda>st. m_Replace st now key data t) (gc_Cache c) w2))"

definition gc_Increment ::
  "Time \<Rightarrow> string \<Rightarrow> uint64 \<Rightarrow> 'w GenericCache \<Rightarrow> 'w world \<Rightarrow> (uint64 \<times> error option) outcome \<times> 'w world" where
  "gc_Increment now key n c w =
     (if gc_Cache c = None then
        (let err = no_cache ''GenericCache.Increment'' c in (Ret (0, Some err), logError c (Text (Error err)) w))
      else
        let w1 = logDebug c (Fmt ''GenericCache.Increment: L%v/T%v key == %s'' (lt c @ [LStr key])) w
        in report_num ''GenericCache.Increment'' c (on_store (\<lambda>st. m_Increment st now key n) (gc_Cache c) w1))"

definition gc_RedisExpireAt :: "Time \<Rightarrow> string \<Rightarrow> uint64 \<Rightarrow> 'w GenericCache \<Rightarrow> 'w world \<Rightarrow> error option outcome \<times> 'w world" where
  "gc_RedisExpireAt now key epoc c w =
     (if gc_Cache c = None then
        (let err = no_cache ''GenericCache.RedisExpireAt'' c in (Ret (Some err), logError c (Text (Error err)) w))
      else
        let w1 = logDebug c (Fmt ''GenericCache.RedisExpireAt: L%v/T%v key == %s'' (lt c @ [LStr key])) w
        in report_err ''GenericCache.RedisExpireAt'' c (on_redis (\<lambda>r. r_ExpireAt r now key epoc) (gc_Cache c) w1))"

definition gc_RedisGetExpiresIn ::
  "Time \<Rightarrow> string \<Rightarrow> 'w GenericCache \<Rightarrow> 'w world \<Rightarrow> (uint64 \<times> error option) outcome \<times> 'w world" where
  "gc_RedisGetExpiresIn now key c w =
     (if gc_Cache c = None then
        (let err = no_cache ''GenericCache.RedisGetExpiresIn'' c in (Ret (0, Some err), logError c (Text (Error err)) w))
      else
        let w1 = logDebug c (Fmt ''GenericCache.RedisExpireAt: L%v/T%v key == %s'' (lt c @ [LStr key])) w
        in report_num ''GenericCache.RedisExpireAt'' c (on_redis (\<lambda>r. r_GetExpiresIn r now key) (gc_Cache c) w1))"

definition gc_RedisIncrementAtomic ::
  "Time \<Rightarrow> string \<Rightarrow> uint64 \<Rightarrow> 'w GenericCache \<Rightarrow> 'w world \<Rightarrow> (uint64 \<times> error option) outcome \<times> 'w world" where
  "gc_RedisIncrementAtomic now key n c w =
     (if gc_Cache c = None then
        (let err = no_cache ''GenericCache.IncrementAtomic'' c in (Ret (0, Some err), logError c (Text (Error err)) w))
      else
        let w1 = logDebug c (Fmt ''GenericCache.IncrementAtomic: L%v/T%v key == %s'' (lt c @ [LStr key])) w
        in report_num ''GenericCache.IncrementAtomic'' c (on_redis (\<lambda>r. r_IncrementAtomic r now key n) (gc_Cache c) w1))"

definition gc_RedisIncrementCheckSet ::
  "Time \<Rightarrow> string \<Rightarrow> uint64 \<Rightarrow> 'w GenericCache \<Rightarrow> 'w world \<Rightarrow> (uint64 \<times> error option) outcome \<times> 'w world" where
  "gc_RedisIncrementCheckSet now key n c w =
     (if gc_Cache c = None then
        (let err = no_cache ''GenericCache.IncrementCheckSet'' c in (Ret (0, Some err), logError c (Text (Error err)) w))
      else
        let w1 = logDebug c (Fmt ''GenericCache.IncrementCheckSet: L%v/T%v key == %s'' (lt c @ [LStr key])) w
        in report_num ''GenericCache.IncrementCheckSet'' c (on_redis (\<lambda>r. r_IncrementCheckSet r now key n) (gc_Cache c) w1))"

definition gc_Decrement ::
  "Time \<Rightarrow> string \<Rightarrow> uint64 \<Rightarrow> 'w GenericCache \<Rightarrow> 'w world \<Rightarrow> (uint64 \<times> error option) outcome \<times> 'w world" where
  "gc_Decrement now key n c w =
     (if gc_Cache c = None then
        (let err = no_cache ''GenericCache.Decrement'' c in (Ret (0, Some err), logError c (Text (Error err)) w))
      else
        let w1 = logDebug c (Fmt ''GenericCache.Decrement: L%v/T%v key == %s'' (lt c @ [LStr key])) w
        in report_num ''GenericCache.Decrement'' c (on_store (\<lambda>st. m_Decrement st now key n) (gc_Cache c) w1))"

text \<open>\<open>Flush\<close> drops the error of the store.\<close>

definition gc_Flush :: "Time \<Rightarrow> 'w GenericCache \<Rightarrow> 'w world \<Rightarrow> error option outcome \<times> 'w world" where
  "gc_Flush now c w =
     (if gc_Cache c = None then
        (let err = no_cache ''GenericCache.Flush'' c in (Ret (Some err), logError c (Text (Error err)) w))
      else
        let w1 = logDebug c (Fmt ''GenericCache.Flush: flushing all keys for L%v/T%v key'' (lt c)) w
        in (case on_store (\<lambda>st. m_Flush st now) (gc_Cache c) w1 of
              (Panic p, w2) \<Rightarrow> (Panic p, w2)
            | (Ret _, w2) \<Rightarrow> (Ret None, w2)))"

text \<open>The method table of a \<open>*GenericCache\<close> as a \<open>persistence.CacheStore\<close>.\<close>

definition gc_ops ::
  "(godata \<Rightarrow> error + bytes) \<Rightarrow> (bytes \<Rightarrow> error + godata) \<Rightarrow> 's GenericCache \<Rightarrow> 's world CacheStore" where
  "gc_ops enc dec c = \<lparr>m_Get = (\<lambda>now k ty. gc_Get dec now k ty c), m_Set = (\<lambda>now k v e. gc_Set enc now now k v e c),
     m_Add = (\<lambda>now k v e. gc_Add now k v e c), m_Replace = (\<lambda>now k v e. gc_Replace now k v e c),
     m_Delete = (\<lambda>now k. gc_Delete now k c), m_Increment = (\<lambda>now k n. gc_Increment now k n c),
     m_Decrement = (\<lambda>now k n. gc_Decrement now k n c), m_Flush = (\<lambda>now. gc_Flush now c)\<rparr>"

end
