(* ===== verification/GenericCacheSpec.thy ===== *)
theory GenericCacheSpec
  imports GenericCache
begin

text \<open>
  What the generic cache promises. The lemmas on \<open>Set\<close>, \<open>Get\<close> and \<open>Exists\<close> are proved once in the locale
  \<open>cache_store\<close>, for any store that keeps the contract; the properties instantiate them with the
  in-memory store, alone and as the two pools of a multi-pool cache.
\<close>

section \<open>Basic facts\<close>

lemma log_store [simp]: "w_store (logDebug c x w) = w_store w" "w_store (logError c x w) = w_store w"
  "w_store (log_failed m c err w) = w_store w" "w_store (debugEntry c k e w) = w_store w"
  by (simp_all add: logDebug_def logError_def log_failed_def debugEntry_def split: option.splits)

lemma on_store_Some:
  "Option.bind cache as_store = Some st \<Longrightarrow>
    on_store call cache w = (fst (call st (w_store w)), w\<lparr>w_store := snd (call st (w_store w))\<rparr>)"
  by (simp add: on_store_def case_prod_beta)

lemma bind_as_store: "Option.bind cache as_store = Some st \<Longrightarrow> cache \<noteq> None"
  by (cases cache) simp_all

text \<open>An entry encrypted with a long enough secret is decrypted to the same bytes, if there are any.\<close>

lemma encryptEntry_roundtrip:
  assumes "gc_EncryptData c" "16 \<le> length (gc_sharedSecret c)" "b \<noteq> []"
  obtains ct where "\<And>w. encryptEntry c b w = (Ret (Inr ct), w)" "\<And>w. decryptEntry c ct w = (Ret (Inr b), w)"
    "length b < length ct" "length ct \<le> length b + 16"
proof -
  obtain n where n: "Padding b 16 = Ret (b @ replicate n (word_of_nat n))" "0 < n" "int n \<le> 16"
    "(int (length b) + int n) mod 16 = 0"
    using Padding_pos [of 16 b] by auto
  let ?p = "b @ replicate n (word_of_nat n :: byte)"
  have "int (length ?p mod 16) = 0" using n(4) by (simp add: zmod_int)
  then obtain ct where ct: "encryptByteArray ?p (gc_sharedSecret c) = Ret (Inr ct)" "length ct = length ?p"
    "decryptByteArray ct (gc_sharedSecret c) = Ret (Inr ?p)"
    using crypt_roundtrip [OF assms(2), of ?p] by auto
  have "Unpadding ?p 16 = Ret (Inr b)"
    using Unpadding_padded [OF n(2,3), of b] assms(3) by simp
  then show ?thesis
    using that [of ct] assms(1) n ct by (simp add: encryptEntry_def decryptEntry_def)
qed


text \<open>What the gob codec is relied on for: a value that is encoded, to at least one byte, is decoded again.\<close>

definition gob_roundtrip :: "(godata \<Rightarrow> error + bytes) \<Rightarrow> (bytes \<Rightarrow> error + godata) \<Rightarrow> godata \<Rightarrow> bool" where
  "gob_roundtrip enc dec d \<longleftrightarrow> (\<exists>b. enc d = Inr b \<and> b \<noteq> [] \<and> dec b = Inr d)"

text \<open>The caches whose store is \<open>st\<close> and which can encrypt if they have to.\<close>

definition usable :: "'w CacheStore \<Rightarrow> 'w GenericCache \<Rightarrow> bool" where
  "usable st c \<longleftrightarrow> Option.bind (gc_Cache c) as_store = Some st
     \<and> (gc_EncryptData c \<longrightarrow> 16 \<le> length (gc_sharedSecret c))"

lemma usable_cache: "usable st c \<Longrightarrow> gc_Cache c \<noteq> None"
  using bind_as_store by (auto simp: usable_def)

lemma seal_entry:
  assumes "gc_EncryptData c" "16 \<le> length (gc_sharedSecret c)" "gob_roundtrip enc dec (Data e)"
  obtains ct b where "\<And>w. fst (seal enc now0 k (box_entry e) exp c w)
      = Ret (Inr (box_entry (gc_NewGenericCacheEntry c now0 (VBytes ct) exp)))"
    "\<And>w. w_store (snd (seal enc now0 k (box_entry e) exp c w)) = w_store w"
    "\<And>w. decryptEntry c ct w = (Ret (Inr b), w)" "dec b = Inr (Data e)"
proof -
  obtain b where b: "enc (Data e) = Inr b" "b \<noteq> []" "dec b = Inr (Data e)" using assms(3) by (auto simp: gob_roundtrip_def)
  obtain ct where ct: "\<And>w. encryptEntry c b w = (Ret (Inr ct), w)" "\<And>w. decryptEntry c ct w = (Ret (Inr b), w)"
    using encryptEntry_roundtrip [OF assms(1,2) b(2)] by metis
  then show ?thesis using that [of ct b] b by (simp add: seal_def Let_def)
qed

lemma report_err_None [simp]: "report_err m c (Ret None, w) = (Ret None, w)"
  by (simp add: report_err_def)

lemma gc_Get_entry:
  "gc_Cache c \<noteq> None \<Longrightarrow> gc_Get dec now k (TPtr TEntry) c w = fetch_entry dec now k c
    (logDebug c (Fmt ''GenericCache.Get: L%v/T%v key == %s and entry type == %s and encryption == %v''
       (lt c @ [LStr k, LStr ''*cache.GenericCacheEntry'', LBool (gc_EncryptData c)])) w)"
  by (auto simp: gc_Get_def Let_def)

text \<open>The stored form of an entry's data: itself, or bytes that decrypt and decode to it.\<close>

definition holds :: "(bytes \<Rightarrow> error + godata) \<Rightarrow> 'w GenericCache \<Rightarrow> godata \<Rightarrow> godata \<Rightarrow> bool" where
  "holds dec c d v \<longleftrightarrow>
     (if gc_EncryptData c
      then \<exists>ct b. v = VBytes ct \<and> (\<forall>w. decryptEntry c ct w = (Ret (Inr b), w)) \<and> dec b = Inr d
      else v = d)"

context cache_store
begin

lemma fetch_live:
  assumes "usable st c" "inv (w_store w)" "content (w_store w) k = Some e" "\<not> Expired now e"
  shows "fst (fetch now k (TPtr TEntry) c w) = Ret (None, Some (box_entry e))"
  using assms by (simp add: fetch_def usable_def on_store_Some get_entry)

lemma fetch_dead:
  assumes "usable st c" "inv (w_store w)" "content (w_store w) k = None \<or> (\<exists>e. content (w_store w) k = Some e \<and> Expired now e)"
  shows "fst (fetch now k ty c w) = Ret (Some ErrCacheMiss, None)"
  using assms get_miss [OF assms(2,3)] by (simp add: fetch_def usable_def on_store_Some)

lemma store_set:
  assumes "usable st c" "inv (w_store w)" "settable v"
  shows "fst (report_err m c (on_store (\<lambda>st. m_Set st now k v t) (gc_Cache c) w)) = Ret None"
    "inv (w_store (snd (report_err m c (on_store (\<lambda>st. m_Set st now k v t) (gc_Cache c) w))))"
    "content (w_store (snd (report_err m c (on_store (\<lambda>st. m_Set st now k v t) (gc_Cache c) w)))) k
      = Some (stored (w_store w) now v t)"
  using assms by (simp_all add: usable_def on_store_Some set_ok inv_set set_content)

lemma gc_Set_stores:
  fixes exp :: duration
  assumes use: "usable st c" and inv: "inv (w_store w)" and gob: "gc_EncryptData c \<Longrightarrow> gob_roundtrip enc dec (Data e)"
  defines "t \<equiv> (if exp \<noteq> 0 then exp else gc_DefaultExp c)"
  obtains e' where "fst (gc_Set enc now0 now k (box_entry e) exp c w) = Ret None"
    "inv (w_store (snd (gc_Set enc now0 now k (box_entry e) exp c w)))"
    "content (w_store (snd (gc_Set enc now0 now k (box_entry e) exp c w))) k = Some (stored (w_store w) now (box_entry e') t)"
    "holds dec c (Data e) (Data e')"
proof (cases "gc_EncryptData c")
  case False
  let ?w = "logDebug c (Fmt ''GenericCache.Set: L%v/T%v key == %s'' (lt c @ [LStr k])) w"
  have "gc_Set enc now0 now k (box_entry e) exp c w
      = report_err ''GenericCache.Set'' c (on_store (\<lambda>st. m_Set st now k (box_entry e) t) (gc_Cache c) ?w)"
    using usable_cache [OF use] False by (auto simp: gc_Set_def t_def)
  then show thesis
    using store_set [OF use _ settable_entry, of ?w] inv False that [of e] by (simp add: holds_def)
next
  case True
  let ?w = "logDebug c (Fmt ''GenericCache.Set: L%v/T%v key == %s'' (lt c @ [LStr k])) w"
  obtain ct b where s: "\<And>w. fst (seal enc now0 k (box_entry e) exp c w)
      = Ret (Inr (box_entry (gc_NewGenericCacheEntry c now0 (VBytes ct) exp)))"
    "\<And>w. w_store (snd (seal enc now0 k (box_entry e) exp c w)) = w_store w"
    and d: "\<And>w. decryptEntry c ct w = (Ret (Inr b), w)" "dec b = Inr (Data e)"
    using seal_entry [OF True _ gob [OF True]] use True unfolding usable_def by metis
  let ?e = "gc_NewGenericCacheEntry c now0 (VBytes ct) exp" and ?w' = "snd (seal enc now0 k (box_entry e) exp c ?w)"
  have "gc_Set enc now0 now k (box_entry e) exp c w
      = report_err ''GenericCache.Set'' c (on_store (\<lambda>st. m_Set st now k (box_entry ?e) t) (gc_Cache c) ?w')"
    using usable_cache [OF use] True s(1) [of ?w]
    by (cases "seal enc now0 k (box_entry e) exp c ?w") (auto simp: gc_Set_def t_def)
  then show thesis
    using store_set [OF use _ settable_entry, of ?w'] inv s(2) d True that [of ?e]
    by (simp add: holds_def gc_NewGenericCacheEntry_def NewGenericCacheEntry_def Let_def)
qed

lemma gc_Get_held:
  assumes use: "usable st c" and inv: "inv (w_store w)" and e: "content (w_store w) k = Some e" "holds dec c d (Data e)"
  shows "fst (gc_Get dec now k (TPtr TEntry) c w) =
    Ret (if Expired now e then (Some ErrCacheMiss, None) else (None, Some (box_entry (e\<lparr>Data := d\<rparr>))))"
proof -
  define w1 where "w1 = logDebug c (Fmt ''GenericCache.Get: L%v/T%v key == %s and entry type == %s and encryption == %v''
       (lt c @ [LStr k, LStr ''*cache.GenericCacheEntry'', LBool (gc_EncryptData c)])) w"
  have w1: "w_store w1 = w_store w" by (simp add: w1_def)
  have get: "gc_Get dec now k (TPtr TEntry) c w = fetch_entry dec now k c w1"
    unfolding w1_def by (rule gc_Get_entry [OF usable_cache [OF use]])
  obtain r w2 where r: "fetch now k (TPtr TEntry) c w1 = (r, w2)" by fastforce
  show ?thesis
  proof (cases "Expired now e")
    case True
    then have "r = Ret (Some ErrCacheMiss, None)" using fetch_dead [OF use, of w1 k now "TPtr TEntry"] inv e(1) w1 r by simp
    with True r show ?thesis by (simp add: get fetch_entry_def)
  next
    case False
    then have "r = Ret (None, Some (box_entry e))" using fetch_live [OF use, of w1 k e now] inv e(1) w1 r by simp
    with False r e(2) show ?thesis by (auto simp: get fetch_entry_def unseal_def holds_def split: if_splits)
  qed
qed

lemma gc_Get_missing:
  assumes use: "usable st c" and inv: "inv (w_store w)" "content (w_store w) k = None"
  shows "fst (gc_Get dec now k (TPtr TEntry) c w) = Ret (Some ErrCacheMiss, None)"
proof -
  define w1 where "w1 = logDebug c (Fmt ''GenericCache.Get: L%v/T%v key == %s and entry type == %s and encryption == %v''
       (lt c @ [LStr k, LStr ''*cache.GenericCacheEntry'', LBool (gc_EncryptData c)])) w"
  obtain w2 where "fetch now k (TPtr TEntry) c w1 = (Ret (Some ErrCacheMiss, None), w2)"
    using fetch_dead [OF use, of w1 k now "TPtr TEntry"] inv by (metis prod.collapse w1_def log_store(1))
  then show ?thesis by (simp add: gc_Get_entry [OF usable_cache [OF use]] fetch_entry_def w1_def)
qed

lemma gc_Get_unsealed:
  assumes use: "usable st c" and inv: "inv (w_store w)" and e: "content (w_store w) k = Some e" "\<not> Expired now e"
    and plain: "gc_EncryptData c" "\<And>b. Data e \<noteq> VBytes b"
  shows "panics (fst (gc_Get dec now k (TPtr TEntry) c w))"
proof -
  define w1 where "w1 = logDebug c (Fmt ''GenericCache.Get: L%v/T%v key == %s and entry type == %s and encryption == %v''
       (lt c @ [LStr k, LStr ''*cache.GenericCacheEntry'', LBool (gc_EncryptData c)])) w"
  have get: "gc_Get dec now k (TPtr TEntry) c w = fetch_entry dec now k c w1"
    unfolding w1_def by (rule gc_Get_entry [OF usable_cache [OF use]])
  obtain w2 where "fetch now k (TPtr TEntry) c w1 = (Ret (None, Some (box_entry e)), w2)"
    using fetch_live [OF use, of w1 k e now] inv e by (metis prod.collapse w1_def log_store(1))
  with plain show ?thesis by (auto simp: get fetch_entry_def unseal_def split: godata.splits)
qed

lemma gc_Exists_here_result:
  assumes use: "usable st c" and inv: "inv (w_store w)"
  shows "content (w_store w) k = None \<Longrightarrow> fst (gc_Exists_here dec now k c w) = Ret (False, zero_entry, Some ErrCacheMiss)"
    "content (w_store w) k = Some e \<Longrightarrow> holds dec c d (Data e) \<Longrightarrow> fst (gc_Exists_here dec now k c w) =
      Ret (if Expired now e then (False, zero_entry, Some ErrCacheMiss) else (True, e\<lparr>Data := d\<rparr>, None))"
proof -
  define w1 where "w1 = logDebug c (Fmt ''GenericCache.Exists: L%v/T%v looking for key %s and encryption %v''
       (lt c @ [LStr k, LBool (gc_EncryptData c)])) w"
  have w1: "w_store w1 = w_store w" by (simp add: w1_def)
  obtain r w2 where r: "gc_Get dec now k (TPtr TEntry) c w1 = (r, w2)" by fastforce
  have ex: "fst (gc_Exists_here dec now k c w) = (case r of Panic p \<Rightarrow> Panic p
      | Ret (Some err, out) \<Rightarrow> Ret (False, written out, Some err) | Ret (None, out) \<Rightarrow> Ret (True, written out, None))"
    using usable_cache [OF use] r
    by (auto simp: gc_Exists_here_def Let_def w1_def split: outcome.splits option.splits)
  show "fst (gc_Exists_here dec now k c w) = Ret (False, zero_entry, Some ErrCacheMiss)" if "content (w_store w) k = None"
    using gc_Get_missing [OF use, of w1 k dec now] inv that w1 r by (simp add: ex written_def)
  show "fst (gc_Exists_here dec now k c w) =
      Ret (if Expired now e then (False, zero_entry, Some ErrCacheMiss) else (True, e\<lparr>Data := d\<rparr>, None))"
    if "content (w_store w) k = Some e" "holds dec c d (Data e)"
    using gc_Get_held [OF use, of w1 k e dec d now] inv that w1 r by (auto simp: ex written_def)
qed

end

section \<open>Properties\<close>

text \<open>
  C1: Storing and reading an entry through the generic cache over the in-memory store: \<open>Set\<close>
  succeeds, and a later \<open>Get\<close> returns the entry's data with the store's time stamps until the
  entry expires and a miss afterwards. With encryption the store holds bytes instead of the data, and
  \<open>Get\<close> decrypts and decodes them to the original data. The expiry used is the argument, or the
  cache's default when the argument is 0.
\<close>

theorem gc_Set_Get:
  assumes "usable mem_ops c" "mem_inv (w_store w)" "gc_EncryptData c \<longrightarrow> gob_roundtrip enc dec (Data e)"
  shows "let (r, w') = gc_Set enc now0 now k (box_entry e) exp c w;
             t = (if exp \<noteq> 0 then exp else gc_DefaultExp c);
             e' = \<lparr>Data = Data e, TimeAdded = t_sec now, ExpiresAt = expiry_of (w_store w) now t\<rparr>
         in r = Ret None
          \<and> fst (gc_Get dec later k (TPtr TEntry) c w')
              = Ret (if Expired later e' then (Some ErrCacheMiss, None) else (None, Some (box_entry e')))
          \<and> (gc_EncryptData c \<longrightarrow> (\<exists>ct. mem_content (w_store w') k = Some (e'\<lparr>Data := VBytes ct\<rparr>)))"
proof -
  let ?t = "if exp \<noteq> 0 then exp else gc_DefaultExp c"
  obtain f where f: "fst (gc_Set enc now0 now k (box_entry e) exp c w) = Ret None"
    "mem_inv (w_store (snd (gc_Set enc now0 now k (box_entry e) exp c w)))"
    "mem_content (w_store (snd (gc_Set enc now0 now k (box_entry e) exp c w))) k = Some (mem_stored (w_store w) now (box_entry f) ?t)"
    and h: "holds dec c (Data e) (Data f)"
    using mem.gc_Set_stores [OF assms(1,2), of enc dec e now0 now k exp] assms(3) by metis
  have st: "mem_stored (w_store w) now (box_entry f) ?t = \<lparr>Data = Data f, TimeAdded = t_sec now, ExpiresAt = expiry_of (w_store w) now ?t\<rparr>"
    by (simp add: mem_stored_def box_entry_def)
  have "Expired later (e'\<lparr>Data := d\<rparr>) = Expired later e'" for e' d by (simp add: Expired_def)
  from this [where d = "Data f" and e' = "\<lparr>Data = Data e, TimeAdded = t_sec now, ExpiresAt = expiry_of (w_store w) now ?t\<rparr>"]
  show ?thesis
    using f(1) mem.gc_Get_held [OF assms(1) f(2,3), of dec "Data e" later] f(3) h
    by (auto simp: st case_prod_beta Let_def holds_def)
qed

text \<open>
  When encryption is on and something is wrong, \<open>Set\<close> of an entry changes nothing in the store:
  an encoding error is returned as it is, and a secret that \<open>keyAndIV\<close> rejects gives the error of
  \<open>encryptEntry\<close>, wrapped around that of \<open>keyAndIV\<close>.
\<close>

theorem gc_Set_encrypt_error:
  assumes "gc_Cache c \<noteq> None" "gc_EncryptData c"
  shows "(\<forall>err. enc (Data e) = Inl err \<longrightarrow>
        fst (gc_Set enc now0 now k (box_entry e) exp c w) = Ret (Some err)
        \<and> w_store (snd (gc_Set enc now0 now k (box_entry e) exp c w)) = w_store w)
    \<and> (\<forall>b err. enc (Data e) = Inr b \<and> keyAndIV (gc_sharedSecret c) = Inl err \<longrightarrow>
        fst (gc_Set enc now0 now k (box_entry e) exp c w)
          = Ret (Some (Errorf ''GenericCache.encryptEntry: can't encrypt data: %s'' [Error err]))
        \<and> w_store (snd (gc_Set enc now0 now k (box_entry e) exp c w)) = w_store w)"
proof -
  obtain cache where cache: "gc_Cache c = Some cache" using assms(1) by auto
  have "encryptEntry c b w = (Ret (Inl err'), logError c (Text (Error err')) w)"
    if "keyAndIV (gc_sharedSecret c) = Inl err" "err' = Errorf ''GenericCache.encryptEntry: can't encrypt data: %s'' [Error err]"
    for b err err' and w :: "'a world"
  proof -
    obtain p where "Padding b 16 = Ret p" using Padding_pos [of 16 b] by auto
    then show ?thesis using that assms(2) by (simp add: encryptEntry_def encryptByteArray_def Let_def del: Error.simps)
  qed
  then show ?thesis by (simp add: gc_Set_def seal_def Let_def cache assms(2) del: Error.simps)
qed

text \<open>For the witnesses: an encrypting cache over the in-memory store, and a codec for strings.\<close>

definition demo_cache :: "bool \<Rightarrow> inMemoryStore GenericCache" where
  "demo_cache encrypt = NewCacheWithPool (Some (StoreIface mem_ops)) Writable L1 ''0123456789abcdefghij'' 60 None encrypt"

definition demo_world :: "inMemoryStore world" where
  "demo_world = \<lparr>w_store = mem0, w_log = []\<rparr>"

fun string_enc :: "godata \<Rightarrow> error + bytes" where
  "string_enc (VString s) = Inr (1 # bytes_of_string s)"
| "string_enc _ = Inl (ErrExt ''not a string'')"

fun string_dec :: "bytes \<Rightarrow> error + godata" where
  "string_dec (x # b) = Inr (VString (string_of_bytes b))"
| "string_dec [] = Inl (ErrExt ''EOF'')"

definition demo_entry :: GenericCacheEntry where
  "demo_entry = \<lparr>Data = VString ''secret'', TimeAdded = 0, ExpiresAt = 0\<rparr>"

lemma demo_gob: "gob_roundtrip string_enc string_dec (Data demo_entry)"
  by (simp add: gob_roundtrip_def demo_entry_def)

lemma demo_usable: "usable mem_ops (demo_cache b)" "gc_EncryptData (demo_cache b) = b" "gc_Cache (demo_cache b) = Some (StoreIface mem_ops)"
  by (simp_all add: usable_def demo_cache_def NewCacheWithPool_def bytes_of_string_def)

lemma demo_inv: "mem_inv (w_store demo_world)" "mem_content (w_store demo_world) k = None"
  by (simp_all add: demo_world_def mem0_inv)

theorem gc_Set_Get_witness:
  "let (r, w') = gc_Set string_enc (at 1000 0) (at 1000 0) ''k'' (box_entry demo_entry) 0 (demo_cache True) demo_world;
       e' = \<lparr>Data = VString ''secret'', TimeAdded = 1000, ExpiresAt = 1060\<rparr>
   in r = Ret None \<and> fst (gc_Get string_dec (at 1059 0) ''k'' (TPtr TEntry) (demo_cache True) w') = Ret (None, Some (box_entry e'))
    \<and> (\<exists>ct. mem_content (w_store w') ''k'' = Some (e'\<lparr>Data := VBytes ct\<rparr>))"
proof -
  have e: "Data demo_entry = VString ''secret''" "t_sec (at 1000 0) = 1000"
    "expiry_of (w_store demo_world) (at 1000 0) (gc_DefaultExp (demo_cache True)) = 1060"
    by (simp_all add: demo_entry_def at_def expiry_of_def demo_cache_def NewCacheWithPool_def FOREVER_def time_Second_def
        go_div_def signed_divide_int_def)
  have "\<not> Expired (at 1059 0) \<lparr>Data = VString ''secret'', TimeAdded = 1000, ExpiresAt = 1060\<rparr>"
    by (simp add: Expired_def Before_def at_def time_Unix_def unixToInternal_def word_sless_alt)
  with gc_Set_Get [OF demo_usable(1) demo_inv(1), of True string_enc string_dec demo_entry "at 1000 0" "at 1000 0" "''k''" 0 "at 1059 0"]
  show ?thesis using demo_gob by (simp add: e demo_usable case_prod_beta Let_def)
qed

theorem gc_Set_encrypt_error_witness:
  "fst (gc_Set string_enc (at 1 0) (at 1 0) ''k'' (VEntry (VInt 3) 0 0) 0 (demo_cache True) demo_world)
     = Ret (Some (ErrExt ''not a string''))
   \<and> w_store (snd (gc_Set string_enc (at 1 0) (at 1 0) ''k'' (VEntry (VInt 3) 0 0) 0 (demo_cache True) demo_world)) = mem0"
  using gc_Set_encrypt_error [of "demo_cache True" string_enc "\<lparr>Data = VInt 3, TimeAdded = 0, ExpiresAt = 0\<rparr>" "at 1 0" "at 1 0" "''k''" 0 demo_world]
  by (simp add: demo_usable box_entry_def demo_world_def)

text \<open>
  Without a store every operation but \<open>AddExistingEntry\<close> returns an error that names the level and
  type, writes exactly one error line and no debug line, and leaves the state alone (\<open>Exists\<close> in a
  cache without a read cache); \<open>AddExistingEntry\<close> panics.
\<close>

theorem gc_no_store:
  assumes "gc_Cache c = None" "gc_ReadCache c = None"
  shows "(\<forall>m w. w_log (logError c (Text (Error (no_cache m c))) w)
          = w_log w @ [case gc_Logger c of Some lg \<Rightarrow> ErrorLine lg (Text (Error (no_cache m c)))
                                          | None \<Rightarrow> Stderr (Text (Error (no_cache m c)))])
    \<and> gc_Add now k d exp c w = (Ret (Some (no_cache ''GenericCache.Add'' c)), logError c (Text (Error (no_cache ''GenericCache.Add'' c))) w)
    \<and> gc_Set enc now0 now k d exp c w = (Ret (Some (no_cache ''GenericCache.Set'' c)), logError c (Text (Error (no_cache ''GenericCache.Set'' c))) w)
    \<and> gc_Replace now k d exp c w = (Ret (Some (no_cache ''GenericCache.Replace'' c)), logError c (Text (Error (no_cache ''GenericCache.Replace'' c))) w)
    \<and> gc_Delete now k c w = (Ret (Some (no_cache ''GenericCache.Delete'' c)), logError c (Text (Error (no_cache ''GenericCache.Delete'' c))) w)
    \<and> gc_Flush now c w = (Ret (Some (no_cache ''GenericCache.Flush'' c)), logError c (Text (Error (no_cache ''GenericCache.Flush'' c))) w)
    \<and> gc_Increment now k n c w = (Ret (0, Some (no_cache ''GenericCache.Increment'' c)), logError c (Text (Error (no_cache ''GenericCache.Increment'' c))) w)
    \<and> gc_Decrement now k n c w = (Ret (0, Some (no_cache ''GenericCache.Decrement'' c)), logError c (Text (Error (no_cache ''GenericCache.Decrement'' c))) w)
    \<and> gc_Get dec now k ty c w = (Ret (Some (no_cache ''GenericCache.Get'' c), None), logError c (Text (Error (no_cache ''GenericCache.Get'' c))) w)
    \<and> gc_Exists dec now k c w = (Ret (False, zero_entry, Some (no_cache ''GenericCache.Add'' c)), c, logError c (Text (Error (no_cache ''GenericCache.Add'' c))) w)
    \<and> panics (fst (gc_AddExistingEntry now0 now k e x c w))"
  using assms by (cases c) (simp add: gc_Add_def gc_Set_def gc_Replace_def gc_Delete_def gc_Flush_def gc_Increment_def
      gc_Decrement_def gc_Get_def gc_Exists_here_def gc_AddExistingEntry_def on_store_def report_err_def Let_def
      logError_def del: Error.simps split: option.splits)

theorem gc_no_store_witness:
  "fst (gc_Delete (at 1 0) ''k'' (NewCacheWithPool None ReadOnly L2 ''s'' 60 None False) demo_world)
     = Ret (Some (no_cache ''GenericCache.Delete'' (NewCacheWithPool None ReadOnly L2 ''s'' 60 None False :: inMemoryStore GenericCache)))"
  using gc_no_store [of "NewCacheWithPool None ReadOnly L2 ''s'' 60 None False :: inMemoryStore GenericCache" "at 1 0" "''k''" _ _ demo_world]
  by (simp add: NewCacheWithPool_def)

lemma gc_AddExistingEntry_mem:
  assumes "usable mem_ops c" "mem_inv (w_store w)"
  shows "fst (gc_AddExistingEntry now0 now k e x c w) = Ret None"
    "mem_inv (w_store (snd (gc_AddExistingEntry now0 now k e x c w)))"
    "mem_content (w_store (snd (gc_AddExistingEntry now0 now k e x c w))) k = Some \<lparr>Data = Data e, TimeAdded = t_sec now,
       ExpiresAt = expiry_of (w_store w) now ((x - t_sec now0) * time_Second)\<rparr>"
  using mem.store_set [OF assms(1) _ mem.settable_entry, of "logDebug c _ w"] assms(2)
  by (simp_all add: gc_AddExistingEntry_def mem_stored_def box_entry_def)

lemma gc_Add_mem:
  assumes "usable mem_ops c" "mem_inv (w_store w)" "mem_content (w_store w) k = None"
  shows "fst (gc_Add now k (box_entry e) exp c w) = Ret None"
    "mem_inv (w_store (snd (gc_Add now k (box_entry e) exp c w)))"
    "mem_content (w_store (snd (gc_Add now k (box_entry e) exp c w))) k = Some \<lparr>Data = Data e, TimeAdded = t_sec now,
       ExpiresAt = expiry_of (w_store w) now (if exp \<noteq> 0 then exp else gc_DefaultExp c)\<rparr>"
proof -
  define t where "t = (if exp \<noteq> 0 then exp else gc_DefaultExp c)"
  define w1 where "w1 = logDebug c (Fmt ''GenericCache.Add: L%v/T%v key == %s'' (lt c @ [LStr k])) w"
  note add = store_after_touch [OF assms(2) mem.settable_entry, of now k e t]
    mem_doAddSet_inv [OF after_get(1) [OF assms(2) refl], of now k "box_entry e" t k]
  have "gc_Cache c \<noteq> None" using usable_cache [OF assms(1)] .
  then have "gc_Add now k (box_entry e) exp c w
      = report_err ''GenericCache.Add'' c (on_store (\<lambda>st. m_Add st now k (box_entry e) t) (gc_Cache c) w1)"
    unfolding gc_Add_def t_def w1_def Let_def by (simp only: if_False)
  then have "gc_Add now k (box_entry e) exp c w
      = (Ret None, w1\<lparr>w_store := snd (mem_doAddSet now k (box_entry e) t (touched k (w_store w)))\<rparr>)"
    using add(1) assms(1,3) by (simp add: usable_def on_store_Some mem_ops_def w1_def mem_Add_eq [OF assms(2)])
  then show "fst (gc_Add now k (box_entry e) exp c w) = Ret None"
    "mem_inv (w_store (snd (gc_Add now k (box_entry e) exp c w)))"
    "mem_content (w_store (snd (gc_Add now k (box_entry e) exp c w))) k = Some \<lparr>Data = Data e, TimeAdded = t_sec now,
       ExpiresAt = expiry_of (w_store w) now (if exp \<noteq> 0 then exp else gc_DefaultExp c)\<rparr>"
    using add unfolding t_def [symmetric] by (simp_all add: mem_stored_def box_entry_def)
qed

text \<open>
  C33: Encryption covers \<open>Set\<close> only: \<open>Add\<close> and \<open>AddExistingEntry\<close> on an encrypting cache succeed and
  leave the data in the store unencrypted, and reading such an entry back through the same cache
  panics in the assertion to \<open>[]byte\<close>, as long as it has not expired.
\<close>

theorem gc_Add_unencrypted:
  assumes "usable mem_ops c" "mem_inv (w_store w)" "gc_EncryptData c" "\<forall>b. Data e \<noteq> VBytes b"
  shows "(let (r, w') = gc_AddExistingEntry now0 now k e x c w in
      r = Ret None \<and> (\<exists>f. mem_content (w_store w') k = Some f \<and> Data f = Data e
        \<and> (\<not> Expired later f \<longrightarrow> panics (fst (gc_Get dec later k (TPtr TEntry) c w')))))
    \<and> (mem_content (w_store w) k = None \<longrightarrow> (let (r, w') = gc_Add now k (box_entry e) exp c w in
      r = Ret None \<and> (\<exists>f. mem_content (w_store w') k = Some f \<and> Data f = Data e
        \<and> (\<not> Expired later f \<longrightarrow> panics (fst (gc_Get dec later k (TPtr TEntry) c w'))))))"
  using gc_AddExistingEntry_mem [OF assms(1,2), of now0 now k e x] gc_Add_mem [OF assms(1,2), of k now e exp] assms(4)
    mem.gc_Get_unsealed [OF assms(1) _ _ _ assms(3), of "snd (gc_AddExistingEntry now0 now k e x c w)" k _ later dec]
    mem.gc_Get_unsealed [OF assms(1) _ _ _ assms(3), of "snd (gc_Add now k (box_entry e) exp c w)" k _ later dec]
  by (simp add: case_prod_beta)

theorem gc_Add_unencrypted_witness:
  "fst (gc_Add (at 1000 0) ''k'' (box_entry demo_entry) FOREVER (demo_cache True) demo_world) = Ret None
   \<and> panics (fst (gc_Get string_dec (at 1000 0) ''k'' (TPtr TEntry) (demo_cache True)
       (snd (gc_Add (at 1000 0) ''k'' (box_entry demo_entry) FOREVER (demo_cache True) demo_world))))"
proof -
  have "\<not> Expired (at 1000 0) \<lparr>Data = Data demo_entry, TimeAdded = t_sec (at 1000 0),
      ExpiresAt = expiry_of (w_store demo_world) (at 1000 0) (if FOREVER \<noteq> 0 then FOREVER else gc_DefaultExp (demo_cache True))\<rparr>"
    by (simp add: Expired_def expiry_of_def FOREVER_def)
  with gc_Add_unencrypted [OF demo_usable(1) demo_inv(1), of True demo_entry "at 0 0" "at 1000 0" "''k''" 0 "at 1000 0" string_dec FOREVER]
    gc_Add_mem(3) [OF demo_usable(1) [of True] demo_inv(1) demo_inv(2) [of "''k''"], of "at 1000 0" demo_entry FOREVER]
  show ?thesis by (simp add: demo_usable demo_inv demo_entry_def case_prod_beta)
qed

text \<open>Turning seconds into a duration and back loses nothing below 292 years.\<close>

lemma seconds_roundtrip:
  assumes "\<bar>sint d\<bar> \<le> 9223372036"
  shows "go_div (d * time_Second) time_Second = d" "d * time_Second \<noteq> FOREVER" "d * time_Second = 0 \<longleftrightarrow> d = 0"
proof -
  have s: "sint time_Second = 1000000000" "sint FOREVER = -1" by (simp_all add: time_Second_def FOREVER_def)
  have "d * time_Second = word_of_int (sint d * 1000000000)"
    by (simp add: time_Second_def of_int_sint)
  moreover have "- (2 ^ 63) \<le> sint d * 1000000000" "sint d * 1000000000 < 2 ^ 63" using assms by auto
  ultimately have m: "sint (d * time_Second) = sint d * 1000000000" using sint_word_of_int64 by metis
  have "sint (go_div (d * time_Second) time_Second) = sint d"
    by (simp add: sint_seconds m signed_divide_int_def sgn_mult abs_mult sgn_mult_abs)
  then show "go_div (d * time_Second) time_Second = d" by (rule signed_word_eqI)
  have "sint d * 1000000000 \<noteq> -1" by (cases "0 \<le> sint d") linarith+
  then show "d * time_Second \<noteq> FOREVER" using m s(2) by metis
  show "d * time_Second = 0 \<longleftrightarrow> d = 0"
    using m by (metis mult_eq_0_iff signed_word_eqI sint_0 zero_neq_numeral)
qed

text \<open>
  \<open>AddExistingEntry\<close> over the in-memory store, for a time stamp within 292 years of the clock:
  the stored entry expires as long after the store's clock reading as the time stamp lies after the
  cache's reading, so at the given time when both readings fall into one second; but a time stamp
  equal to the clock's second gives the store's default expiry instead.
\<close>

theorem gc_AddExistingEntry_expiry:
  assumes "usable mem_ops c" "mem_inv (w_store w)" "\<bar>sint (x - t_sec now0)\<bar> \<le> 9223372036"
  shows "fst (gc_AddExistingEntry now0 now k e x c w) = Ret None
    \<and> mem_content (w_store (snd (gc_AddExistingEntry now0 now k e x c w))) k = Some \<lparr>Data = Data e, TimeAdded = t_sec now,
        ExpiresAt = (if x = t_sec now0 then t_sec now + go_div (store_DefaultExp (w_store w)) time_Second
                     else t_sec now + (x - t_sec now0))\<rparr>"
  using gc_AddExistingEntry_mem [OF assms(1,2)] seconds_roundtrip [OF assms(3)] by (simp add: expiry_of_def)

theorem gc_AddExistingEntry_expiry_witness:
  "mem_content (w_store (snd (gc_AddExistingEntry (at 1000 0) (at 1000 0) ''k'' demo_entry 1000 (demo_cache False) demo_world))) ''k''
    = Some \<lparr>Data = VString ''secret'', TimeAdded = 1000, ExpiresAt = 1030\<rparr>
   \<and> mem_content (w_store (snd (gc_AddExistingEntry (at 1000 0) (at 1000 0) ''k'' demo_entry 1007 (demo_cache False) demo_world))) ''k''
    = Some \<lparr>Data = VString ''secret'', TimeAdded = 1000, ExpiresAt = 1007\<rparr>"
  using gc_AddExistingEntry_expiry [OF demo_usable(1) [of False] demo_inv(1), where x = 1000 and now0 = "at 1000 0" and now = "at 1000 0" and k = "''k''" and e = demo_entry]
    gc_AddExistingEntry_expiry [OF demo_usable(1) [of False] demo_inv(1), where x = 1007 and now0 = "at 1000 0" and now = "at 1000 0" and k = "''k''" and e = demo_entry]
  by (simp add: at_def demo_entry_def demo_world_def mem0_def go_div_def time_Second_def signed_divide_int_def)

text \<open>Two pools: one state holds both stores, and each store works on its half.\<close>

definition on_fst :: "('a \<Rightarrow> 'r \<times> 'a) \<Rightarrow> 'a \<times> 'b \<Rightarrow> 'r \<times> 'a \<times> 'b" where
  "on_fst f w = (case f (fst w) of (r, a) \<Rightarrow> (r, a, snd w))"

definition on_snd :: "('b \<Rightarrow> 'r \<times> 'b) \<Rightarrow> 'a \<times> 'b \<Rightarrow> 'r \<times> 'a \<times> 'b" where
  "on_snd f w = (case f (snd w) of (r, b) \<Rightarrow> (r, fst w, b))"

definition lift_fst :: "'a CacheStore \<Rightarrow> ('a \<times> 'b) CacheStore" where
  "lift_fst st = \<lparr>m_Get = \<lambda>now k ty. on_fst (m_Get st now k ty), m_Set = \<lambda>now k v e. on_fst (m_Set st now k v e),
     m_Add = \<lambda>now k v e. on_fst (m_Add st now k v e), m_Replace = \<lambda>now k v e. on_fst (m_Replace st now k v e),
     m_Delete = \<lambda>now k. on_fst (m_Delete st now k), m_Increment = \<lambda>now k n. on_fst (m_Increment st now k n),
     m_Decrement = \<lambda>now k n. on_fst (m_Decrement st now k n), m_Flush = \<lambda>now. on_fst (m_Flush st now)\<rparr>"

definition lift_snd :: "'b CacheStore \<Rightarrow> ('a \<times> 'b) CacheStore" where
  "lift_snd st = \<lparr>m_Get = \<lambda>now k ty. on_snd (m_Get st now k ty), m_Set = \<lambda>now k v e. on_snd (m_Set st now k v e),
     m_Add = \<lambda>now k v e. on_snd (m_Add st now k v e), m_Replace = \<lambda>now k v e. on_snd (m_Replace st now k v e),
     m_Delete = \<lambda>now k. on_snd (m_Delete st now k), m_Increment = \<lambda>now k n. on_snd (m_Increment st now k n),
     m_Decrement = \<lambda>now k n. on_snd (m_Decrement st now k n), m_Flush = \<lambda>now. on_snd (m_Flush st now)\<rparr>"

lemma on_fst_simps [simp]:
  "fst (on_fst f w) = fst (f (fst w))" "fst (snd (on_fst f w)) = snd (f (fst w))" "snd (snd (on_fst f w)) = snd w"
  by (simp_all add: on_fst_def case_prod_beta)

lemma on_snd_simps [simp]:
  "fst (on_snd f w) = fst (f (snd w))" "snd (snd (on_snd f w)) = snd (f (snd w))" "fst (snd (on_snd f w)) = fst w"
  by (simp_all add: on_snd_def case_prod_beta)

lemma lift_stores:
  assumes "cache_store st ok content stored settable"
  shows "cache_store (lift_fst st) (\<lambda>w. ok (fst w)) (\<lambda>w. content (fst w)) (\<lambda>w. stored (fst w)) settable"
    "cache_store (lift_snd st) (\<lambda>w. ok (snd w)) (\<lambda>w. content (snd w)) (\<lambda>w. stored (snd w)) settable"
  by (rule cache_store.intro; simp add: lift_fst_def lift_snd_def cache_store.set_ok [OF assms] cache_store.set_content [OF assms]
      cache_store.set_others [OF assms] cache_store.get_miss [OF assms] cache_store.get_entry [OF assms]
      cache_store.get_content [OF assms] cache_store.delete_content [OF assms] cache_store.delete_result [OF assms]
      cache_store.flush_content [OF assms] cache_store.flush_ok [OF assms] cache_store.inv_set [OF assms]
      cache_store.inv_get [OF assms] cache_store.inv_delete [OF assms] cache_store.inv_flush [OF assms]
      cache_store.settable_entry [OF assms] cache_store.stored_entry [OF assms])+

interpretation write_pool: cache_store "lift_fst mem_ops :: (inMemoryStore \<times> 'b) CacheStore" "\<lambda>w. mem_inv (fst w)"
  "\<lambda>w. mem_content (fst w)" "\<lambda>w. mem_stored (fst w)" mem_settable
  by (rule lift_stores(1) [OF mem.cache_store_axioms])

interpretation read_pool: cache_store "lift_snd mem_ops :: ('a \<times> inMemoryStore) CacheStore" "\<lambda>w. mem_inv (snd w)"
  "\<lambda>w. mem_content (snd w)" "\<lambda>w. mem_stored (snd w)" mem_settable
  by (rule lift_stores(2) [OF mem.cache_store_axioms])

lemma gc_Exists_multi:
  "gc_Exists dec now k (NewCacheWithMultiPools wc rc l s x p enc) w =
    (let rcache = NewCacheWithPool rc ReadOnly l s x p enc
     in (fst (gc_Exists_here dec now k rcache w), NewCacheWithMultiPools wc rc l s x p enc, snd (gc_Exists_here dec now k rcache w)))"
  by (simp add: NewCacheWithMultiPools_def NewCacheWithPool_def Let_def case_prod_beta)

text \<open>
  C32: With separate pools only \<open>Exists\<close> goes to the read pool. After a successful \<open>Set\<close>, \<open>Get\<close>
  returns the entry from the write pool until it expires, while \<open>Exists\<close> answers from the read
  pool alone: as long as that pool holds nothing under the key it reports a miss, and if it holds an
  entry it reports that one, whatever the write pool has.
\<close>

theorem gc_Exists_reads_read_pool:
  fixes w :: "(inMemoryStore \<times> inMemoryStore) world"
  assumes c_def: "c = NewCacheWithMultiPools (Some (StoreIface (lift_fst mem_ops))) (Some (StoreIface (lift_snd mem_ops))) l s x p False"
    and "mem_inv (fst (w_store w))" "mem_inv (snd (w_store w))"
  shows "let (r, w') = gc_Set enc now0 now k (box_entry e) exp c w;
             t = (if exp \<noteq> 0 then exp else gc_DefaultExp c);
             e' = \<lparr>Data = Data e, TimeAdded = t_sec now, ExpiresAt = expiry_of (fst (w_store w)) now t\<rparr>
         in r = Ret None
          \<and> fst (gc_Get dec later k (TPtr TEntry) c w')
              = Ret (if Expired later e' then (Some ErrCacheMiss, None) else (None, Some (box_entry e')))
          \<and> fst (gc_Exists dec later k c w')
              = Ret (case mem_content (snd (w_store w)) k of
                  None \<Rightarrow> (False, zero_entry, Some ErrCacheMiss)
                | Some f \<Rightarrow> if Expired later f then (False, zero_entry, Some ErrCacheMiss) else (True, f, None))"
proof -
  let ?t = "if exp \<noteq> 0 then exp else gc_DefaultExp c"
  let ?w' = "snd (gc_Set enc now0 now k (box_entry e) exp c w)"
  let ?rc = "NewCacheWithPool (Some (StoreIface (lift_snd mem_ops))) ReadOnly l s x p False :: (inMemoryStore \<times> inMemoryStore) GenericCache"
  have c: "usable (lift_fst mem_ops) c" "\<not> gc_EncryptData c" and rc: "usable (lift_snd mem_ops) ?rc" "\<not> gc_EncryptData ?rc"
    by (simp_all add: c_def usable_def NewCacheWithMultiPools_def NewCacheWithPool_def Let_def)
  obtain f where f: "fst (gc_Set enc now0 now k (box_entry e) exp c w) = Ret None"
    "mem_inv (fst (w_store ?w'))" "mem_content (fst (w_store ?w')) k = Some (mem_stored (fst (w_store w)) now (box_entry f) ?t)"
    and h: "holds dec c (Data e) (Data f)"
    using write_pool.gc_Set_stores [OF c(1) assms(2), of enc dec e now0 now k exp] c(2) by metis
  have st: "mem_stored (fst (w_store w)) now (box_entry f) ?t
      = \<lparr>Data = Data e, TimeAdded = t_sec now, ExpiresAt = expiry_of (fst (w_store w)) now ?t\<rparr>"
    using h c(2) by (simp add: mem_stored_def box_entry_def holds_def)
  have "snd (w_store ?w') = snd (w_store w)"
    using c by (auto simp: gc_Set_def Let_def usable_def on_store_Some report_err_def lift_fst_def split: outcome.splits option.splits)
  then have read: "mem_inv (snd (w_store ?w'))" "mem_content (snd (w_store ?w')) k = mem_content (snd (w_store w)) k"
    using assms(3) by simp_all
  have "fst (gc_Exists dec later k c ?w') = fst (gc_Exists_here dec later k ?rc ?w')"
    by (simp add: c_def gc_Exists_multi Let_def)
  moreover have "fst (gc_Get dec later k (TPtr TEntry) c ?w') = Ret (if Expired later (mem_stored (fst (w_store w)) now (box_entry f) ?t)
      then (Some ErrCacheMiss, None) else (None, Some (box_entry (mem_stored (fst (w_store w)) now (box_entry f) ?t))))"
    using write_pool.gc_Get_held [OF c(1) f(2,3), of dec "Data e" later] h c(2) by (simp add: holds_def st)
  ultimately show ?thesis
    using f(1) read_pool.gc_Exists_here_result(1) [OF rc(1) read(1), of k dec later]
      read_pool.gc_Exists_here_result(2) [OF rc(1) read(1), of k _ dec _ later] rc(2) read(2)
    by (simp add: st case_prod_beta Let_def holds_def split: option.splits)
qed

theorem gc_Exists_reads_read_pool_witness:
  "let c = NewCacheWithMultiPools (Some (StoreIface (lift_fst mem_ops))) (Some (StoreIface (lift_snd mem_ops))) L2 ''s'' 60 None False;
       (r, w') = gc_Set string_enc (at 1000 0) (at 1000 0) ''k'' (box_entry demo_entry) FOREVER c \<lparr>w_store = (mem0, mem0), w_log = []\<rparr>
   in r = Ret None \<and> fst (gc_Exists string_dec (at 1000 0) ''k'' c w') = Ret (False, zero_entry, Some ErrCacheMiss)"
  using gc_Exists_reads_read_pool [OF refl, where w = "\<lparr>w_store = (mem0, mem0), w_log = []\<rparr>" and l = L2 and s = "''s''" and x = 60
      and p = None and enc = string_enc and ?now0.0 = "at 1000 0" and now = "at 1000 0" and k = "''k''" and e = demo_entry
      and exp = FOREVER and dec = string_dec and later = "at 1000 0"]
  by (simp add: mem0_inv case_prod_beta Let_def)

lemma GetKey_eq:
  "GetKey c d = (case gc_KeyPrefix c of Some p \<Rightarrow> string_of_bytes p @ ''::'' | None \<Rightarrow> []) @ entrySignature d (gc_sharedSecret c)"
  by (simp add: GetKey_def split: option.splits)

text \<open>
  The keys \<open>GetKey\<close> makes: the prefix and \<open>::\<close> if there is a prefix, then 64 lower-case hexadecimal
  digits. Two byte strings get the same key exactly when their HMACs under the shared secret agree,
  and the key depends on nothing but the prefix, the secret and the data.
\<close>

theorem GetKey_shape:
  "(\<exists>sig. GetKey c d = (case gc_KeyPrefix c of Some p \<Rightarrow> string_of_bytes p @ ''::'' | None \<Rightarrow> []) @ sig
      \<and> length sig = 64 \<and> set sig \<subseteq> set ''0123456789abcdef'')
   \<and> (GetKey c d = GetKey c d' \<longleftrightarrow> hmac_Sum (gc_sharedSecret c) d = hmac_Sum (gc_sharedSecret c) d')
   \<and> GetKey (NewCacheWithPool (gc_Cache c) t l s x (gc_KeyPrefix c) enc) d
      = GetKey (NewCacheWithPool None t' l' s x' (gc_KeyPrefix c) enc') d"
proof -
  have "length (entrySignature d s) = 64" "set (entrySignature d s) \<subseteq> set ''0123456789abcdef''" for s
    using EncodeToString_digits [of "hmac_Sum s d"]
    by (simp_all add: entrySignature_def Let_def EncodeToString_length hmac_Sum_length hextable_def)
  moreover have "GetKey c d = GetKey c d' \<longleftrightarrow> hmac_Sum (gc_sharedSecret c) d = hmac_Sum (gc_sharedSecret c) d'"
    by (simp add: GetKey_eq entrySignature_def Let_def EncodeToString_inj)
  ultimately show ?thesis by (auto simp: GetKey_eq NewCacheWithPool_def Let_def)
qed

text \<open>
  \<open>Flush\<close> and \<open>Delete\<close>: on any store whose \<open>Flush\<close> returns, the cache's \<open>Flush\<close> reports
  success even if the store's reported an error. On the in-memory store nothing is found afterwards;
  \<open>Delete\<close> reports a miss exactly when nothing was stored, and the key is not found afterwards.
\<close>

theorem gc_Flush_Delete:
  assumes "Option.bind (gc_Cache c) as_store = Some st" "fst (m_Flush st now (w_store w)) = Ret r"
    and "usable mem_ops c'" "mem_inv (w_store w')"
  shows "fst (gc_Flush now c w) = Ret None
    \<and> mem_content (w_store (snd (gc_Flush now c' w'))) = Map.empty
    \<and> fst (gc_Delete now k c' w') = Ret (if mem_content (w_store w') k = None then Some ErrCacheMiss else None)
    \<and> fst (gc_Get dec later k (TPtr TEntry) c' (snd (gc_Delete now k c' w'))) = Ret (Some ErrCacheMiss, None)"
proof -
  have "gc_Cache c \<noteq> None" using bind_as_store [OF assms(1)] .
  then have "fst (gc_Flush now c w) = Ret None"
    using assms(1,2) by (auto simp: gc_Flush_def Let_def on_store_Some)
  moreover note use = assms(3) [unfolded usable_def, THEN conjunct1] usable_cache [OF assms(3)]
  have "mem_content (w_store (snd (gc_Flush now c' w'))) = Map.empty"
    using use mem.flush_ok [OF assms(4), of now] mem.flush_content [OF assms(4), of now]
    by (auto simp: gc_Flush_def Let_def on_store_Some)
  moreover have del: "gc_Delete now k c' w' = (Ret (if mem_content (w_store w') k = None then Some ErrCacheMiss else None),
      (logDebug c' (Fmt ''GenericCache.Delete: L%v/T%v key == %s'' (lt c' @ [LStr k])) w')
        \<lparr>w_store := snd (m_Delete mem_ops now k (w_store w'))\<rparr>)"
    using use mem.delete_result [OF assms(4), of now k] by (auto simp: gc_Delete_def Let_def on_store_Some)
  moreover have "mem_content (snd (m_Delete mem_ops now k (w_store w'))) k = None"
    using mem.delete_content [OF assms(4), of now k] by (rule map_le_None) simp
  ultimately show ?thesis
    using mem.gc_Get_missing [OF assms(3), of "snd (gc_Delete now k c' w')" k dec later] mem.inv_delete [OF assms(4), of now k]
    by simp
qed

theorem gc_Flush_Delete_witness:
  "mem_content (w_store (snd (gc_Flush (at 1000 0) (demo_cache False) demo_world))) = Map.empty
   \<and> fst (gc_Delete (at 1000 0) ''k'' (demo_cache False) demo_world) = Ret (Some ErrCacheMiss)"
  using gc_Flush_Delete [of "demo_cache False" mem_ops "at 1000 0" demo_world None "demo_cache False" demo_world "''k''" string_dec "at 1000 0"]
    mem.flush_ok [OF demo_inv(1)]
  by (simp add: demo_usable demo_inv)

end
