(* ===== verification/Redigo.thy ===== *)
theory Redigo
  imports GoValues
begin

text \<open>
  What the Redis store uses of the client library \<open>vendor/github.com/gomodule/redigo/redis\<close>: replies
  and their conversions (\<open>reply.go\<close>), and the connection pool (\<open>pool.go\<close>), with the number parsing of
  the standard library.

  The network with its servers is a parameter, a record \<open>Net\<close> of functions over its state. Numbers
  arrive at a server in decimal, so the arguments of a command are strings.
\<close>

section \<open>Parsing numbers\<close>

text \<open>The error texts of \<open>strconv\<close>; the quotes are exact for printable characters.\<close>

definition quoted :: "string \<Rightarrow> string" where
  "quoted s = CHR 0x22 # s @ [CHR 0x22]"

definition syntaxError :: "string \<Rightarrow> string \<Rightarrow> error" where
  "syntaxError fn s = ErrExt (''strconv.'' @ fn @ '': parsing '' @ quoted s @ '': invalid syntax'')"

definition rangeError :: "string \<Rightarrow> string \<Rightarrow> error" where
  "rangeError fn s = ErrExt (''strconv.'' @ fn @ '': parsing '' @ quoted s @ '': value out of range'')"

datatype scan = Scanned nat | BadSyntax | TooLarge

fun scan_digits :: "nat \<Rightarrow> string \<Rightarrow> scan" where
  "scan_digits n [] = Scanned n"
| "scan_digits n (c # cs) =
     (let k = of_char c :: nat in
      if \<not> (48 \<le> k \<and> k \<le> 57) then BadSyntax
      else if n \<ge> (2 ^ 64 - 1) div 10 + 1 \<or> n * 10 + (k - 48) > 2 ^ 64 - 1 then TooLarge
      else scan_digits (n * 10 + (k - 48)) cs)"

definition scan_uint :: "string \<Rightarrow> scan" where
  "scan_uint s = (if s = [] then BadSyntax else scan_digits 0 s)"

definition ParseUint :: "string \<Rightarrow> uint64 \<times> error option" where
  "ParseUint s =
     (case scan_uint s of
        Scanned n \<Rightarrow> (of_nat n, None)
      | BadSyntax \<Rightarrow> (0, Some (syntaxError ''ParseUint'' s))
      | TooLarge \<Rightarrow> (- 1, Some (rangeError ''ParseUint'' s)))"

definition ParseInt :: "string \<Rightarrow> int64 \<times> error option" where
  "ParseInt s0 =
     (let neg = (s0 \<noteq> [] \<and> hd s0 = CHR ''-''); s = (if s0 \<noteq> [] \<and> hd s0 \<in> {CHR ''+'', CHR ''-''} then tl s0 else s0) in
      case scan_uint s of
        BadSyntax \<Rightarrow> (0, Some (syntaxError ''ParseInt'' s0))
      | TooLarge \<Rightarrow> (if neg then 2 ^ 63 else 2 ^ 63 - 1, Some (rangeError ''ParseInt'' s0))
      | Scanned un \<Rightarrow>
          if \<not> neg \<and> un \<ge> 2 ^ 63 then (2 ^ 63 - 1, Some (rangeError ''ParseInt'' s0))
          else if neg \<and> un > 2 ^ 63 then (2 ^ 63, Some (rangeError ''ParseInt'' s0))
          else (if neg then - of_nat un else of_nat un, None))"

definition ParseBool :: "string \<Rightarrow> bool \<times> error option" where
  "ParseBool s =
     (if s \<in> {''1'', ''t'', ''T'', ''true'', ''TRUE'', ''True''} then (True, None)
      else if s \<in> {''0'', ''f'', ''F'', ''false'', ''FALSE'', ''False''} then (False, None)
      else (False, Some (syntaxError ''ParseBool'' s)))"

definition show_uint :: "uint64 \<Rightarrow> string" where
  "show_uint w = show_nat (unat w)"

text \<open>Parsing inverts printing.\<close>

lemma scan_digits_append:
  "scan_digits n (s @ t) = (case scan_digits n s of Scanned m \<Rightarrow> scan_digits m t | r \<Rightarrow> r)"
  by (induction n s rule: scan_digits.induct) (simp_all add: Let_def)

lemma scan_show_nat: "m < 2 ^ 64 \<Longrightarrow> scan_digits 0 (show_nat m) = Scanned m"
proof (induction m rule: show_nat.induct)
  case (1 n)
  have d: "(of_char (char_of (k + 48 :: nat) :: char) :: nat) = k + 48" if "k < 10" for k using that by simp
  show ?case
  proof (cases "n < 10")
    case True
    then show ?thesis using d [OF True] by (subst show_nat.simps) simp
  next
    case False
    have "n div 10 < 2 ^ 64" "n div 10 < (2 ^ 64 - 1) div 10 + 1" "n div 10 * 10 + n mod 10 = n" using "1.prems" by simp_all
    then show ?thesis
      using "1.IH" [OF False] d [of "n mod 10"] "1.prems" False by (subst show_nat.simps) (simp add: scan_digits_append Let_def)
  qed
qed

lemma show_nat_not_Nil [simp]: "show_nat n \<noteq> []"
  by (subst show_nat.simps) simp

lemma show_nat_digit: "c \<in> set (show_nat n) \<Longrightarrow> 48 \<le> (of_char c :: nat) \<and> (of_char c :: nat) \<le> 57"
proof (induction n rule: show_nat.induct)
  case (1 n)
  from "1.prems" show ?case
    by (subst (asm) show_nat.simps) (auto split: if_splits dest: "1.IH")
qed

lemma scan_uint_show: "m < 2 ^ 64 \<Longrightarrow> scan_uint (show_nat m) = Scanned m"
  by (simp add: scan_uint_def scan_show_nat)

lemma ParseUint_show: "ParseUint (show_uint w) = (w, None)"
proof -
  have "unat w < 2 ^ LENGTH(64)" by (rule unsigned_less)
  then show ?thesis by (simp add: ParseUint_def show_uint_def scan_uint_show)
qed

lemma hd_show_nat: "hd (show_nat n) \<noteq> CHR ''-''" "hd (show_nat n) \<noteq> CHR ''+''"
  using show_nat_digit [OF hd_in_set [OF show_nat_not_Nil], of n] by auto

lemma ParseInt_show: "ParseInt (show_int w) = (w, None)"
proof (cases "sint w < 0")
  case True
  then have n: "nat (- sint w) \<le> 2 ^ 63" using sint_bounds64 [of w] by simp
  have "- word_of_nat (nat (- sint w)) = (word_of_int (sint w) :: int64)" using True by simp
  then show ?thesis using True n scan_uint_show [of "nat (- sint w)"]
    by (simp add: ParseInt_def show_int_def Let_def of_int_sint)
next
  case False
  then have n: "nat (sint w) < 2 ^ 63" using sint_bounds64 [of w] by simp
  have "word_of_nat (nat (sint w)) = (word_of_int (sint w) :: int64)" using False by simp
  then show ?thesis using False n scan_uint_show [of "nat (sint w)"]
    by (simp add: ParseInt_def show_int_def Let_def hd_show_nat of_int_sint)
qed

section \<open>Replies\<close>

text \<open>Nil, integers, bulk strings, status lines, arrays, and errors of the server.\<close>

datatype reply = RNil | RInt int64 | RBulk bytes | RStatus string | RArray "reply list" | RError string

fun reply_type :: "reply \<Rightarrow> string" where
  "reply_type (RStatus _) = ''string''"
| "reply_type (RArray _) = ''[]interface {}''"
| "reply_type (RInt _) = ''int64''"
| "reply_type (RBulk _) = ''[]uint8''"
| "reply_type (RError _) = ''redis.Error''"
| "reply_type RNil = ''<nil>''"

definition ErrNil :: error where
  "ErrNil = ErrExt ''redigo: nil returned''"

fun reply_Int64 :: "reply \<times> error option \<Rightarrow> int64 \<times> error option" where
  "reply_Int64 (r, Some err) = (0, Some err)"
| "reply_Int64 (RInt n, None) = (n, None)"
| "reply_Int64 (RBulk b, None) = ParseInt (string_of_bytes b)"
| "reply_Int64 (RNil, None) = (0, Some ErrNil)"
| "reply_Int64 (RError e, None) = (0, Some (ErrExt e))"
| "reply_Int64 (r, None) = (0, Some (Errorf ''redigo: unexpected type for Int64, got type %s'' [reply_type r]))"

fun reply_Bytes :: "reply \<times> error option \<Rightarrow> error + bytes" where
  "reply_Bytes (r, Some err) = Inl err"
| "reply_Bytes (RBulk b, None) = Inr b"
| "reply_Bytes (RStatus s, None) = Inr (bytes_of_string s)"
| "reply_Bytes (RNil, None) = Inl ErrNil"
| "reply_Bytes (RError e, None) = Inl (ErrExt e)"
| "reply_Bytes (r, None) = Inl (Errorf ''redigo: unexpected type for Bytes, got type %s'' [reply_type r])"

fun reply_Bool :: "reply \<times> error option \<Rightarrow> bool \<times> error option" where
  "reply_Bool (r, Some err) = (False, Some err)"
| "reply_Bool (RInt n, None) = (n \<noteq> 0, None)"
| "reply_Bool (RBulk b, None) = ParseBool (string_of_bytes b)"
| "reply_Bool (RNil, None) = (False, Some ErrNil)"
| "reply_Bool (RError e, None) = (False, Some (ErrExt e))"
| "reply_Bool (r, None) = (False, Some (Errorf ''redigo: unexpected type for Bool, got type %s'' [reply_type r]))"

section \<open>The network\<close>

text \<open>
  Dialling an address (network, address, connection, read and write timeout), commands on a
  connection, their buffered form \<open>Send\<close>, whether a connection is broken, and closing it; and from the
  sentinel package the master's address (for the sentinels' addresses, the master's name, and the
  timeouts its own connections use) and the check of a server's role.
\<close>

type_synonym conn = nat

record 'n Net =
  n_Dial :: "string \<Rightarrow> string \<Rightarrow> duration \<Rightarrow> duration \<Rightarrow> duration \<Rightarrow> 'n \<Rightarrow> (error + conn) \<times> 'n"
  n_Do :: "conn \<Rightarrow> string \<Rightarrow> string list \<Rightarrow> 'n \<Rightarrow> (reply \<times> error option) \<times> 'n"
  n_Send :: "conn \<Rightarrow> string \<Rightarrow> string list \<Rightarrow> 'n \<Rightarrow> error option \<times> 'n"
  n_Err :: "conn \<Rightarrow> 'n \<Rightarrow> error option"
  n_Close :: "conn \<Rightarrow> 'n \<Rightarrow> 'n"
  n_MasterAddr :: "string list \<Rightarrow> string \<Rightarrow> duration \<Rightarrow> duration \<Rightarrow> 'n \<Rightarrow> (error + string) \<times> 'n"
  n_TestRole :: "conn \<Rightarrow> string \<Rightarrow> 'n \<Rightarrow> bool \<times> 'n"

section \<open>Clock arithmetic\<close>

definition time_Add :: "Time \<Rightarrow> duration \<Rightarrow> Time" where
  "time_Add t d =
     (let dsec = go_div d time_Second; nsec = t_nsec t + (sint d - sint d sdiv 1000000000 * 1000000000) in
      if nsec \<ge> 1000000000 then \<lparr>t_sec = t_sec t + (dsec + 1), t_nsec = nsec - 1000000000\<rparr>
      else if nsec < 0 then \<lparr>t_sec = t_sec t + (dsec - 1), t_nsec = nsec + 1000000000\<rparr>
      else \<lparr>t_sec = t_sec t + dsec, t_nsec = nsec\<rparr>)"

text \<open>\<open>t.Sub(u)\<close> saturates: the wrapped difference is right if adding it to \<open>u\<close> gives \<open>t\<close>.\<close>

definition time_Sub :: "Time \<Rightarrow> Time \<Rightarrow> duration" where
  "time_Sub t u =
     (let d = (t_sec t - t_sec u) * time_Second + word_of_int (t_nsec t - t_nsec u) in
      if time_Add u d = t then d else if Before t u then 2 ^ 63 else 2 ^ 63 - 1)"

definition time_Minute :: duration where
  "time_Minute = 60 * time_Second"

definition time_Millisecond :: duration where
  "time_Millisecond = 1000000"

section \<open>The connection pool\<close>

text \<open>
  The configuration of a \<open>redis.Pool\<close>. \<open>TestOnBorrow\<close> gets the time, the connection and the time it
  was put back. The pools of the program always have it, and never set \<open>MaxConnLifetime\<close>.
\<close>

record 'n Pool =
  p_Dial :: "'n \<Rightarrow> (error + conn) \<times> 'n"
  p_TestOnBorrow :: "Time \<Rightarrow> conn \<Rightarrow> Time \<Rightarrow> 'n \<Rightarrow> error option \<times> 'n"
  p_MaxIdle :: int
  p_MaxActive :: int
  p_IdleTimeout :: duration
  p_Wait :: bool

record poolConn =
  pc_c :: conn
  pc_t :: Time
  pc_created :: Time

text \<open>
  Its state: the idle connections, front first, the number of open ones, and the tokens in the channel
  that limits them (\<open>None\<close> until it is made), beside the network.
\<close>

record 'n pooled =
  ps_net :: 'n
  ps_idle :: "poolConn list"
  ps_active :: int
  ps_ch :: "int option"

fun prune :: "'n Net \<Rightarrow> Time \<Rightarrow> duration \<Rightarrow> poolConn list \<Rightarrow> int \<Rightarrow> 'n \<Rightarrow> poolConn list \<times> int \<times> 'n" where
  "prune net now timeout [] active n = ([], active, n)"
| "prune net now timeout (pc # pcs) active n =
     (if Before (time_Add (pc_t pc) timeout) now then prune net now timeout pcs (active - 1) (n_Close net (pc_c pc) n)
      else (pc # pcs, active, n))"

fun borrow :: "'n Net \<Rightarrow> 'n Pool \<Rightarrow> Time \<Rightarrow> poolConn list \<Rightarrow> int \<Rightarrow> 'n \<Rightarrow> poolConn option \<times> poolConn list \<times> int \<times> 'n" where
  "borrow net pool now [] active n = (None, [], active, n)"
| "borrow net pool now (pc # pcs) active n =
     (case p_TestOnBorrow pool now (pc_c pc) (pc_t pc) n of
        (None, n1) \<Rightarrow> (Some pc, pcs, active, n1)
      | (Some err, n1) \<Rightarrow> borrow net pool now pcs (active - 1) (n_Close net (pc_c pc) n1))"

definition ErrPoolExhausted :: error where
  "ErrPoolExhausted = ErrExt ''redigo: connection pool exhausted''"

definition waits :: "'n Pool \<Rightarrow> bool" where
  "waits pool \<longleftrightarrow> p_Wait pool \<and> 0 < p_MaxActive pool"

definition tokens :: "'n Pool \<Rightarrow> 'n pooled \<Rightarrow> int" where
  "tokens pool s = (case ps_ch s of None \<Rightarrow> p_MaxActive pool | Some t \<Rightarrow> t)"

text \<open>\<open>get\<close>: the result \<open>None\<close> is waiting for a token. Dialling comes last.\<close>

definition dial_new :: "'n Pool \<Rightarrow> Time \<Rightarrow> 'n pooled \<Rightarrow> (error + poolConn) \<times> 'n pooled" where
  "dial_new pool now s =
     (if \<not> p_Wait pool \<and> 0 < p_MaxActive pool \<and> p_MaxActive pool \<le> ps_active s then (Inl ErrPoolExhausted, s)
      else case p_Dial pool (ps_net s) of
        (Inl err, n) \<Rightarrow> (Inl err, s\<lparr>ps_net := n, ps_ch := map_option (\<lambda>t. t + 1) (ps_ch s)\<rparr>)
      | (Inr c, n) \<Rightarrow> (Inr \<lparr>pc_c = c, pc_t = time_Unix (- unixToInternal), pc_created = now\<rparr>, s\<lparr>ps_net := n, ps_active := ps_active s + 1\<rparr>))"

definition pool_get :: "'n Net \<Rightarrow> 'n Pool \<Rightarrow> Time \<Rightarrow> 'n pooled \<Rightarrow> (error + poolConn) option \<times> 'n pooled" where
  "pool_get net pool now s =
     (if waits pool \<and> tokens pool s \<le> 0 then (None, s\<lparr>ps_ch := Some (tokens pool s)\<rparr>)
      else
        let ch = (if waits pool then Some (tokens pool s - 1) else ps_ch s);
            (old, active1, n1) = (if 0 <s p_IdleTimeout pool then prune net now (p_IdleTimeout pool) (rev (ps_idle s)) (ps_active s) (ps_net s)
                                   else (rev (ps_idle s), ps_active s, ps_net s));
            (pc, idle, active2, n2) = borrow net pool now (rev old) active1 n1;
            s2 = \<lparr>ps_net = n2, ps_idle = idle, ps_active = active2, ps_ch = ch\<rparr>
        in case pc of
             Some pc \<Rightarrow> (Some (Inr pc), s2)
           | None \<Rightarrow> (case dial_new pool now s2 of (r, s3) \<Rightarrow> (Some r, s3)))"

text \<open>\<open>put\<close> takes a connection back, or closes it, or the longest idle one.\<close>

definition close_one :: "'n Net \<Rightarrow> poolConn \<Rightarrow> 'n pooled \<Rightarrow> 'n pooled" where
  "close_one net pc s = s\<lparr>ps_net := n_Close net (pc_c pc) (ps_net s), ps_active := ps_active s - 1\<rparr>"

definition pool_put :: "'n Net \<Rightarrow> 'n Pool \<Rightarrow> Time \<Rightarrow> poolConn \<Rightarrow> bool \<Rightarrow> 'n pooled \<Rightarrow> 'n pooled" where
  "pool_put net pool now pc forceClose s =
     (let s1 = (if forceClose then close_one net pc s
                else let idle = pc\<lparr>pc_t := now\<rparr> # ps_idle s in
                     if int (length idle) > p_MaxIdle pool then close_one net (last idle) (s\<lparr>ps_idle := butlast idle\<rparr>)
                     else s\<lparr>ps_idle := idle\<rparr>)
      in s1\<lparr>ps_ch := map_option (\<lambda>t. t + 1) (ps_ch s1)\<rparr>)"

text \<open>
  A borrowed connection, or the error that \<open>Get\<close> keeps for the first use. A connection remembers
  whether it has a \<open>WATCH\<close>; \<open>Close\<close> takes that back before the connection goes to the pool.
\<close>

datatype activeConn = ErrorConn error | ActiveConn poolConn bool

type_synonym 'n session = "activeConn \<times> 'n pooled"

definition watch_state :: "string \<Rightarrow> bool \<Rightarrow> bool" where
  "watch_state cmd watching = (if cmd = ''WATCH'' then True else if cmd = ''UNWATCH'' then False else watching)"

definition conn_Do :: "'n Net \<Rightarrow> string \<Rightarrow> string list \<Rightarrow> 'n session \<Rightarrow> (reply \<times> error option) \<times> 'n session" where
  "conn_Do net cmd args cs =
     (case cs of
        (ErrorConn err, s) \<Rightarrow> ((RNil, Some err), cs)
      | (ActiveConn pc watching, s) \<Rightarrow>
          (case n_Do net (pc_c pc) cmd args (ps_net s) of
             (r, n) \<Rightarrow> (r, (ActiveConn pc (watch_state cmd watching), s\<lparr>ps_net := n\<rparr>))))"

definition conn_Close :: "'n Net \<Rightarrow> 'n Pool \<Rightarrow> Time \<Rightarrow> 'n session \<Rightarrow> 'n pooled" where
  "conn_Close net pool now cs =
     (case cs of
        (ErrorConn err, s) \<Rightarrow> s
      | (ActiveConn pc watching, s) \<Rightarrow>
          (let n1 = (if watching then snd (n_Send net (pc_c pc) ''UNWATCH'' [] (ps_net s)) else ps_net s);
               n2 = snd (n_Do net (pc_c pc) [] [] n1)
           in pool_put net pool now pc (n_Err net (pc_c pc) n2 \<noteq> None) (s\<lparr>ps_net := n2\<rparr>)))"

section \<open>The pool keeps its limits\<close>

text \<open>With \<open>u\<close> borrowed connections.\<close>

definition pool_inv :: "'n Pool \<Rightarrow> nat \<Rightarrow> 'n pooled \<Rightarrow> bool" where
  "pool_inv pool u s \<longleftrightarrow> ps_active s = int (length (ps_idle s)) + int u \<and> int (length (ps_idle s)) \<le> max 0 (p_MaxIdle pool)
     \<and> (0 < p_MaxActive pool \<longrightarrow> ps_active s \<le> p_MaxActive pool)
     \<and> (if waits pool then tokens pool s = p_MaxActive pool - int u else ps_ch s = None)"

lemma prune_count:
  "prune net now timeout pcs a n = (rest, a', n') \<Longrightarrow> a' - int (length rest) = a - int (length pcs) \<and> length rest \<le> length pcs"
  by (induction net now timeout pcs a n rule: prune.induct) (auto split: if_splits)

lemma borrow_count:
  "borrow net pool now pcs a n = (r, rest, a', n') \<Longrightarrow>
   a' - int (length rest) = a - int (length pcs) + (if r = None then 0 else 1) \<and> length rest \<le> length pcs
   \<and> (if r = None then rest = [] else length rest < length pcs)"
  by (induction net pool now pcs a n rule: borrow.induct) (auto split: option.splits prod.splits)

lemma dial_new_inv:
  assumes "ps_idle s = []" "ps_active s = int u" "0 < p_MaxActive pool \<longrightarrow> ps_active s \<le> p_MaxActive pool"
    and "if waits pool then ps_ch s = Some (p_MaxActive pool - int u - 1) \<and> int u < p_MaxActive pool else ps_ch s = None"
    and "dial_new pool now s = (r, s')"
  shows "pool_inv pool (case r of Inl _ \<Rightarrow> u | Inr _ \<Rightarrow> Suc u) s'"
  using assms by (auto simp: dial_new_def pool_inv_def tokens_def waits_def split: if_splits sum.splits prod.splits)

lemma tokens_inv: "pool_inv pool u s \<Longrightarrow> waits pool \<Longrightarrow> tokens pool s = p_MaxActive pool - int u"
  by (simp add: pool_inv_def)

lemma pool_get_blocks: "pool_inv pool u s \<Longrightarrow> fst (pool_get net pool now s) = None \<longleftrightarrow> waits pool \<and> p_MaxActive pool \<le> int u"
  by (auto simp: pool_get_def tokens_inv Let_def split: prod.splits option.splits)

lemma pool_get_inv:
  assumes inv: "pool_inv pool u s" and get: "pool_get net pool now s = (r, s')"
  shows "pool_inv pool (case r of Some (Inr _) \<Rightarrow> Suc u | _ \<Rightarrow> u) s'"
proof (cases "waits pool \<and> tokens pool s \<le> 0")
  case True
  then show ?thesis using assms by (auto simp: pool_get_def pool_inv_def tokens_def)
next
  case False
  obtain old a1 n1 where prune: "(if 0 <s p_IdleTimeout pool then prune net now (p_IdleTimeout pool) (rev (ps_idle s)) (ps_active s) (ps_net s)
      else (rev (ps_idle s), ps_active s, ps_net s)) = (old, a1, n1)" by (metis prod_cases3)
  obtain pc idle a2 n2 where borrow: "borrow net pool now (rev old) a1 n1 = (pc, idle, a2, n2)" by (metis prod_cases4)
  let ?ch = "if waits pool then Some (tokens pool s - 1) else ps_ch s"
  let ?s2 = "\<lparr>ps_net = n2, ps_idle = idle, ps_active = a2, ps_ch = ?ch\<rparr>"
  have c1: "a1 - int (length old) = int u" "length old \<le> length (ps_idle s)"
    using prune inv prune_count [of net now "p_IdleTimeout pool" "rev (ps_idle s)" "ps_active s" "ps_net s" old a1 n1]
    by (auto simp: pool_inv_def split: if_splits)
  have c2: "a2 - int (length idle) = int u + (if pc = None then 0 else 1)" "length idle \<le> length old"
    "if pc = None then idle = [] else length idle < length old"
    using borrow_count [OF borrow] c1 by auto
  have ch: "if waits pool then ?ch = Some (p_MaxActive pool - int u - 1) \<and> int u < p_MaxActive pool else ?ch = None"
    using inv False by (auto simp: pool_inv_def)
  have res: "(r, s') = (case pc of Some pc \<Rightarrow> (Some (Inr pc), ?s2) | None \<Rightarrow> (case dial_new pool now ?s2 of (r, s3) \<Rightarrow> (Some r, s3)))"
    using get False prune borrow by (auto simp: pool_get_def Let_def)
  show ?thesis
  proof (cases pc)
    case None
    obtain r3 s3 where d: "dial_new pool now ?s2 = (r3, s3)" by fastforce
    have "pool_inv pool (case r3 of Inl _ \<Rightarrow> u | Inr _ \<Rightarrow> Suc u) s3"
      using c2 ch None inv c1 by (intro dial_new_inv [OF _ _ _ _ d]) (auto simp: pool_inv_def)
    then show ?thesis using res None d by (auto split: sum.splits)
  next
    case (Some p)
    then have "r = Some (Inr p)" "s' = ?s2" using res by simp_all
    then show ?thesis using c1 c2 ch inv Some by (auto simp: pool_inv_def tokens_def)
  qed
qed

lemma pool_put_inv: "pool_inv pool (Suc u) s \<Longrightarrow> pool_inv pool u (pool_put net pool now pc forceClose s)"
  by (auto simp: pool_inv_def pool_put_def close_one_def tokens_def Let_def split: option.splits)

text \<open>
  The life of a pool: \<open>get\<close> and \<open>put\<close> in any order, and anything that happens in the network; \<open>out\<close> are
  the borrowed connections. \<open>get\<close> is one step here, although it gives up its lock while it dials.
\<close>

definition new_pool :: "'n \<Rightarrow> 'n pooled" where
  "new_pool n = \<lparr>ps_net = n, ps_idle = [], ps_active = 0, ps_ch = None\<rparr>"

inductive pool_reachable :: "'n Net \<Rightarrow> 'n Pool \<Rightarrow> poolConn list \<Rightarrow> 'n pooled \<Rightarrow> bool" for net pool where
  start: "pool_reachable net pool [] (new_pool n)"
| got: "pool_reachable net pool out s \<Longrightarrow> pool_get net pool now s = (Some (Inr pc), s') \<Longrightarrow> pool_reachable net pool (pc # out) s'"
| failed: "pool_reachable net pool out s \<Longrightarrow> pool_get net pool now s = (Some (Inl err), s') \<Longrightarrow> pool_reachable net pool out s'"
| blocked: "pool_reachable net pool out s \<Longrightarrow> pool_get net pool now s = (None, s') \<Longrightarrow> pool_reachable net pool out s'"
| put: "pool_reachable net pool out s \<Longrightarrow> pc \<in> set out \<Longrightarrow> pool_reachable net pool (remove1 pc out) (pool_put net pool now pc forceClose s)"
| network: "pool_reachable net pool out s \<Longrightarrow> pool_reachable net pool out (s\<lparr>ps_net := n\<rparr>)"

lemma pool_inv_net [simp]: "pool_inv pool u (s\<lparr>ps_net := n\<rparr>) = pool_inv pool u s"
  by (simp add: pool_inv_def tokens_def)

lemma pool_inv_new [simp]: "pool_inv pool 0 (new_pool n)"
  by (simp add: pool_inv_def new_pool_def tokens_def)

lemma pool_reachable_inv: "pool_reachable net pool out s \<Longrightarrow> pool_inv pool (length out) s"
proof (induction rule: pool_reachable.induct)
  case (got out s now pc s')
  then show ?case using pool_get_inv by fastforce
next
  case (failed out s now err s')
  then show ?case using pool_get_inv by fastforce
next
  case (blocked out s now s')
  then show ?case using pool_get_inv by fastforce
next
  case (put out s pc now forceClose)
  then have "length out = Suc (length (remove1 pc out))" using length_pos_if_in_set [of pc out] by (simp add: length_remove1)
  with put.IH show ?case by (intro pool_put_inv) simp
qed simp_all

text \<open>
  C12: Whatever is borrowed and put back, a connection pool counts its connections correctly, keeps at
  most \<open>MaxIdle\<close> idle and at most \<open>MaxActive\<close> open ones (when limited), and \<open>get\<close> waits exactly when
  the pool is one that waits and all \<open>MaxActive\<close> connections are borrowed.
\<close>

theorem pool_reachable_safe:
  assumes "pool_reachable net pool out s"
  shows "ps_active s = int (length (ps_idle s)) + int (length out)
    \<and> int (length (ps_idle s)) \<le> max 0 (p_MaxIdle pool)
    \<and> (0 < p_MaxActive pool \<longrightarrow> ps_active s \<le> p_MaxActive pool)
    \<and> (fst (pool_get net pool now s) = None \<longleftrightarrow> p_Wait pool \<and> 0 < p_MaxActive pool \<and> int (length out) = p_MaxActive pool)"
  using pool_reachable_inv [OF assms] pool_get_blocks [OF pool_reachable_inv [OF assms], of net now]
  by (auto simp: pool_inv_def waits_def)

end
