(* ===== verification/RedisStore.thy ===== *)
theory RedisStore
  imports CacheStore Redigo
begin

text \<open>
  The Redis store, \<open>vendor/github.com/Bose/cache/persistence/redis.go\<close>, with \<open>Serialize\<close> and
  \<open>Deserialize\<close> of \<open>vendor/github.com/Bose/cache/utils\<close>.

  Every method borrows a connection, sends its commands one by one and gives the connection back
  (the deferred \<open>Close\<close>). The network is the parameter \<open>net\<close>; \<open>enc\<close> and \<open>dec\<close> are gob's encoder and
  decoder, for values that are neither bytes nor integers. A named type of integer kind would be
  printed like the integers; the model's \<open>VUser\<close> stands for the other named types.
\<close>

section \<open>Serialization\<close>

fun num_bits :: "numtype \<Rightarrow> nat" where
  "num_bits Int8 = 8" | "num_bits Int16 = 16" | "num_bits Int32 = 32" | "num_bits Int64 = 64" | "num_bits Uint = 64"
| "num_bits Uint8 = 8" | "num_bits Uint16 = 16" | "num_bits Uint32 = 32" | "num_bits Uint64 = 64" | "num_bits Uintptr = 64"

definition is_signed :: "numtype \<Rightarrow> bool" where
  "is_signed t \<longleftrightarrow> t \<in> {Int8, Int16, Int32, Int64}"

text \<open>\<open>reflect\<close>'s \<open>SetInt\<close> and \<open>SetUint\<close> cut a value to the width of the variable.\<close>

definition set_num :: "numtype \<Rightarrow> int64 \<Rightarrow> int64" where
  "set_num t i = (if is_signed t then word_of_int (signed_take_bit (num_bits t - 1) (sint i)) else take_bit (num_bits t) i)"

definition Serialize :: "(godata \<Rightarrow> error + bytes) \<Rightarrow> godata \<Rightarrow> error + bytes" where
  "Serialize enc value =
     (case value of
        VBytes b \<Rightarrow> Inr b
      | VInt n \<Rightarrow> Inr (bytes_of_string (show_int n))
      | VNum t n \<Rightarrow> if is_signed t then Inr (bytes_of_string (show_int n))
                   else if t \<noteq> Uintptr then Inr (bytes_of_string (show_uint n)) else enc value
      | _ \<Rightarrow> enc value)"

definition parsed :: "(int64 \<Rightarrow> godata) \<Rightarrow> int64 \<times> error option \<Rightarrow> error option \<times> godata option" where
  "parsed f r = (case r of (i, Some err) \<Rightarrow> (Some err, None) | (i, None) \<Rightarrow> (None, Some (f i)))"

definition decoded :: "error + godata \<Rightarrow> error option \<times> godata option" where
  "decoded r = (case r of Inl err \<Rightarrow> (Some err, None) | Inr v \<Rightarrow> (None, Some v))"

definition Deserialize :: "(bytes \<Rightarrow> gotype \<Rightarrow> error + godata) \<Rightarrow> bytes \<Rightarrow> gotype \<Rightarrow> error option \<times> godata option" where
  "Deserialize dec byt ty =
     (case ty of
        TPtr TBytes \<Rightarrow> (None, Some (VBytes byt))
      | TPtr TInt \<Rightarrow> parsed VInt (ParseInt (string_of_bytes byt))
      | TPtr (TNum t) \<Rightarrow>
          if is_signed t then parsed (\<lambda>i. VNum t (set_num t i)) (ParseInt (string_of_bytes byt))
          else if t \<noteq> Uintptr then parsed (\<lambda>i. VNum t (set_num t i)) (ParseUint (string_of_bytes byt))
          else decoded (dec byt ty)
      | _ \<Rightarrow> decoded (dec byt ty))"

section \<open>The store\<close>

record 'n RedisStore =
  rs_pool :: "'n Pool"
  rs_defaultExpiration :: duration

definition NewRedisCacheWithPool :: "'n Pool \<Rightarrow> duration \<Rightarrow> 'n RedisStore" where
  "NewRedisCacheWithPool pool defaultExpiration = \<lparr>rs_pool = pool, rs_defaultExpiration = defaultExpiration\<rparr>"

text \<open>The commands a new connection starts with: each error closes it. \<open>None\<close> is a connection that is fine.\<close>

fun start_commands :: "'n Net \<Rightarrow> conn \<Rightarrow> (string \<times> string list) list \<Rightarrow> 'n \<Rightarrow> error option \<times> 'n" where
  "start_commands net c [] n = (None, n)"
| "start_commands net c ((cmd, args) # cmds) n =
     (case n_Do net c cmd args n of
        ((_, Some err), n1) \<Rightarrow> (Some err, n_Close net c n1)
      | ((_, None), n1) \<Rightarrow> start_commands net c cmds n1)"

definition started :: "'n Net \<Rightarrow> (string \<times> string list) list \<Rightarrow> (error + conn) \<times> 'n \<Rightarrow> (error + conn) \<times> 'n" where
  "started net cmds r =
     (case r of
        (Inl err, n) \<Rightarrow> (Inl err, n)
      | (Inr c, n) \<Rightarrow> (case start_commands net c cmds n of (Some err, n1) \<Rightarrow> (Inl err, n1) | (None, n1) \<Rightarrow> (Inr c, n1)))"

text \<open>\<open>redis.Dial\<close> is dialling without timeouts. The variadic option is \<open>WithSelectDatabase\<close>, given or not.\<close>

definition NewRedisCache :: "'n Net \<Rightarrow> string \<Rightarrow> string \<Rightarrow> duration \<Rightarrow> int64 option \<Rightarrow> 'n RedisStore" where
  "NewRedisCache net host password defaultExpiration opt =
     (let selectDatabase = (case opt of Some v \<Rightarrow> v | None \<Rightarrow> 0);
          pool = \<lparr>p_Dial = (\<lambda>n. started net
                      ((if length password > 0 then [(''AUTH'', [password])] else [(''PING'', [])])
                       @ (if selectDatabase \<noteq> 0 then [(''SELECT'', [show_int selectDatabase])] else []))
                      (n_Dial net ''tcp'' host 0 0 0 n)),
                  p_TestOnBorrow = (\<lambda>now c t n. case n_Do net c ''PING'' [] n of ((_, err), n1) \<Rightarrow> (err, n1)),
                  p_MaxIdle = 5, p_MaxActive = 0, p_IdleTimeout = 240 * time_Second, p_Wait = False\<rparr>
      in \<lparr>rs_pool = pool, rs_defaultExpiration = defaultExpiration\<rparr>)"

section \<open>Methods\<close>

text \<open>
  A method on a borrowed connection. Waiting for a connection that nobody will give back is the panic
  of the runtime for a program whose goroutines all sleep.
\<close>

definition with_conn ::
  "'n Net \<Rightarrow> 'n RedisStore \<Rightarrow> Time \<Rightarrow> ('n session \<Rightarrow> 'a outcome \<times> 'n session) \<Rightarrow> 'n pooled \<Rightarrow> 'a outcome \<times> 'n pooled" where
  "with_conn net st now f s =
     (case pool_get net (rs_pool st) now s of
        (None, s1) \<Rightarrow> (Panic ''all goroutines are asleep - deadlock!'', s1)
      | (Some (Inl err), s1) \<Rightarrow> (case f (ErrorConn err, s1) of (r, cs) \<Rightarrow> (r, conn_Close net (rs_pool st) now cs))
      | (Some (Inr pc), s1) \<Rightarrow> (case f (ActiveConn pc False, s1) of (r, cs) \<Rightarrow> (r, conn_Close net (rs_pool st) now cs)))"

definition show_int32 :: "int64 \<Rightarrow> string" where
  "show_int32 w = show_int (word_of_int (signed_take_bit 31 (sint w)))"

definition invoke ::
  "'n Net \<Rightarrow> (godata \<Rightarrow> error + bytes) \<Rightarrow> 'n RedisStore \<Rightarrow> string \<Rightarrow> godata \<Rightarrow> duration \<Rightarrow> 'n session \<Rightarrow> error option \<times> 'n session" where
  "invoke net enc st key value expires0 cs =
     (let expires = (if expires0 = DEFAULT then rs_defaultExpiration st else if expires0 = FOREVER then 0 else expires0) in
      case Serialize enc value of
        Inl err \<Rightarrow> (Some err, cs)
      | Inr b \<Rightarrow>
          if 0 <s expires then
            (case conn_Do net ''SETEX'' [key, show_int32 (go_div expires time_Second), string_of_bytes b] cs of ((_, err), cs1) \<Rightarrow> (err, cs1))
          else (case conn_Do net ''SET'' [key, string_of_bytes b] cs of ((_, err), cs1) \<Rightarrow> (err, cs1)))"

definition rs_exists :: "'n Net \<Rightarrow> string \<Rightarrow> 'n session \<Rightarrow> (bool \<times> error option) \<times> 'n session" where
  "rs_exists net key cs = (case conn_Do net ''EXISTS'' [key] cs of (r, cs1) \<Rightarrow> (reply_Bool r, cs1))"

definition rs_Set where
  "rs_Set net enc st now key value expires =
     with_conn net st now (\<lambda>cs. case invoke net enc st key value expires cs of (err, cs1) \<Rightarrow> (Ret err, cs1))"

definition rs_Add where
  "rs_Add net enc st now key value expires =
     with_conn net st now (\<lambda>cs.
       case rs_exists net key cs of
         ((ex, Some err), cs1) \<Rightarrow> (Ret (Some err), cs1)
       | ((ex, None), cs1) \<Rightarrow>
           if ex then (Ret (Some ErrNotStored), cs1)
           else (case invoke net enc st key value expires cs1 of (err, cs2) \<Rightarrow> (Ret err, cs2)))"

definition rs_Replace where
  "rs_Replace net enc st now key value expires =
     with_conn net st now (\<lambda>cs.
       case rs_exists net key cs of
         ((ex, err), cs1) \<Rightarrow>
           if \<not> ex then (Ret (Some (case err of Some err \<Rightarrow> err | None \<Rightarrow> ErrNotStored)), cs1)
           else (case invoke net enc st key value expires cs1 of
                   (err, cs2) \<Rightarrow> (Ret (if value = VNil then Some ErrNotStored else err), cs2)))"

definition rs_Get where
  "rs_Get net dec st now key ptrValue =
     with_conn net st now (\<lambda>cs.
       case conn_Do net ''GET'' [key] cs of
         ((raw, err), cs1) \<Rightarrow>
           if raw = RNil then (Ret (Some ErrCacheMiss, None), cs1)
           else (case reply_Bytes (raw, err) of
                   Inl err \<Rightarrow> (Ret (Some err, None), cs1)
                 | Inr item \<Rightarrow> (Ret (Deserialize dec item ptrValue), cs1)))"

definition rs_Delete where
  "rs_Delete net st now key =
     with_conn net st now (\<lambda>cs.
       case rs_exists net key cs of
         ((ex, err), cs1) \<Rightarrow>
           if \<not> ex then (Ret (Some (case err of Some err \<Rightarrow> err | None \<Rightarrow> ErrCacheMiss)), cs1)
           else (case conn_Do net ''DEL'' [key] cs1 of ((_, err), cs2) \<Rightarrow> (Ret err, cs2)))"

text \<open>The read, add and write of \<open>Increment\<close> and \<open>IncrementCheckSet\<close>.\<close>

definition get_add_set :: "'n Net \<Rightarrow> string \<Rightarrow> uint64 \<Rightarrow> 'n session \<Rightarrow> (uint64 \<times> error option) \<times> 'n session" where
  "get_add_set net key delta cs =
     (case conn_Do net ''GET'' [key] cs of
        ((val, err), cs1) \<Rightarrow>
          if val = RNil then ((0, Some ErrCacheMiss), cs1)
          else (case err of
                  Some err \<Rightarrow> ((0, Some err), cs1)
                | None \<Rightarrow>
                    (case reply_Int64 (val, None) of
                       (_, Some err) \<Rightarrow> ((0, Some err), cs1)
                     | (currentVal, None) \<Rightarrow>
                         (let sum = currentVal + delta in
                          case conn_Do net ''SET'' [key, show_int sum] cs1 of
                            ((_, Some err), cs2) \<Rightarrow> ((0, Some err), cs2)
                          | ((_, None), cs2) \<Rightarrow> ((sum, None), cs2)))))"

definition rs_Increment where
  "rs_Increment net st now key delta =
     with_conn net st now (\<lambda>cs. case get_add_set net key delta cs of (r, cs1) \<Rightarrow> (Ret r, cs1))"

definition rs_IncrementCheckSet where
  "rs_IncrementCheckSet net st now key delta =
     with_conn net st now (\<lambda>cs.
       case conn_Do net ''WATCH'' [key] cs of
         ((_, Some err), cs1) \<Rightarrow> (Ret (0, Some err), cs1)
       | ((_, None), cs1) \<Rightarrow>
           (case get_add_set net key delta cs1 of (r, cs2) \<Rightarrow> (Ret r, snd (conn_Do net ''UNWATCH'' [key] cs2))))"

definition rs_IncrementAtomic where
  "rs_IncrementAtomic net st now key delta =
     with_conn net st now (\<lambda>cs.
       case conn_Do net ''INCRBY'' [key, show_uint delta] cs of
         ((_, Some err), cs1) \<Rightarrow> (Ret (0, Some err), cs1)
       | ((RInt newValue, None), cs1) \<Rightarrow> (Ret (newValue, None), cs1)
       | ((_, None), cs1) \<Rightarrow> (Panic ''interface conversion'', cs1))"

text \<open>
  \<open>ret == 0\<close> compares an interface value with the constant of type \<open>int\<close>; the replies of \<open>redigo\<close> have
  other dynamic types, so it is never true.
\<close>

definition equals_int_0 :: "reply \<Rightarrow> bool" where
  "equals_int_0 ret \<longleftrightarrow> reply_type ret = ''int'' \<and> ret = RInt 0"

definition rs_ExpireAt where
  "rs_ExpireAt net st now key epoc =
     with_conn net st now (\<lambda>cs.
       case conn_Do net ''EXPIREAT'' [key, show_uint epoc] cs of
         ((ret, err), cs1) \<Rightarrow> (Ret (if equals_int_0 ret then Some ErrCacheMiss else err), cs1))"

definition ErrCacheNoTTL :: error where
  "ErrCacheNoTTL = ErrExt ''cache: key has no TTL.''"

definition rs_GetExpiresIn where
  "rs_GetExpiresIn net st now key =
     with_conn net st now (\<lambda>cs.
       case conn_Do net ''PTTL'' [key] cs of
         ((_, Some err), cs1) \<Rightarrow> (Ret (0, Some err), cs1)
       | ((RInt ttl, None), cs1) \<Rightarrow>
           if ttl = - 2 then (Ret (0, Some ErrCacheMiss), cs1)
           else if ttl = - 1 then (Ret (0, Some ErrCacheNoTTL), cs1)
           else (Ret (ttl, None), cs1)
       | ((_, None), cs1) \<Rightarrow> (Panic ''interface conversion'', cs1))"

definition rs_Decrement where
  "rs_Decrement net st now key delta =
     with_conn net st now (\<lambda>cs.
       case rs_exists net key cs of
         ((ex, err), cs1) \<Rightarrow>
           if \<not> ex then (Ret (0, Some (case err of Some err \<Rightarrow> err | None \<Rightarrow> ErrCacheMiss)), cs1)
           else (case conn_Do net ''GET'' [key] cs1 of
                   (r, cs2) \<Rightarrow>
                     (case reply_Int64 r of
                        (currentVal, err) \<Rightarrow>
                          let by = (if err = None \<and> currentVal < delta then show_int currentVal else show_uint delta) in
                          case conn_Do net ''DECRBY'' [key, by] cs2 of (r, cs3) \<Rightarrow> (Ret (reply_Int64 r), cs3))))"

definition rs_Flush where
  "rs_Flush net st now = with_conn net st now (\<lambda>cs. case conn_Do net ''FLUSHALL'' [] cs of ((_, err), cs1) \<Rightarrow> (Ret err, cs1))"

section \<open>The store as an interface value\<close>

definition redis_ops ::
  "'n Net \<Rightarrow> (godata \<Rightarrow> error + bytes) \<Rightarrow> (bytes \<Rightarrow> gotype \<Rightarrow> error + godata) \<Rightarrow> 'n RedisStore \<Rightarrow> 'n pooled CacheStore" where
  "redis_ops net enc dec st =
     \<lparr>m_Get = rs_Get net dec st, m_Set = rs_Set net enc st, m_Add = rs_Add net enc st, m_Replace = rs_Replace net enc st,
      m_Delete = rs_Delete net st, m_Increment = rs_Increment net st, m_Decrement = rs_Decrement net st, m_Flush = rs_Flush net st\<rparr>"

end
