(* ===== verification/Miniredis.thy ===== *)
theory Miniredis
  imports Redigo
begin

text \<open>
  The Redis server of the package's tests, \<open>vendor/github.com/alicebob/miniredis/v2\<close>, for the
  commands the Redis store and its pools send, with the sentinel \<open>vendor/github.com/Bose/minisentinel\<close>.

  A server holds numbered databases; every client has its selected database, whether it has
  authenticated, and the versions of the keys it watches. Only string commands are modelled, so all
  values are strings, and no client is in a transaction or subscribed. Time-to-live counts down when
  the test moves the clock (\<open>FastForward\<close>).
\<close>

section \<open>Databases\<close>

record RedisDB =
  db_val :: "string \<rightharpoonup> string"
  db_ttl :: "string \<rightharpoonup> duration"
  db_version :: "string \<Rightarrow> nat"

definition bump :: "string \<Rightarrow> RedisDB \<Rightarrow> RedisDB" where
  "bump k db = db\<lparr>db_version := (db_version db)(k := db_version db k + 1)\<rparr>"

definition db_del :: "string \<Rightarrow> bool \<Rightarrow> RedisDB \<Rightarrow> RedisDB" where
  "db_del k delTTL db =
     (if db_val db k = None then db
      else (bump k db)\<lparr>db_val := (db_val db)(k := None), db_ttl := (if delTTL then (db_ttl db)(k := None) else db_ttl db)\<rparr>)"

definition stringSet :: "string \<Rightarrow> string \<Rightarrow> RedisDB \<Rightarrow> RedisDB" where
  "stringSet k v db = (let db1 = db_del k False db in bump k (db1\<lparr>db_val := (db_val db1)(k \<mapsto> v)\<rparr>))"

definition msgInvalidInt :: string where
  "msgInvalidInt = ''ERR value is not an integer or out of range''"

text \<open>\<open>strconv.Atoi\<close> reads what \<open>ParseInt\<close> reads.\<close>

definition Atoi :: "string \<Rightarrow> int64 option" where
  "Atoi s = (case ParseInt s of (i, None) \<Rightarrow> Some i | (_, Some _) \<Rightarrow> None)"

definition stringIncr :: "string \<Rightarrow> int64 \<Rightarrow> RedisDB \<Rightarrow> (string + int64) \<times> RedisDB" where
  "stringIncr k delta db =
     (case (case db_val db k of None \<Rightarrow> Some 0 | Some sv \<Rightarrow> Atoi sv) of
        None \<Rightarrow> (Inl msgInvalidInt, db)
      | Some v \<Rightarrow> (Inr (v + delta), stringSet k (show_int (v + delta)) db))"

definition db_flush :: "RedisDB \<Rightarrow> RedisDB" where
  "db_flush db = db\<lparr>db_val := Map.empty, db_ttl := Map.empty\<rparr>"

definition checkTTL :: "string \<Rightarrow> RedisDB \<Rightarrow> RedisDB" where
  "checkTTL k db = (case db_ttl db k of Some v \<Rightarrow> if sint v \<le> 0 then db_del k True db else db | None \<Rightarrow> db)"

text \<open>All keys at once: the order of the loop does not matter, each turn is about one key.\<close>

definition fastForward :: "duration \<Rightarrow> RedisDB \<Rightarrow> RedisDB" where
  "fastForward d db =
     (let gone = (\<lambda>k. db_val db k \<noteq> None \<and> (case db_ttl db k of Some v \<Rightarrow> sint (v - d) \<le> 0 | None \<Rightarrow> False)) in
      \<lparr>db_val = (\<lambda>k. if gone k then None else db_val db k),
       db_ttl = (\<lambda>k. if gone k then None else if db_val db k \<noteq> None then map_option (\<lambda>v. v - d) (db_ttl db k) else db_ttl db k),
       db_version = (\<lambda>k. if gone k then db_version db k + 1 else db_version db k)\<rparr>)"

section \<open>Clients and commands\<close>

record connCtx =
  selectedDB :: int64
  authenticated :: bool
  watched :: "int64 \<times> string \<rightharpoonup> nat"

record Miniredis =
  m_dbs :: "int64 \<Rightarrow> RedisDB"
  m_password :: string
  m_peers :: "conn \<rightharpoonup> connCtx"
  m_next :: conn
  m_addr :: string
  m_sentinel :: "(string \<times> string) option"
  m_now :: Time

definition FastForward :: "duration \<Rightarrow> Miniredis \<Rightarrow> Miniredis" where
  "FastForward d m = m\<lparr>m_dbs := (\<lambda>i. fastForward d (m_dbs m i))\<rparr>"

definition ToUpper :: "string \<Rightarrow> string" where
  "ToUpper s = map (\<lambda>c. let n = of_char c :: nat in if 97 \<le> n \<and> n \<le> 122 then char_of (n - 32) else c) s"

definition ToLower :: "string \<Rightarrow> string" where
  "ToLower s = map (\<lambda>c. let n = of_char c :: nat in if 65 \<le> n \<and> n \<le> 90 then char_of (n + 32) else c) s"

definition errWrongNumber :: "string \<Rightarrow> reply" where
  "errWrongNumber cmd = RError (Sprintf ''ERR wrong number of arguments for '%s' command'' [ToLower cmd])"

type_synonym command = "string list \<Rightarrow> connCtx \<Rightarrow> Miniredis \<Rightarrow> reply \<times> connCtx \<times> Miniredis"

definition on_db :: "connCtx \<Rightarrow> Miniredis \<Rightarrow> (RedisDB \<Rightarrow> reply \<times> RedisDB) \<Rightarrow> reply \<times> connCtx \<times> Miniredis" where
  "on_db ctx m f = (case f (m_dbs m (selectedDB ctx)) of (r, db) \<Rightarrow> (r, ctx, m\<lparr>m_dbs := (m_dbs m)(selectedDB ctx := db)\<rparr>))"

text \<open>The check of the number of arguments comes before the check of the password, except in \<open>PING\<close> and \<open>DEL\<close>.\<close>

definition handleAuth :: "command \<Rightarrow> command" where
  "handleAuth f args ctx m =
     (if m_password m = [] \<or> authenticated ctx then f args ctx m else (RError ''NOAUTH Authentication required.'', ctx, m))"

definition with_args :: "string \<Rightarrow> (nat \<Rightarrow> bool) \<Rightarrow> command \<Rightarrow> command" where
  "with_args cmd ok f args ctx m = (if ok (length args) then f args ctx m else (errWrongNumber cmd, ctx, m))"

abbreviation OK :: reply where "OK \<equiv> RStatus ''OK''"

fun set_options :: "string list \<Rightarrow> bool \<Rightarrow> bool \<Rightarrow> duration \<Rightarrow> string + bool \<times> bool \<times> duration" where
  "set_options [] nx xx ttl = Inr (nx, xx, ttl)"
| "set_options (a # as) nx xx ttl =
     (if ToUpper a = ''NX'' then set_options as True xx ttl
      else if ToUpper a = ''XX'' then set_options as nx True ttl
      else if ToUpper a = ''PX'' \<or> ToUpper a = ''EX'' then
        (case as of
           [] \<Rightarrow> Inl msgInvalidInt
         | b # bs \<Rightarrow>
             (case Atoi b of
                None \<Rightarrow> Inl msgInvalidInt
              | Some expire \<Rightarrow>
                  let ttl' = expire * (if ToUpper a = ''PX'' then time_Millisecond else time_Second) in
                  if sint ttl' \<le> 0 then Inl ''ERR invalid expire time in set'' else set_options bs nx xx ttl'))
      else Inl ''ERR syntax error'')"

definition cmdSet :: command where
  "cmdSet = with_args ''SET'' (\<lambda>n. 2 \<le> n) (handleAuth (\<lambda>args ctx m.
     let key = args ! 0; value = args ! 1 in
     case set_options (drop 2 args) False False 0 of
       Inl msg \<Rightarrow> (RError msg, ctx, m)
     | Inr (nx, xx, ttl) \<Rightarrow> on_db ctx m (\<lambda>db.
         if nx \<and> db_val db key \<noteq> None \<or> xx \<and> db_val db key = None then (RNil, db)
         else let db1 = stringSet key value (db_del key True db)
              in (OK, if ttl \<noteq> 0 then db1\<lparr>db_ttl := (db_ttl db1)(key \<mapsto> ttl)\<rparr> else db1))))"

definition cmdSetex :: command where
  "cmdSetex = with_args ''SETEX'' (\<lambda>n. n = 3) (handleAuth (\<lambda>args ctx m.
     case Atoi (args ! 1) of
       None \<Rightarrow> (RError msgInvalidInt, ctx, m)
     | Some ttl \<Rightarrow>
         if sint ttl \<le> 0 then (RError ''ERR invalid expire time in setex'', ctx, m)
         else on_db ctx m (\<lambda>db.
           let db1 = stringSet (args ! 0) (args ! 2) (db_del (args ! 0) True db)
           in (OK, db1\<lparr>db_ttl := (db_ttl db1)(args ! 0 \<mapsto> ttl * time_Second)\<rparr>))))"

definition cmdGet :: command where
  "cmdGet = with_args ''GET'' (\<lambda>n. n = 1) (handleAuth (\<lambda>args ctx m. on_db ctx m (\<lambda>db.
     (case db_val db (args ! 0) of None \<Rightarrow> RNil | Some v \<Rightarrow> RBulk (bytes_of_string v), db))))"

definition incrby :: "string \<Rightarrow> (int64 \<Rightarrow> int64) \<Rightarrow> command" where
  "incrby cmd sign = with_args cmd (\<lambda>n. n = 2) (handleAuth (\<lambda>args ctx m.
     case Atoi (args ! 1) of
       None \<Rightarrow> (RError msgInvalidInt, ctx, m)
     | Some delta \<Rightarrow> on_db ctx m (\<lambda>db. case stringIncr (args ! 0) (sign delta) db of
         (Inl msg, db1) \<Rightarrow> (RError msg, db1) | (Inr v, db1) \<Rightarrow> (RInt v, db1))))"

definition cmdIncrby :: command where
  "cmdIncrby = incrby ''INCRBY'' (\<lambda>delta. delta)"

definition cmdDecrby :: command where
  "cmdDecrby = incrby ''DECRBY'' (\<lambda>delta. - delta)"

definition cmdExpireat :: command where
  "cmdExpireat = with_args ''EXPIREAT'' (\<lambda>n. n = 2) (handleAuth (\<lambda>args ctx m.
     case Atoi (args ! 1) of
       None \<Rightarrow> (RError msgInvalidInt, ctx, m)
     | Some i \<Rightarrow> on_db ctx m (\<lambda>db.
         if db_val db (args ! 0) = None then (RInt 0, db)
         else let ttl = time_Sub (time_Unix i) (m_now m)
              in (RInt 1, checkTTL (args ! 0) (bump (args ! 0) (db\<lparr>db_ttl := (db_ttl db)(args ! 0 \<mapsto> ttl)\<rparr>))))))"

definition cmdPTTL :: command where
  "cmdPTTL = with_args ''PTTL'' (\<lambda>n. n = 1) (handleAuth (\<lambda>args ctx m. on_db ctx m (\<lambda>db.
     (if db_val db (args ! 0) = None then RInt (- 2)
      else case db_ttl db (args ! 0) of None \<Rightarrow> RInt (- 1) | Some v \<Rightarrow> RInt (go_div v time_Millisecond), db))))"

fun del_all :: "string list \<Rightarrow> int64 \<Rightarrow> RedisDB \<Rightarrow> int64 \<times> RedisDB" where
  "del_all [] count db = (count, db)"
| "del_all (k # ks) count db = del_all ks (if db_val db k \<noteq> None then count + 1 else count) (db_del k True db)"

definition cmdDel :: command where
  "cmdDel = handleAuth (with_args ''DEL'' (\<lambda>n. n \<noteq> 0) (\<lambda>args ctx m. on_db ctx m (\<lambda>db.
     case del_all args 0 db of (count, db1) \<Rightarrow> (RInt count, db1))))"

definition cmdExists :: command where
  "cmdExists = with_args ''EXISTS'' (\<lambda>n. 1 \<le> n) (handleAuth (\<lambda>args ctx m. on_db ctx m (\<lambda>db.
     (RInt (of_nat (length (filter (\<lambda>k. db_val db k \<noteq> None) args))), db))))"

definition cmdFlushall :: command where
  "cmdFlushall args = (let rest = (if args \<noteq> [] \<and> ToLower (hd args) = ''async'' then tl args else args) in
     if rest \<noteq> [] then (\<lambda>ctx m. (RError ''ERR syntax error'', ctx, m))
     else handleAuth (\<lambda>_ ctx m. (OK, ctx, m\<lparr>m_dbs := (\<lambda>i. db_flush (m_dbs m i))\<rparr>)) args)"

fun watch_all :: "Miniredis \<Rightarrow> int64 \<Rightarrow> string list \<Rightarrow> (int64 \<times> string \<rightharpoonup> nat) \<Rightarrow> (int64 \<times> string \<rightharpoonup> nat)" where
  "watch_all m i [] w = w"
| "watch_all m i (k # ks) w = watch_all m i ks (w((i, k) \<mapsto> db_version (m_dbs m i) k))"

definition cmdWatch :: command where
  "cmdWatch = with_args ''WATCH'' (\<lambda>n. n \<noteq> 0) (handleAuth (\<lambda>args ctx m.
     (OK, ctx\<lparr>watched := watch_all m (selectedDB ctx) args (watched ctx)\<rparr>, m)))"

definition cmdUnwatch :: command where
  "cmdUnwatch = with_args ''UNWATCH'' (\<lambda>n. n = 0) (handleAuth (\<lambda>args ctx m. (OK, ctx\<lparr>watched := Map.empty\<rparr>, m)))"

definition cmdPing :: command where
  "cmdPing = handleAuth (with_args ''PING'' (\<lambda>n. n \<le> 1) (\<lambda>args ctx m.
     (if args = [] \<or> hd args = [] then RStatus ''PONG'' else RBulk (bytes_of_string (hd args)), ctx, m)))"

definition cmdAuth :: command where
  "cmdAuth = with_args ''AUTH'' (\<lambda>n. n = 1) (\<lambda>args ctx m.
     if m_password m = [] then (RError ''ERR Client sent AUTH, but no password is set'', ctx, m)
     else if m_password m \<noteq> args ! 0 then (RError ''ERR invalid password'', ctx, m)
     else (OK, ctx\<lparr>authenticated := True\<rparr>, m))"

definition cmdSelect :: command where
  "cmdSelect = with_args ''SELECT'' (\<lambda>n. n = 1) (handleAuth (\<lambda>args ctx m.
     (OK, ctx\<lparr>selectedDB := (case Atoi (args ! 0) of Some i \<Rightarrow> i | None \<Rightarrow> 0)\<rparr>, m)))"

text \<open>The registered commands among those modelled.\<close>

definition commands :: "(string \<times> command) list" where
  "commands = [(''GET'', cmdGet), (''SET'', cmdSet), (''SETEX'', cmdSetex), (''EXISTS'', cmdExists), (''DEL'', cmdDel),
     (''INCRBY'', cmdIncrby), (''DECRBY'', cmdDecrby), (''EXPIREAT'', cmdExpireat), (''PTTL'', cmdPTTL), (''FLUSHALL'', cmdFlushall),
     (''WATCH'', cmdWatch), (''UNWATCH'', cmdUnwatch), (''PING'', cmdPing), (''AUTH'', cmdAuth), (''SELECT'', cmdSelect)]"

definition errUnknownCommand :: "string \<Rightarrow> string list \<Rightarrow> string" where
  "errUnknownCommand cmd args = Sprintf ''ERR unknown command `%s`, with args beginning with: '' [cmd] @ concat (map (\<lambda>a. Sprintf ''`%s`, '' [a]) (take 20 args))"

definition dispatch :: "string \<Rightarrow> command" where
  "dispatch cmd args ctx m =
     (case map_of commands (ToUpper cmd) of Some f \<Rightarrow> f args ctx m | None \<Rightarrow> (RError (errUnknownCommand cmd args), ctx, m))"

section \<open>The server as a network\<close>

text \<open>
  A client connection to the server: \<open>redigo\<close> returns the reply and, for an error reply, the error.
  An empty command only collects the replies of commands that were sent before.
\<close>

definition errClosed :: error where
  "errClosed = ErrExt ''use of closed network connection''"

definition mini_Do :: "conn \<Rightarrow> string \<Rightarrow> string list \<Rightarrow> Miniredis \<Rightarrow> (reply \<times> error option) \<times> Miniredis" where
  "mini_Do c cmd args m =
     (if cmd = [] then ((RNil, None), m)
      else case m_peers m c of
        None \<Rightarrow> ((RNil, Some errClosed), m)
      | Some ctx \<Rightarrow>
          (case dispatch cmd args ctx m of
             (r, ctx', m') \<Rightarrow> ((r, case r of RError e \<Rightarrow> Some (ErrExt e) | _ \<Rightarrow> None), m'\<lparr>m_peers := (m_peers m')(c \<mapsto> ctx')\<rparr>)))"

definition mini_Dial :: "string \<Rightarrow> string \<Rightarrow> duration \<Rightarrow> duration \<Rightarrow> duration \<Rightarrow> Miniredis \<Rightarrow> (error + conn) \<times> Miniredis" where
  "mini_Dial network addr t1 t2 t3 m =
     (if network = ''tcp'' \<and> addr = m_addr m
      then (Inr (m_next m), m\<lparr>m_peers := (m_peers m)(m_next m \<mapsto> \<lparr>selectedDB = 0, authenticated = False, watched = Map.empty\<rparr>), m_next := m_next m + 1\<rparr>)
      else (Inl (ErrExt ''connect: connection refused''), m))"

definition mini_MasterAddr :: "string list \<Rightarrow> string \<Rightarrow> duration \<Rightarrow> duration \<Rightarrow> Miniredis \<Rightarrow> (error + string) \<times> Miniredis" where
  "mini_MasterAddr addrs name t1 t2 m =
     (case m_sentinel m of
        Some (addr, master) \<Rightarrow>
          if addr \<in> set addrs \<and> ToUpper master = ToUpper name then (Inr (m_addr m), m)
          else (Inl (ErrExt ''redigo: no sentinels available''), m)
      | None \<Rightarrow> (Inl (ErrExt ''redigo: no sentinels available''), m))"

text \<open>The server does not know the command \<open>ROLE\<close>.\<close>

definition mini_net :: "Miniredis Net" where
  "mini_net = \<lparr>n_Dial = mini_Dial, n_Do = mini_Do,
     n_Send = (\<lambda>c cmd args m. case mini_Do c cmd args m of (_, m1) \<Rightarrow> (if m_peers m c = None then Some errClosed else None, m1)),
     n_Err = (\<lambda>c m. if m_peers m c = None then Some errClosed else None),
     n_Close = (\<lambda>c m. m\<lparr>m_peers := (m_peers m)(c := None)\<rparr>),
     n_MasterAddr = mini_MasterAddr, n_TestRole = (\<lambda>c role m. (False, m))\<rparr>"

end
