(* ===== verification/RedisContract.thy ===== *)
theory RedisContract
  imports RedisStore Miniredis
begin

text \<open>
  What the Redis store relies on, as two interfaces: a server that answers the commands as Redis
  documents them (\<open>redis_server\<close>), and a pool of connections to it (\<open>redis_pool\<close>). The store's methods are
  verified here once, for every such server and pool.
\<close>

section \<open>A server that answers\<close>

text \<open>
  What the store relies on: a connection that the server \<open>serves\<close>, the strings \<open>val\<close> and the times to
  live \<open>ttl\<close> of its database. Redis documents each command this way.
\<close>

definition bulk :: "string option \<Rightarrow> reply" where
  "bulk v = (case v of None \<Rightarrow> RNil | Some v \<Rightarrow> RBulk (bytes_of_string v))"

lemma Atoi_show [simp]: "Atoi (show_int i) = Some i"
  by (simp add: Atoi_def ParseInt_show)

lemma Atoi_show_uint: "Atoi (show_uint i) = (if uint i < 2 ^ 63 then Some i else None)"
proof -
  have lt: "unat i < 2 ^ LENGTH(64)" by (rule unsigned_less)
  then have "scan_uint (show_uint i) = Scanned (unat i)" by (simp add: show_uint_def scan_uint_show)
  moreover have "(unat i < 2 ^ 63) = (uint i < 2 ^ 63)" using of_nat_less_iff [of "unat i" "2 ^ 63", where 'a = int] by simp
  ultimately show ?thesis by (auto simp: Atoi_def ParseInt_def Let_def show_uint_def hd_show_nat)
qed


text \<open>\<open>inv C\<close> means that the connections \<open>C\<close> are open and served, all with the same database.\<close>

locale redis_server =
  fixes net :: "'n Net" and inv :: "conn set \<Rightarrow> 'n \<Rightarrow> bool"
    and val :: "'n \<Rightarrow> string \<rightharpoonup> string" and ttl :: "'n \<Rightarrow> string \<rightharpoonup> duration" and bad_expire :: error
  assumes do_get: "inv C n \<Longrightarrow> c \<in> C \<Longrightarrow> n_Do net c ''GET'' [k] n = ((bulk (val n k), None), n)"
    and do_exists: "inv C n \<Longrightarrow> c \<in> C \<Longrightarrow> n_Do net c ''EXISTS'' [k] n = ((RInt (if val n k = None then 0 else 1), None), n)"
    and do_set: "inv C n \<Longrightarrow> c \<in> C \<Longrightarrow> \<exists>r n'. n_Do net c ''SET'' [k, v] n = ((r, None), n') \<and> inv C n'
      \<and> val n' = (val n)(k \<mapsto> v) \<and> ttl n' = (ttl n)(k := None)"
    and do_setex: "inv C n \<Longrightarrow> c \<in> C \<Longrightarrow> 0 < sint d \<Longrightarrow> \<exists>r n'. n_Do net c ''SETEX'' [k, show_int d, v] n = ((r, None), n') \<and> inv C n'
      \<and> val n' = (val n)(k \<mapsto> v) \<and> ttl n' = (ttl n)(k \<mapsto> d * time_Second)"
    and do_setex_bad: "inv C n \<Longrightarrow> c \<in> C \<Longrightarrow> sint d \<le> 0 \<Longrightarrow> \<exists>r. n_Do net c ''SETEX'' [k, show_int d, v] n = ((r, Some bad_expire), n)"
    and do_del: "inv C n \<Longrightarrow> c \<in> C \<Longrightarrow> \<exists>r n'. n_Do net c ''DEL'' [k] n = ((r, None), n') \<and> inv C n'
      \<and> val n' = (val n)(k := None) \<and> ttl n' = (ttl n)(k := None)"
    and do_flush: "inv C n \<Longrightarrow> c \<in> C \<Longrightarrow> \<exists>r n'. n_Do net c ''FLUSHALL'' [] n = ((r, None), n') \<and> inv C n' \<and> val n' = Map.empty \<and> ttl n' = Map.empty"
    and do_incrby: "inv C n \<Longrightarrow> c \<in> C \<Longrightarrow> Atoi a = Some i \<Longrightarrow> (case val n k of None \<Rightarrow> cur = 0 | Some sv \<Rightarrow> Atoi sv = Some cur) \<Longrightarrow>
      - (2 ^ 63) \<le> sint cur + sint i \<Longrightarrow> sint cur + sint i < 2 ^ 63 \<Longrightarrow>
      \<exists>n'. n_Do net c ''INCRBY'' [k, a] n = ((RInt (cur + i), None), n') \<and> inv C n' \<and> val n' = (val n)(k \<mapsto> show_int (cur + i)) \<and> ttl n' = ttl n"
    and do_decrby: "inv C n \<Longrightarrow> c \<in> C \<Longrightarrow> Atoi a = Some i \<Longrightarrow> (case val n k of None \<Rightarrow> cur = 0 | Some sv \<Rightarrow> Atoi sv = Some cur) \<Longrightarrow>
      - (2 ^ 63) \<le> sint cur - sint i \<Longrightarrow> sint cur - sint i < 2 ^ 63 \<Longrightarrow>
      \<exists>n'. n_Do net c ''DECRBY'' [k, a] n = ((RInt (cur - i), None), n') \<and> inv C n' \<and> val n' = (val n)(k \<mapsto> show_int (cur - i)) \<and> ttl n' = ttl n"
    and do_nothing: "inv C n \<Longrightarrow> c \<in> C \<Longrightarrow> snd (n_Do net c [] [] n) = n"
    and not_broken: "inv C n \<Longrightarrow> c \<in> C \<Longrightarrow> n_Err net c n = None"
    and close: "inv C n \<Longrightarrow> inv (C - {c}) (n_Close net c n) \<and> val (n_Close net c n) = val n \<and> ttl (n_Close net c n) = ttl n"
    and inv_subset: "inv C n \<Longrightarrow> D \<subseteq> C \<Longrightarrow> inv D n"

text \<open>A pool whose connections go to that server. A connection that fails the test is closed.\<close>

definition conns :: "poolConn list \<Rightarrow> conn set" where
  "conns pcs = pc_c ` set pcs"

lemma conns_simps [simp]: "conns [] = {}" "conns (pc # pcs) = insert (pc_c pc) (conns pcs)" "conns (xs @ ys) = conns xs \<union> conns ys" "conns (rev xs) = conns xs"
  by (auto simp: conns_def)

locale redis_pool = redis_server +
  fixes pool :: "'n Pool"
  assumes dial: "inv C n \<Longrightarrow> \<exists>c n'. p_Dial pool n = (Inr c, n') \<and> c \<notin> C \<and> inv (insert c C) n' \<and> val n' = val n \<and> ttl n' = ttl n"
    and test_on_borrow: "inv C n \<Longrightarrow> c \<in> C \<Longrightarrow> snd (p_TestOnBorrow pool now c t n) = n"
begin

definition quiet :: "'n pooled \<Rightarrow> bool" where
  "quiet s \<longleftrightarrow> distinct (map pc_c (ps_idle s)) \<and> inv (conns (ps_idle s)) (ps_net s) \<and> pool_inv pool 0 s"

lemma prune_served:
  assumes "prune net now t pcs a n = (rest, a', n')" "inv (conns pcs) n" "distinct (map pc_c pcs)"
  shows "inv (conns rest) n' \<and> distinct (map pc_c rest) \<and> val n' = val n \<and> ttl n' = ttl n"
  using assms
proof (induction pcs arbitrary: a n)
  case (Cons pc pcs)
  show ?case
  proof (cases "Before (time_Add (pc_t pc) t) now")
    case True
    have "conns (pc # pcs) - {pc_c pc} = conns pcs" using Cons.prems(3) by (auto simp: conns_def)
    with close [OF Cons.prems(2), of "pc_c pc"] Cons.IH [of "a - 1" "n_Close net (pc_c pc) n"] Cons.prems True show ?thesis by auto
  qed (use Cons.prems in auto)
qed auto

lemma borrow_served:
  assumes "borrow net pool now pcs a n = (r, rest, a', n')" "inv (conns pcs) n" "distinct (map pc_c pcs)"
  shows "inv (conns rest \<union> (case r of Some pc \<Rightarrow> {pc_c pc} | None \<Rightarrow> {})) n' \<and> distinct (map pc_c rest)
    \<and> (\<forall>pc. r = Some pc \<longrightarrow> pc_c pc \<notin> conns rest) \<and> val n' = val n \<and> ttl n' = ttl n"
  using assms
proof (induction pcs arbitrary: a n)
  case (Cons pc pcs)
  obtain e where e: "p_TestOnBorrow pool now (pc_c pc) (pc_t pc) n = (e, n)"
    using test_on_borrow [OF Cons.prems(2), of "pc_c pc" now "pc_t pc"] by (cases "p_TestOnBorrow pool now (pc_c pc) (pc_t pc) n") auto
  show ?case
  proof (cases e)
    case None
    then show ?thesis using Cons.prems e by (auto simp: conns_def)
  next
    case (Some err)
    have "conns (pc # pcs) - {pc_c pc} = conns pcs" using Cons.prems(3) by (auto simp: conns_def)
    with close [OF Cons.prems(2), of "pc_c pc"] Cons.IH [of "a - 1" "n_Close net (pc_c pc) n"] Cons.prems e Some show ?thesis by auto
  qed
qed auto

text \<open>A method called while nothing is borrowed gets a connection that is served.\<close>

lemma borrowed:
  assumes "quiet s"
  shows "\<exists>pc s1. pool_get net pool now s = (Some (Inr pc), s1) \<and> pc_c pc \<notin> conns (ps_idle s1) \<and> distinct (map pc_c (ps_idle s1))
    \<and> inv (insert (pc_c pc) (conns (ps_idle s1))) (ps_net s1) \<and> val (ps_net s1) = val (ps_net s) \<and> ttl (ps_net s1) = ttl (ps_net s) \<and> pool_inv pool 1 s1"
proof -
  have inv: "pool_inv pool 0 s" using assms by (simp add: quiet_def)
  obtain old a1 n1 where p: "(if 0 <s p_IdleTimeout pool then prune net now (p_IdleTimeout pool) (rev (ps_idle s)) (ps_active s) (ps_net s)
      else (rev (ps_idle s), ps_active s, ps_net s)) = (old, a1, n1)" by (metis prod_cases3)
  obtain r idle a2 n2 where b: "borrow net pool now (rev old) a1 n1 = (r, idle, a2, n2)" by (metis prod_cases4)
  have "inv (conns old) n1 \<and> distinct (map pc_c old) \<and> val n1 = val (ps_net s) \<and> ttl n1 = ttl (ps_net s)"
    using p prune_served [of now "p_IdleTimeout pool" "rev (ps_idle s)" "ps_active s" "ps_net s" old a1 n1] assms
    by (auto simp: quiet_def rev_map [symmetric] split: if_splits)
  then have b2: "inv (conns idle \<union> (case r of Some pc \<Rightarrow> {pc_c pc} | None \<Rightarrow> {})) n2" "distinct (map pc_c idle)"
    "\<forall>pc. r = Some pc \<longrightarrow> pc_c pc \<notin> conns idle" "val n2 = val (ps_net s)" "ttl n2 = ttl (ps_net s)"
    using borrow_served [OF b] by (auto simp: rev_map [symmetric])
  have c1: "a1 - int (length old) = 0"
    using p inv prune_count [of net now "p_IdleTimeout pool" "rev (ps_idle s)" "ps_active s" "ps_net s" old a1 n1]
    by (auto simp: pool_inv_def split: if_splits)
  have none: "r = None \<Longrightarrow> idle = [] \<and> a2 = 0" using borrow_count [OF b] c1 by auto
  let ?s2 = "\<lparr>ps_net = n2, ps_idle = idle, ps_active = a2, ps_ch = if waits pool then Some (tokens pool s - 1) else ps_ch s\<rparr>"
  have "\<not> (waits pool \<and> tokens pool s \<le> 0)" using inv by (auto simp: pool_inv_def waits_def)
  then have get: "pool_get net pool now s = (case r of Some pc \<Rightarrow> (Some (Inr pc), ?s2) | None \<Rightarrow> (case dial_new pool now ?s2 of (r, s3) \<Rightarrow> (Some r, s3)))"
    using p b by (auto simp: pool_get_def Let_def)
  show ?thesis
  proof (cases r)
    case None
    obtain c n3 where d: "p_Dial pool n2 = (Inr c, n3)" "c \<notin> {}" "inv (insert c {}) n3" "val n3 = val n2" "ttl n3 = ttl n2"
      using dial [of "{}" n2] b2(1) none [OF None] None by auto
    have "pool_get net pool now s = (Some (Inr \<lparr>pc_c = c, pc_t = time_Unix (- unixToInternal), pc_created = now\<rparr>), ?s2\<lparr>ps_net := n3, ps_active := a2 + 1\<rparr>)"
      using get None none d(1) by (simp add: dial_new_def)
    with pool_get_inv [OF inv this] d b2 none [OF None] show ?thesis by auto
  next
    case (Some pc)
    with get have "pool_get net pool now s = (Some (Inr pc), ?s2)" by simp
    with pool_get_inv [OF inv this] b2 Some show ?thesis by auto
  qed
qed

lemma returned:
  assumes "pc_c pc \<notin> conns (ps_idle s)" "distinct (map pc_c (ps_idle s))" "inv (insert (pc_c pc) (conns (ps_idle s))) (ps_net s)" "pool_inv pool 1 s"
  shows "quiet (conn_Close net pool now (ActiveConn pc False, s)) \<and> val (ps_net (conn_Close net pool now (ActiveConn pc False, s))) = val (ps_net s)
    \<and> ttl (ps_net (conn_Close net pool now (ActiveConn pc False, s))) = ttl (ps_net s)"
proof -
  have c: "conn_Close net pool now (ActiveConn pc False, s) = pool_put net pool now pc False s"
    using do_nothing [OF assms(3), of "pc_c pc"] not_broken [OF assms(3), of "pc_c pc"] by (simp add: conn_Close_def Let_def)
  have i: "pool_inv pool 0 (pool_put net pool now pc False s)" using assms(4) by (intro pool_put_inv) simp
  define idle where "idle = pc\<lparr>pc_t := now\<rparr> # ps_idle s"
  have idle: "inv (conns idle) (ps_net s)" "distinct (map pc_c idle)" "idle \<noteq> []" using assms by (auto simp: idle_def conns_def)
  show ?thesis
  proof (cases "int (length idle) > p_MaxIdle pool")
    case False
    then show ?thesis using i idle unfolding c quiet_def by (simp add: pool_put_def Let_def idle_def [symmetric])
  next
    case True
    have "conns idle - {pc_c (last idle)} = conns (butlast idle)"
      using idle(2,3) by (cases idle rule: rev_cases) (auto simp: conns_def)
    with close [OF idle(1), of "pc_c (last idle)"] True idle(2,3) i show ?thesis unfolding c quiet_def
      by (simp add: pool_put_def Let_def idle_def [symmetric] close_one_def distinct_butlast map_butlast)
  qed
qed

lemma with_conn_step:
  assumes "quiet s" "rs_pool st = pool"
  shows "\<exists>pc s1. val (ps_net s1) = val (ps_net s) \<and> ttl (ps_net s1) = ttl (ps_net s) \<and> inv (insert (pc_c pc) (conns (ps_idle s1))) (ps_net s1)
    \<and> pc_c pc \<notin> conns (ps_idle s1) \<and> (\<forall>r n. f (ActiveConn pc False, s1) = (r, (ActiveConn pc False, s1\<lparr>ps_net := n\<rparr>)) \<and> inv (insert (pc_c pc) (conns (ps_idle s1))) n \<longrightarrow>
      (\<exists>s'. with_conn net st now f s = (r, s') \<and> s' = conn_Close net pool now (ActiveConn pc False, s1\<lparr>ps_net := n\<rparr>) \<and> quiet s'
        \<and> val (ps_net s') = val n \<and> ttl (ps_net s') = ttl n))"
proof -
  obtain pc s1 where g: "pool_get net pool now s = (Some (Inr pc), s1)" "pc_c pc \<notin> conns (ps_idle s1)" "distinct (map pc_c (ps_idle s1))"
    "inv (insert (pc_c pc) (conns (ps_idle s1))) (ps_net s1)" "val (ps_net s1) = val (ps_net s)" "ttl (ps_net s1) = ttl (ps_net s)" "pool_inv pool 1 s1"
    using borrowed [OF assms(1)] by metis
  have "with_conn net st now f s = (r, conn_Close net pool now (ActiveConn pc False, s1\<lparr>ps_net := n\<rparr>))"
    if "f (ActiveConn pc False, s1) = (r, (ActiveConn pc False, s1\<lparr>ps_net := n\<rparr>))" for r n
    using g(1) that assms(2) by (simp add: with_conn_def)
  then show ?thesis using returned [of pc "s1\<lparr>ps_net := _\<rparr>" now] g by (intro exI [of _ pc] exI [of _ s1]) auto
qed

lemma with_conn_rule:
  assumes "quiet s" "rs_pool st = pool"
    and "\<And>pc s1 C. inv C (ps_net s1) \<Longrightarrow> pc_c pc \<in> C \<Longrightarrow> val (ps_net s1) = val (ps_net s) \<Longrightarrow> ttl (ps_net s1) = ttl (ps_net s) \<Longrightarrow>
      \<exists>n. f (ActiveConn pc False, s1) = (r, (ActiveConn pc False, s1\<lparr>ps_net := n\<rparr>)) \<and> inv C n \<and> val n = v \<and> ttl n = t"
  shows "\<exists>s'. with_conn net st now f s = (r, s') \<and> quiet s' \<and> val (ps_net s') = v \<and> ttl (ps_net s') = t"
  using with_conn_step [OF assms(1,2), of f now] assms(3) by (metis insertI1)

end

section \<open>The methods on a server that answers\<close>

text \<open>
  The time to live that \<open>invoke\<close> asks for: \<open>None\<close> is a value the server refuses, \<open>Some None\<close> is no expiry.
\<close>

definition effective :: "'n RedisStore \<Rightarrow> duration \<Rightarrow> duration" where
  "effective st e = (if e = DEFAULT then rs_defaultExpiration st else if e = FOREVER then 0 else e)"

definition secs32 :: "duration \<Rightarrow> int64" where
  "secs32 e = word_of_int (signed_take_bit 31 (sint (go_div e time_Second)))"

definition ttl_of :: "'n RedisStore \<Rightarrow> duration \<Rightarrow> duration option option" where
  "ttl_of st e =
     (let x = effective st e in
      if \<not> 0 <s x then Some None else if 0 < sint (secs32 x) then Some (Some (secs32 x * time_Second)) else None)"

context redis_server
begin

lemma session_get: "inv C (ps_net s) \<Longrightarrow> pc_c pc \<in> C \<Longrightarrow> conn_Do net ''GET'' [k] (ActiveConn pc w, s) = ((bulk (val (ps_net s) k), None), (ActiveConn pc w, s))"
  by (simp add: conn_Do_def do_get watch_state_def)

lemma session_exists: "inv C (ps_net s) \<Longrightarrow> pc_c pc \<in> C \<Longrightarrow> rs_exists net k (ActiveConn pc w, s) = ((val (ps_net s) k \<noteq> None, None), (ActiveConn pc w, s))"
  by (simp add: conn_Do_def rs_exists_def do_exists watch_state_def)

lemma session_invoke:
  assumes "inv C (ps_net s)" "pc_c pc \<in> C" "Serialize enc v = Inr b" "ttl_of st e = Some t"
  shows "\<exists>n. invoke net enc st k v e (ActiveConn pc w, s) = (None, (ActiveConn pc w, s\<lparr>ps_net := n\<rparr>)) \<and> inv C n
    \<and> val n = (val (ps_net s))(k \<mapsto> string_of_bytes b) \<and> ttl n = (ttl (ps_net s))(k := t)"
proof (cases "0 <s effective st e")
  case True
  then have "0 < sint (secs32 (effective st e))" "t = Some (secs32 (effective st e) * time_Second)"
    using assms(4) by (auto simp: ttl_of_def Let_def split: if_splits)
  with do_setex [OF assms(1,2), of "secs32 (effective st e)" k "string_of_bytes b"] True assms(3)
  show ?thesis by (auto simp: invoke_def effective_def [symmetric] conn_Do_def watch_state_def show_int32_def secs32_def [symmetric] Let_def)
next
  case False
  then have "t = None" using assms(4) by (auto simp: ttl_of_def Let_def)
  with do_set [OF assms(1,2), of k "string_of_bytes b"] False assms(3)
  show ?thesis by (auto simp: invoke_def effective_def [symmetric] conn_Do_def watch_state_def Let_def)
qed

lemma session_invoke_bad:
  assumes "inv C (ps_net s)" "pc_c pc \<in> C" "Serialize enc v = Inl err \<or> ttl_of st e = None"
  shows "invoke net enc st k v e (ActiveConn pc w, s) = (Some (case Serialize enc v of Inl err \<Rightarrow> err | Inr _ \<Rightarrow> bad_expire), (ActiveConn pc w, s))"
proof (cases "Serialize enc v")
  case (Inr b)
  then have "0 <s effective st e" "sint (secs32 (effective st e)) \<le> 0"
    using assms(3) by (auto simp: ttl_of_def Let_def split: if_splits)
  with do_setex_bad [OF assms(1,2), of "secs32 (effective st e)" k "string_of_bytes b"] Inr
  show ?thesis by (auto simp: invoke_def effective_def [symmetric] conn_Do_def watch_state_def show_int32_def secs32_def [symmetric] Let_def)
qed (auto simp: invoke_def Let_def)

lemma session_get_add_set:
  assumes "inv C (ps_net s)" "pc_c pc \<in> C" "val (ps_net s) k = Some sv"
  shows "\<exists>n. get_add_set net k delta (ActiveConn pc w, s) =
      (case ParseInt sv of (i, None) \<Rightarrow> (i + delta, None) | (_, Some err) \<Rightarrow> (0, Some err), (ActiveConn pc w, s\<lparr>ps_net := n\<rparr>)) \<and> inv C n
    \<and> (case ParseInt sv of (i, None) \<Rightarrow> val n = (val (ps_net s))(k \<mapsto> show_int (i + delta)) \<and> ttl n = (ttl (ps_net s))(k := None)
       | (_, Some err) \<Rightarrow> val n = val (ps_net s) \<and> ttl n = ttl (ps_net s))"
proof (cases "ParseInt sv")
  case (Pair i e)
  show ?thesis
  proof (cases e)
    case None
    with do_set [OF assms(1,2), of k "show_int (i + delta)"] Pair session_get [OF assms(1,2), of k w] assms(3)
    show ?thesis by (auto simp: get_add_set_def bulk_def conn_Do_def watch_state_def Let_def)
  next
    case (Some err)
    with Pair session_get [OF assms(1,2), of k w] assms show ?thesis
      by (intro exI [of _ "ps_net s"]) (auto simp: get_add_set_def bulk_def)
  qed
qed

lemma session_miss:
  assumes "inv C (ps_net s)" "pc_c pc \<in> C" "val (ps_net s) k = None"
  shows "get_add_set net k delta (ActiveConn pc w, s) = ((0, Some ErrCacheMiss), (ActiveConn pc w, s))"
  using session_get [OF assms(1,2), of k w] assms(3) by (simp add: get_add_set_def bulk_def)

end

context redis_pool
begin

lemma set_stores:
  assumes "quiet s" "rs_pool st = pool" "Serialize enc v = Inr b" "ttl_of st e = Some t"
  shows "\<exists>s'. rs_Set net enc st now k v e s = (Ret None, s') \<and> quiet s'
    \<and> val (ps_net s') = (val (ps_net s))(k \<mapsto> string_of_bytes b) \<and> ttl (ps_net s') = (ttl (ps_net s))(k := t)"
  unfolding rs_Set_def using session_invoke [OF _ _ assms(3,4), of _ _ _ k False] by (intro with_conn_rule [OF assms(1,2)]) fastforce

lemma set_refused:
  assumes "quiet s" "rs_pool st = pool" "Serialize enc v = Inl err \<or> ttl_of st e = None"
  shows "\<exists>s'. rs_Set net enc st now k v e s = (Ret (Some (case Serialize enc v of Inl err \<Rightarrow> err | Inr _ \<Rightarrow> bad_expire)), s') \<and> quiet s'
    \<and> val (ps_net s') = val (ps_net s) \<and> ttl (ps_net s') = ttl (ps_net s)"
  unfolding rs_Set_def
proof (rule with_conn_rule [OF assms(1,2)], goal_cases)
  case (1 pc s1 C)
  then show ?case using session_invoke_bad [OF 1(1,2) assms(3), of k False] by (intro exI [of _ "ps_net s1"]) simp
qed

lemma get_result:
  assumes "quiet s" "rs_pool st = pool"
  shows "\<exists>s'. rs_Get net dec st now k ty s =
      (Ret (case val (ps_net s) k of None \<Rightarrow> (Some ErrCacheMiss, None) | Some v \<Rightarrow> Deserialize dec (bytes_of_string v) ty), s') \<and> quiet s'
    \<and> val (ps_net s') = val (ps_net s) \<and> ttl (ps_net s') = ttl (ps_net s)"
  unfolding rs_Get_def
proof (rule with_conn_rule [OF assms], goal_cases)
  case (1 pc s1 C)
  then show ?case using session_get [OF 1(1,2), of k False] by (intro exI [of _ "ps_net s1"]) (auto simp: bulk_def split: option.splits)
qed

lemma add_result:
  assumes "quiet s" "rs_pool st = pool" "Serialize enc v = Inr b" "ttl_of st e = Some t"
  shows "\<exists>s'. rs_Add net enc st now k v e s = (Ret (if val (ps_net s) k = None then None else Some ErrNotStored), s') \<and> quiet s'
    \<and> val (ps_net s') = (if val (ps_net s) k = None then (val (ps_net s))(k \<mapsto> string_of_bytes b) else val (ps_net s))
    \<and> ttl (ps_net s') = (if val (ps_net s) k = None then (ttl (ps_net s))(k := t) else ttl (ps_net s))"
  unfolding rs_Add_def
proof (rule with_conn_rule [OF assms(1,2)], goal_cases)
  case (1 pc s1 C)
  then show ?case using session_exists [OF 1(1,2), of k False] session_invoke [OF 1(1,2) assms(3,4), of k False]
    by (cases "val (ps_net s) k") (auto intro: exI [of _ "ps_net s1"])
qed

lemma replace_result:
  assumes "quiet s" "rs_pool st = pool" "Serialize enc v = Inr b" "ttl_of st e = Some t" "v \<noteq> VNil"
  shows "\<exists>s'. rs_Replace net enc st now k v e s = (Ret (if val (ps_net s) k = None then Some ErrNotStored else None), s') \<and> quiet s'
    \<and> val (ps_net s') = (if val (ps_net s) k = None then val (ps_net s) else (val (ps_net s))(k \<mapsto> string_of_bytes b))
    \<and> ttl (ps_net s') = (if val (ps_net s) k = None then ttl (ps_net s) else (ttl (ps_net s))(k := t))"
  unfolding rs_Replace_def
proof (rule with_conn_rule [OF assms(1,2)], goal_cases)
  case (1 pc s1 C)
  then show ?case using session_exists [OF 1(1,2), of k False] session_invoke [OF 1(1,2) assms(3,4), of k False] assms(5)
    by (cases "val (ps_net s) k") (auto intro: exI [of _ "ps_net s1"])
qed

lemma delete_result:
  assumes "quiet s" "rs_pool st = pool"
  shows "\<exists>s'. rs_Delete net st now k s = (Ret (if val (ps_net s) k = None then Some ErrCacheMiss else None), s') \<and> quiet s'
    \<and> val (ps_net s') = (val (ps_net s))(k := None)
    \<and> ttl (ps_net s') = (if val (ps_net s) k = None then ttl (ps_net s) else (ttl (ps_net s))(k := None))"
  unfolding rs_Delete_def
proof (rule with_conn_rule [OF assms], goal_cases)
  case (1 pc s1 C)
  then show ?case using session_exists [OF 1(1,2), of k False] do_del [OF 1(1,2), of k]
    by (cases "val (ps_net s) k") (auto intro: exI [of _ "ps_net s1"] simp: conn_Do_def watch_state_def fun_upd_idem)
qed

lemma flush_result:
  assumes "quiet s" "rs_pool st = pool"
  shows "\<exists>s'. rs_Flush net st now s = (Ret None, s') \<and> quiet s' \<and> val (ps_net s') = Map.empty \<and> ttl (ps_net s') = Map.empty"
  unfolding rs_Flush_def
proof (rule with_conn_rule [OF assms], goal_cases)
  case (1 pc s1 C)
  then show ?case using do_flush [OF 1(1,2)] by (auto simp: conn_Do_def watch_state_def)
qed

lemma increment_result:
  assumes "quiet s" "rs_pool st = pool" "val (ps_net s) k = Some (show_int i)"
  shows "\<exists>s'. rs_Increment net st now k delta s = (Ret (i + delta, None), s') \<and> quiet s'
    \<and> val (ps_net s') = (val (ps_net s))(k \<mapsto> show_int (i + delta)) \<and> ttl (ps_net s') = (ttl (ps_net s))(k := None)"
  unfolding rs_Increment_def
proof (rule with_conn_rule [OF assms(1,2)], goal_cases)
  case (1 pc s1 C)
  then show ?case using session_get_add_set [OF 1(1,2), of k "show_int i" delta False] assms(3) by (auto simp: ParseInt_show)
qed

lemma increment_miss:
  assumes "quiet s" "rs_pool st = pool" "val (ps_net s) k = None"
  shows "\<exists>s'. rs_Increment net st now k delta s = (Ret (0, Some ErrCacheMiss), s') \<and> quiet s'
    \<and> val (ps_net s') = val (ps_net s) \<and> ttl (ps_net s') = ttl (ps_net s)"
  unfolding rs_Increment_def
proof (rule with_conn_rule [OF assms(1,2)], goal_cases)
  case (1 pc s1 C)
  then show ?case using session_miss [OF 1(1,2), of k delta False] assms(3) by (intro exI [of _ "ps_net s1"]) simp
qed

lemma atomic_result:
  assumes "quiet s" "rs_pool st = pool" "case val (ps_net s) k of None \<Rightarrow> i = 0 | Some sv \<Rightarrow> sv = show_int i"
    and "uint delta < 2 ^ 63" "sint i + sint delta < 2 ^ 63"
  shows "\<exists>s'. rs_IncrementAtomic net st now k delta s = (Ret (i + delta, None), s') \<and> quiet s'
    \<and> val (ps_net s') = (val (ps_net s))(k \<mapsto> show_int (i + delta)) \<and> ttl (ps_net s') = ttl (ps_net s)"
  unfolding rs_IncrementAtomic_def
proof (rule with_conn_rule [OF assms(1,2)], goal_cases)
  case (1 pc s1 C)
  have "0 \<le> sint delta" using assms(4) sint_eq_uint64 by simp
  then show ?case
    using do_incrby [OF 1(1,2), where a = "show_uint delta" and i = delta and k = k and cur = i] assms(3-5) 1 sint_bounds64 [of i]
    by (auto simp: conn_Do_def watch_state_def Atoi_show_uint split: option.splits)
qed

lemma decrement_miss:
  assumes "quiet s" "rs_pool st = pool" "val (ps_net s) k = None"
  shows "\<exists>s'. rs_Decrement net st now k delta s = (Ret (0, Some ErrCacheMiss), s') \<and> quiet s'
    \<and> val (ps_net s') = val (ps_net s) \<and> ttl (ps_net s') = ttl (ps_net s)"
  unfolding rs_Decrement_def
proof (rule with_conn_rule [OF assms(1,2)], goal_cases)
  case (1 pc s1 C)
  then show ?case using session_exists [OF 1(1,2), of k False] assms(3) by (intro exI [of _ "ps_net s1"]) simp
qed

lemma decrement_result:
  assumes "quiet s" "rs_pool st = pool" "val (ps_net s) k = Some (show_int i)" "uint i < 2 ^ 63"
  shows "\<exists>s'. rs_Decrement net st now k delta s = (Ret (if i < delta then 0 else i - delta, None), s') \<and> quiet s'
    \<and> val (ps_net s') = (val (ps_net s))(k \<mapsto> show_int (if i < delta then 0 else i - delta)) \<and> ttl (ps_net s') = ttl (ps_net s)"
  unfolding rs_Decrement_def
proof (rule with_conn_rule [OF assms(1,2)], goal_cases)
  case (1 pc s1 C)
  show ?case
  proof (cases "i < delta")
    case True
    then show ?thesis using session_exists [OF 1(1,2), of k False] session_get [OF 1(1,2), of k False] assms(3,4) 1
        do_decrby [OF 1(1,2), where a = "show_int i" and i = i and k = k and cur = i]
      by (auto simp: conn_Do_def watch_state_def bulk_def ParseInt_show Let_def)
  next
    case False
    then have d: "uint delta \<le> uint i" "uint delta < 2 ^ 63" using assms(4) by (simp_all add: word_less_def)
    then have "sint delta \<le> sint i" "0 \<le> sint delta" using assms(4) sint_eq_uint64 by simp_all
    then show ?thesis using session_exists [OF 1(1,2), of k False] session_get [OF 1(1,2), of k False] assms(3,4) 1 False
        do_decrby [OF 1(1,2), where a = "show_uint delta" and i = delta and k = k and cur = i] sint_bounds64 [of i] d
      by (auto simp: conn_Do_def watch_state_def bulk_def ParseInt_show Let_def Atoi_show_uint)
  qed
qed

end

end
