(* ===== verification/MiniredisSpec.thy ===== *)
theory MiniredisSpec
  imports RedisContract
begin

text \<open>
  The test server keeps the contract: interpretations of \<open>redis_server\<close> and of \<open>redis_pool\<close> for a store made
  by \<open>NewRedisCache\<close>.
\<close>

section \<open>The test server\<close>

definition peer :: "int64 \<Rightarrow> conn \<Rightarrow> Miniredis \<Rightarrow> bool" where
  "peer d c m \<longleftrightarrow> (\<exists>ctx. m_peers m c = Some ctx \<and> selectedDB ctx = d \<and> (m_password m = [] \<or> authenticated ctx))"

lemma map_of_commands:
  "map_of commands ''GET'' = Some cmdGet" "map_of commands ''SET'' = Some cmdSet" "map_of commands ''SETEX'' = Some cmdSetex"
  "map_of commands ''EXISTS'' = Some cmdExists" "map_of commands ''DEL'' = Some cmdDel" "map_of commands ''INCRBY'' = Some cmdIncrby"
  "map_of commands ''DECRBY'' = Some cmdDecrby" "map_of commands ''EXPIREAT'' = Some cmdExpireat" "map_of commands ''PTTL'' = Some cmdPTTL"
  "map_of commands ''FLUSHALL'' = Some cmdFlushall" "map_of commands ''WATCH'' = Some cmdWatch" "map_of commands ''UNWATCH'' = Some cmdUnwatch"
  "map_of commands ''PING'' = Some cmdPing" "map_of commands ''AUTH'' = Some cmdAuth" "map_of commands ''SELECT'' = Some cmdSelect"
  by (simp_all add: commands_def)

lemma upper_commands:
  "ToUpper ''GET'' = ''GET''" "ToUpper ''SET'' = ''SET''" "ToUpper ''SETEX'' = ''SETEX''" "ToUpper ''EXISTS'' = ''EXISTS''"
  "ToUpper ''DEL'' = ''DEL''" "ToUpper ''INCRBY'' = ''INCRBY''" "ToUpper ''DECRBY'' = ''DECRBY''" "ToUpper ''EXPIREAT'' = ''EXPIREAT''"
  "ToUpper ''PTTL'' = ''PTTL''" "ToUpper ''FLUSHALL'' = ''FLUSHALL''" "ToUpper ''WATCH'' = ''WATCH''" "ToUpper ''UNWATCH'' = ''UNWATCH''"
  "ToUpper ''PING'' = ''PING''" "ToUpper ''AUTH'' = ''AUTH''" "ToUpper ''SELECT'' = ''SELECT''"
  by (simp_all add: ToUpper_def)

lemmas command_simps = dispatch_def map_of_commands upper_commands with_args_def handleAuth_def on_db_def

text \<open>A command on the database of a peer.\<close>

definition set_db :: "int64 \<Rightarrow> RedisDB \<Rightarrow> Miniredis \<Rightarrow> Miniredis" where
  "set_db d db m = m\<lparr>m_dbs := (m_dbs m)(d := db)\<rparr>"

lemma set_db_simps [simp]: "m_dbs (set_db d db m) = (m_dbs m)(d := db)" "m_peers (set_db d db m) = m_peers m"
  "m_password (set_db d db m) = m_password m" "m_addr (set_db d db m) = m_addr m" "m_next (set_db d db m) = m_next m"
  "m_now (set_db d db m) = m_now m" "m_sentinel (set_db d db m) = m_sentinel m" "peer e c (set_db d db m) = peer e c m" "set_db d (m_dbs m d) m = m"
  by (simp_all add: set_db_def peer_def)

lemma peer_Do:
  assumes "m_peers m c = Some ctx" "cmd \<noteq> []" "dispatch cmd args ctx m = (r, ctx, set_db d db m)"
  shows "mini_Do c cmd args m = ((r, case r of RError e \<Rightarrow> Some (ErrExt e) | _ \<Rightarrow> None), set_db d db m)"
proof -
  have "(set_db d db m)\<lparr>m_peers := (m_peers m)(c \<mapsto> ctx)\<rparr> = set_db d db m"
    using assms(1) by (simp add: set_db_def map_upd_triv)
  then show ?thesis using assms by (simp add: mini_Do_def)
qed


text \<open>How each command changes the database.\<close>

definition db_set :: "string \<Rightarrow> string \<Rightarrow> duration option \<Rightarrow> RedisDB \<Rightarrow> RedisDB" where
  "db_set k v t db = (let db1 = stringSet k v (db_del k True db) in case t of Some t \<Rightarrow> db1\<lparr>db_ttl := (db_ttl db1)(k \<mapsto> t)\<rparr> | None \<Rightarrow> db1)"

text \<open>Times to live are kept for existing keys only.\<close>

definition db_wf :: "RedisDB \<Rightarrow> bool" where
  "db_wf db \<longleftrightarrow> dom (db_ttl db) \<subseteq> dom (db_val db)"

lemma db_wf_None: "db_wf db \<Longrightarrow> db_val db k = None \<Longrightarrow> db_ttl db k = None"
  by (auto simp: db_wf_def)

lemma db_set_simps:
  assumes "db_wf db"
  shows "db_val (db_set k v t db) = (db_val db)(k \<mapsto> v)" "db_ttl (db_set k v t db) = (db_ttl db)(k := t)" "db_wf (db_set k v t db)"
proof -
  show v: "db_val (db_set k v t db) = (db_val db)(k \<mapsto> v)"
    by (auto simp: db_set_def stringSet_def db_del_def bump_def Let_def split: option.splits)
  show t: "db_ttl (db_set k v t db) = (db_ttl db)(k := t)"
    using db_wf_None [OF assms, of k]
    by (auto simp: db_set_def stringSet_def db_del_def bump_def Let_def fun_eq_iff split: option.splits)
  show "db_wf (db_set k v t db)" using assms unfolding db_wf_def v t by (auto split: if_splits)
qed

lemma db_del_simps:
  assumes "db_wf db"
  shows "db_val (db_del k True db) = (db_val db)(k := None)" "db_ttl (db_del k True db) = (db_ttl db)(k := None)" "db_wf (db_del k True db)"
  using assms by (auto simp: db_del_def bump_def db_wf_def fun_eq_iff)

lemma stringSet_simps:
  "db_val (stringSet k v db) = (db_val db)(k \<mapsto> v)" "db_ttl (stringSet k v db) = db_ttl db" "db_wf db \<Longrightarrow> db_wf (stringSet k v db)"
  by (auto simp: stringSet_def db_del_def bump_def db_wf_def Let_def)

lemma peer_dispatch:
  assumes "peer d c m" "cmd \<noteq> []"
    and "\<And>ctx. selectedDB ctx = d \<Longrightarrow> m_password m = [] \<or> authenticated ctx \<Longrightarrow> dispatch cmd args ctx m = (r, ctx, set_db d db m)"
  shows "mini_Do c cmd args m = ((r, case r of RError e \<Rightarrow> Some (ErrExt e) | _ \<Rightarrow> None), set_db d db m)"
  using assms peer_Do unfolding peer_def by blast

lemma mini_get: "peer d c m \<Longrightarrow> mini_Do c ''GET'' [k] m = ((bulk (db_val (m_dbs m d) k), None), m)"
  using peer_dispatch [of d c m "''GET''" "[k]" "bulk (db_val (m_dbs m d) k)" "m_dbs m d"]
  by (auto simp: command_simps cmdGet_def bulk_def set_db_def split: option.splits)

lemma mini_exists: "peer d c m \<Longrightarrow> mini_Do c ''EXISTS'' [k] m = ((RInt (if db_val (m_dbs m d) k = None then 0 else 1), None), m)"
  using peer_dispatch [of d c m "''EXISTS''" "[k]" "RInt (if db_val (m_dbs m d) k = None then 0 else 1)" "m_dbs m d"]
  by (auto simp: command_simps cmdExists_def set_db_def)

lemma mini_set: "peer d c m \<Longrightarrow> mini_Do c ''SET'' [k, v] m = ((OK, None), set_db d (db_set k v None (m_dbs m d)) m)"
  using peer_dispatch [of d c m "''SET''" "[k, v]" OK "db_set k v None (m_dbs m d)"]
  by (auto simp: command_simps cmdSet_def set_db_def db_set_def Let_def)

lemma mini_setex:
  "peer d c m \<Longrightarrow> mini_Do c ''SETEX'' [k, show_int t, v] m =
   (if 0 < sint t then ((OK, None), set_db d (db_set k v (Some (t * time_Second)) (m_dbs m d)) m)
    else ((RError ''ERR invalid expire time in setex'', Some (ErrExt ''ERR invalid expire time in setex'')), m))"
  using peer_dispatch [of d c m "''SETEX''" "[k, show_int t, v]" OK "db_set k v (Some (t * time_Second)) (m_dbs m d)"]
    peer_dispatch [of d c m "''SETEX''" "[k, show_int t, v]" "RError ''ERR invalid expire time in setex''" "m_dbs m d"]
  by (auto simp: command_simps cmdSetex_def set_db_def db_set_def Let_def)

lemma mini_del:
  "peer d c m \<Longrightarrow> mini_Do c ''DEL'' [k] m = ((RInt (if db_val (m_dbs m d) k = None then 0 else 1), None), set_db d (db_del k True (m_dbs m d)) m)"
  using peer_dispatch [of d c m "''DEL''" "[k]" "RInt (if db_val (m_dbs m d) k = None then 0 else 1)" "db_del k True (m_dbs m d)"]
  by (auto simp: command_simps cmdDel_def set_db_def)

lemma mini_incrby:
  "peer d c m \<Longrightarrow> mini_Do c cmd [k, a] m =
   (case Atoi a of
      None \<Rightarrow> ((RError msgInvalidInt, Some (ErrExt msgInvalidInt)), m)
    | Some i \<Rightarrow> (case stringIncr k (sign i) (m_dbs m d) of
        (Inl msg, db) \<Rightarrow> ((RError msg, Some (ErrExt msg)), set_db d db m)
      | (Inr v, db) \<Rightarrow> ((RInt v, None), set_db d db m)))"
  if "cmd = ''INCRBY'' \<and> sign = (\<lambda>i. i) \<or> cmd = ''DECRBY'' \<and> sign = uminus"
proof (cases "Atoi a")
  case None
  assume "peer d c m"
  then show ?thesis using that None peer_dispatch [of d c m cmd "[k, a]" "RError msgInvalidInt" "m_dbs m d"]
    by (auto simp: command_simps cmdIncrby_def cmdDecrby_def incrby_def)
next
  case (Some i)
  assume peer: "peer d c m"
  obtain r db where r: "stringIncr k (sign i) (m_dbs m d) = (r, db)" by fastforce
  show ?thesis using peer that Some r peer_dispatch [of d c m cmd "[k, a]" "case r of Inl msg \<Rightarrow> RError msg | Inr v \<Rightarrow> RInt v" db]
    by (auto simp: command_simps cmdIncrby_def cmdDecrby_def incrby_def set_db_def split: sum.splits)
qed

lemma mini_expireat:
  "peer d c m \<Longrightarrow> mini_Do c ''EXPIREAT'' [k, a] m =
   (case Atoi a of
      None \<Rightarrow> ((RError msgInvalidInt, Some (ErrExt msgInvalidInt)), m)
    | Some i \<Rightarrow>
        if db_val (m_dbs m d) k = None then ((RInt 0, None), m)
        else ((RInt 1, None), set_db d (checkTTL k (bump k ((m_dbs m d)\<lparr>db_ttl := (db_ttl (m_dbs m d))(k \<mapsto> time_Sub (time_Unix i) (m_now m))\<rparr>))) m))"
  using peer_dispatch [of d c m "''EXPIREAT''" "[k, a]" "RError msgInvalidInt" "m_dbs m d"]
    peer_dispatch [of d c m "''EXPIREAT''" "[k, a]" "RInt 0" "m_dbs m d"]
    peer_dispatch [of d c m "''EXPIREAT''" "[k, a]" "RInt 1"
      "checkTTL k (bump k ((m_dbs m d)\<lparr>db_ttl := (db_ttl (m_dbs m d))(k \<mapsto> time_Sub (time_Unix (the (Atoi a))) (m_now m))\<rparr>))"]
  by (auto simp: command_simps cmdExpireat_def set_db_def Let_def split: option.splits)

lemma mini_pttl:
  "peer d c m \<Longrightarrow> mini_Do c ''PTTL'' [k] m =
   ((RInt (if db_val (m_dbs m d) k = None then - 2 else case db_ttl (m_dbs m d) k of None \<Rightarrow> - 1 | Some v \<Rightarrow> go_div v time_Millisecond), None), m)"
  using peer_dispatch [of d c m "''PTTL''" "[k]" "RInt (if db_val (m_dbs m d) k = None then - 2 else case db_ttl (m_dbs m d) k of None \<Rightarrow> - 1 | Some v \<Rightarrow> go_div v time_Millisecond)" "m_dbs m d"]
  by (auto simp: command_simps cmdPTTL_def set_db_def split: option.splits)

lemma mini_ping: "peer d c m \<Longrightarrow> mini_Do c ''PING'' [] m = ((RStatus ''PONG'', None), m)"
  using peer_dispatch [of d c m "''PING''" "[]" "RStatus ''PONG''" "m_dbs m d"] by (auto simp: command_simps cmdPing_def set_db_def)

lemma mini_flushall:
  "peer d c m \<Longrightarrow> mini_Do c ''FLUSHALL'' [] m = ((OK, None), m\<lparr>m_dbs := (\<lambda>i. db_flush (m_dbs m i))\<rparr>)"
  unfolding peer_def mini_Do_def by (auto simp: command_simps cmdFlushall_def map_upd_triv)

section \<open>The test server keeps the contract\<close>

definition mini_inv :: "string \<Rightarrow> string \<Rightarrow> Time \<Rightarrow> (string \<times> string) option \<Rightarrow> int64 \<Rightarrow> conn set \<Rightarrow> Miniredis \<Rightarrow> bool" where
  "mini_inv host pw clk sn d C m \<longleftrightarrow> db_wf (m_dbs m d) \<and> (\<forall>c \<in> C. peer d c m) \<and> (\<forall>c \<ge> m_next m. m_peers m c = None)
     \<and> m_addr m = host \<and> m_password m = pw \<and> m_now m = clk \<and> m_sentinel m = sn"

lemma mini_inv_set_db: "mini_inv host pw clk sn d C m \<Longrightarrow> db_wf db \<Longrightarrow> mini_inv host pw clk sn d C (set_db d db m)"
  by (simp add: mini_inv_def)

lemma mini_inv_peer: "mini_inv host pw clk sn d C m \<Longrightarrow> c \<in> C \<Longrightarrow> peer d c m" "mini_inv host pw clk sn d C m \<Longrightarrow> db_wf (m_dbs m d)"
  by (simp_all add: mini_inv_def)

lemma stringIncr_ok:
  assumes "case db_val db k of None \<Rightarrow> cur = 0 | Some sv \<Rightarrow> Atoi sv = Some cur"
  shows "stringIncr k i db = (Inr (cur + i), stringSet k (show_int (cur + i)) db)"
  using assms by (auto simp: stringIncr_def split: option.splits)

lemma db_wf_flush: "db_wf (db_flush db)" "db_val (db_flush db) = Map.empty" "db_ttl (db_flush db) = Map.empty"
  by (simp_all add: db_flush_def db_wf_def)

interpretation mini: redis_server mini_net "mini_inv host pw clk sn d" "\<lambda>m. db_val (m_dbs m d)" "\<lambda>m. db_ttl (m_dbs m d)"
    "ErrExt ''ERR invalid expire time in setex''" for host pw clk sn d
proof (unfold_locales, goal_cases)
  case (1 C n c k)
  then show ?case using mini_get [OF mini_inv_peer(1)] by (simp add: mini_net_def)
next
  case (2 C n c k)
  then show ?case using mini_exists [OF mini_inv_peer(1)] by (simp add: mini_net_def)
next
  case (3 C n c k v)
  then show ?case using mini_set [OF mini_inv_peer(1) [OF 3], of k v] db_set_simps [OF mini_inv_peer(2) [OF 3(1)], of k v None]
    by (simp add: mini_net_def mini_inv_set_db)
next
  case (4 C n c t k v)
  then show ?case using mini_setex [OF mini_inv_peer(1) [OF 4(1,2)], of k t v] db_set_simps [OF mini_inv_peer(2) [OF 4(1)], of k v "Some (t * time_Second)"]
    by (simp add: mini_net_def mini_inv_set_db)
next
  case (5 C n c t k v)
  then show ?case using mini_setex [OF mini_inv_peer(1) [OF 5(1,2)], of k t v] by (simp add: mini_net_def)
next
  case (6 C n c k)
  then show ?case using mini_del [OF mini_inv_peer(1) [OF 6], of k] db_del_simps [OF mini_inv_peer(2) [OF 6(1)], of k]
    by (simp add: mini_net_def mini_inv_set_db)
next
  case (7 C n c)
  then show ?case using mini_flushall [OF mini_inv_peer(1) [OF 7]] by (auto simp: mini_net_def mini_inv_def db_wf_flush peer_def)
next
  case (8 C n c a i cur k)
  then show ?case using mini_incrby [of "''INCRBY''" "\<lambda>i. i", OF _ mini_inv_peer(1) [OF 8(1,2)], of k a] stringIncr_ok [where db = "m_dbs n d" and k = k and cur = cur and i = i]
      stringSet_simps [where k = k and v = "show_int (cur + i)" and db = "m_dbs n d"] mini_inv_peer(2) [OF 8(1)]
    by (simp add: mini_net_def mini_inv_set_db)
next
  case (9 C n c a i cur k)
  then show ?case using mini_incrby [of "''DECRBY''" uminus, OF _ mini_inv_peer(1) [OF 9(1,2)], of k a] stringIncr_ok [where db = "m_dbs n d" and k = k and cur = cur and i = "- i"]
      stringSet_simps [where k = k and v = "show_int (cur - i)" and db = "m_dbs n d"] mini_inv_peer(2) [OF 9(1)]
    by (simp add: mini_net_def mini_inv_set_db)
next
  case (10 C n c)
  then show ?case by (simp add: mini_net_def mini_Do_def)
next
  case (11 C n c)
  then show ?case using mini_inv_peer(1) [OF 11] by (auto simp: mini_net_def peer_def)
next
  case (12 C n c)
  then show ?case by (auto simp: mini_net_def mini_inv_def peer_def)
next
  case (13 C n D)
  then show ?case by (auto simp: mini_inv_def)
qed

text \<open>A new connection: a fresh peer that authenticates or pings, and selects its database.\<close>

definition hello :: "string \<Rightarrow> int64 \<Rightarrow> (string \<times> string list) list" where
  "hello pw d = (if length pw > 0 then [(''AUTH'', [pw])] else [(''PING'', [])]) @ (if d \<noteq> 0 then [(''SELECT'', [show_int d])] else [])"

lemma mini_opened:
  assumes "mini_inv host pw clk sn d C m" "cmds = hello pw d \<or> cmds = filter (\<lambda>(cmd, _). cmd \<noteq> ''PING'') (hello pw d)"
  shows "\<exists>c m'. started mini_net cmds (n_Dial mini_net ''tcp'' host t1 t2 t3 m) = (Inr c, m') \<and> c \<notin> C \<and> mini_inv host pw clk sn d (insert c C) m'
    \<and> m_dbs m' = m_dbs m"
proof -
  let ?c = "m_next m" and ?ctx = "\<lparr>selectedDB = d, authenticated = (pw \<noteq> []), watched = Map.empty\<rparr>"
  let ?m = "m\<lparr>m_peers := (m_peers m)(?c \<mapsto> ?ctx), m_next := ?c + 1\<rparr>"
  have "started mini_net cmds (n_Dial mini_net ''tcp'' host t1 t2 t3 m) = (Inr ?c, ?m)"
    using assms by (auto simp: mini_inv_def started_def mini_net_def mini_Dial_def mini_Do_def command_simps cmdAuth_def cmdPing_def cmdSelect_def hello_def)
  moreover have "?c \<notin> C" using assms(1) by (auto simp: mini_inv_def peer_def)
  moreover have "mini_inv host pw clk sn d (insert ?c C) ?m" using assms(1) by (auto simp: mini_inv_def peer_def)
  ultimately show ?thesis by force
qed

interpretation mini_store: redis_pool mini_net "mini_inv host pw clk sn d" "\<lambda>m. db_val (m_dbs m d)" "\<lambda>m. db_ttl (m_dbs m d)"
    "ErrExt ''ERR invalid expire time in setex''" "rs_pool (NewRedisCache mini_net host pw defaultExp (Some d))" for host pw clk sn d defaultExp
proof (unfold_locales, goal_cases)
  case (1 C n)
  then show ?case using mini_opened [OF 1, of "hello pw d" 0 0 0] by (auto simp: NewRedisCache_def hello_def Let_def)
next
  case (2 C n c now t)
  then show ?case using mini_ping [OF mini_inv_peer(1) [OF 2]] by (simp add: NewRedisCache_def mini_net_def Let_def)
qed

abbreviation mini_redis :: "string \<Rightarrow> string \<Rightarrow> duration \<Rightarrow> int64 \<Rightarrow> Miniredis RedisStore" where
  "mini_redis host pw exp d \<equiv> NewRedisCache mini_net host pw exp (Some d)"

text \<open>The store is at rest: no connection is borrowed, and the idle ones are open and served.\<close>

definition serving :: "string \<Rightarrow> string \<Rightarrow> Time \<Rightarrow> (string \<times> string) option \<Rightarrow> duration \<Rightarrow> int64 \<Rightarrow> Miniredis pooled \<Rightarrow> bool" where
  "serving host pw clk sn exp d s \<longleftrightarrow> distinct (map pc_c (ps_idle s)) \<and> mini_inv host pw clk sn d (conns (ps_idle s)) (ps_net s)
     \<and> pool_inv (rs_pool (mini_redis host pw exp d)) 0 s"

definition keys_of :: "int64 \<Rightarrow> Miniredis pooled \<Rightarrow> string \<rightharpoonup> string" where
  "keys_of d s = db_val (m_dbs (ps_net s) d)"

definition ttls_of :: "int64 \<Rightarrow> Miniredis pooled \<Rightarrow> string \<rightharpoonup> duration" where
  "ttls_of d s = db_ttl (m_dbs (ps_net s) d)"

lemma serving_quiet: "serving host pw clk sn exp d = mini_store.quiet host pw clk sn d exp"
  by (simp add: fun_eq_iff serving_def mini_store.quiet_def)

lemmas mini_set_stores = mini_store.set_stores [OF _ refl, folded serving_quiet keys_of_def ttls_of_def]
lemmas mini_get_result = mini_store.get_result [OF _ refl, folded serving_quiet keys_of_def ttls_of_def]

end
