(* ===== verification/RedisStoreSpec.thy ===== *)
theory RedisStoreSpec
  imports MiniredisSpec
begin

text \<open>
  Properties of the Redis store, over the test server: round trips and expiry, counters, conditional
  stores, the Redis-only methods, and what happens without a connection.
\<close>

section \<open>Values\<close>

text \<open>Values that survive the store: integers and bytes always do, the others as far as gob keeps them.\<close>

definition gob_ok :: "(godata \<Rightarrow> error + bytes) \<Rightarrow> (bytes \<Rightarrow> gotype \<Rightarrow> error + godata) \<Rightarrow> godata \<Rightarrow> bool" where
  "gob_ok enc dec v \<longleftrightarrow> (case enc v of Inr b \<Rightarrow> dec b (TPtr (type_of v)) = Inr v | Inl _ \<Rightarrow> False)"

definition storable :: "(godata \<Rightarrow> error + bytes) \<Rightarrow> (bytes \<Rightarrow> gotype \<Rightarrow> error + godata) \<Rightarrow> godata \<Rightarrow> bool" where
  "storable enc dec v \<longleftrightarrow>
     (case v of VInt _ \<Rightarrow> True | VBytes _ \<Rightarrow> True
      | VNum t n \<Rightarrow> if t = Uintptr then gob_ok enc dec v else set_num t n = n
      | _ \<Rightarrow> gob_ok enc dec v)"

lemma Serialize_roundtrip:
  assumes "storable enc dec v"
  shows "\<exists>b. Serialize enc v = Inr b \<and> Deserialize dec b (TPtr (type_of v)) = (None, Some v)"
  using assms
  by (cases v) (auto simp: storable_def gob_ok_def Serialize_def Deserialize_def ParseInt_show ParseUint_show parsed_def decoded_def is_signed_def
      split: sum.split_asm if_splits)

section \<open>Expiry\<close>

lemma FastForward_inv: "mini_inv host pw clk sn d C m \<Longrightarrow> mini_inv host pw clk sn d C (FastForward t m)"
proof -
  have "db_wf db \<Longrightarrow> db_wf (fastForward t db)" for db by (fastforce simp: db_wf_def fastForward_def Let_def dom_def)
  then show "mini_inv host pw clk sn d C m \<Longrightarrow> mini_inv host pw clk sn d C (FastForward t m)" by (auto simp: mini_inv_def FastForward_def peer_def)
qed

lemma FastForward_serving:
  assumes "serving host pw clk sn exp d s"
  shows "serving host pw clk sn exp d (s\<lparr>ps_net := FastForward t (ps_net s)\<rparr>)"
  using assms by (auto simp: serving_def intro: FastForward_inv)

lemma FastForward_key:
  assumes "db_wf (m_dbs (ps_net s) d)"
  shows "keys_of d (s\<lparr>ps_net := FastForward t (ps_net s)\<rparr>) k =
    (case ttls_of d s k of Some v \<Rightarrow> if sint (v - t) \<le> 0 then None else keys_of d s k | None \<Rightarrow> keys_of d s k)"
  using assms by (auto simp: keys_of_def ttls_of_def FastForward_def fastForward_def Let_def split: option.splits)

lemma sint_sub_pos:
  assumes "0 < sint v" "0 \<le> sint (t :: int64)"
  shows "sint (v - t) \<le> 0 \<longleftrightarrow> sint v \<le> sint t"
proof -
  have "v - t = word_of_int (sint v - sint t)" by simp
  then have "sint (v - t) = sint (word_of_int (sint v - sint t) :: int64)" by simp
  also have "\<dots> = sint v - sint t" using assms sint_bounds64 [of v] sint_bounds64 [of t] by (intro sint_word_of_int64) linarith+
  finally show ?thesis by simp
qed

lemma seconds_range: "0 \<le> sint x sdiv 1000000000 \<and> sint x sdiv 1000000000 \<le> 9223372036" if "0 < sint (x :: int64)"
  using that seconds_bounds(2) [OF sint_bounds64 [of x]] by (simp add: signed_divide_int_def)

lemma signed_32: "- (2 ^ 31) \<le> signed_take_bit 31 (i :: int)" "signed_take_bit 31 (i :: int) < 2 ^ 31"
  by (rule signed_take_bit_int_greater_eq_minus_exp, rule signed_take_bit_int_less_exp)

lemma secs32_sint: "sint (secs32 x) = signed_take_bit 31 (sint x sdiv 1000000000)"
proof -
  have "- (2 ^ 63) \<le> signed_take_bit 31 (sint x sdiv 1000000000)" "signed_take_bit 31 (sint x sdiv 1000000000) < 2 ^ 63"
    using signed_32 [of "sint x sdiv 1000000000"] by simp_all
  then show ?thesis by (simp add: secs32_def sint_seconds sint_word_of_int64)
qed

text \<open>The seconds of \<open>SETEX\<close> are a positive 32-bit number, so the time to live does not overflow.\<close>

lemma ttl_of_pos:
  assumes "ttl_of st e = Some (Some t)"
  shows "0 < sint t" "sint t = sint (secs32 (effective st e)) * 1000000000"
proof -
  have t: "t = secs32 (effective st e) * time_Second" "0 < sint (secs32 (effective st e))"
    using assms by (auto simp: ttl_of_def Let_def split: if_splits)
  let ?q = "sint (secs32 (effective st e))"
  have b: "0 < ?q" "?q < 2 ^ 31" using t(2) signed_32(2) by (simp_all only: secs32_sint)
  have "t = word_of_int (?q * 1000000000)" by (simp add: t(1) time_Second_def)
  moreover have "sint (word_of_int (?q * 1000000000) :: int64) = ?q * 1000000000" using b by (intro sint_word_of_int64) simp_all
  ultimately show "sint t = ?q * 1000000000" "0 < sint t" using b by simp_all
qed

lemma serving_db: "serving host pw clk sn exp d s \<Longrightarrow> db_wf (m_dbs (ps_net s) d)"
  by (simp add: serving_def mini_inv_def)

text \<open>
  C6: The Redis store is a store: after \<open>Set\<close>, \<open>Get\<close> into a variable of the value's type returns the value as
  long as its time to live has not passed, and a miss afterwards; without a time to live it stays.
\<close>

theorem rs_Set_Get:
  assumes "serving host pw clk sn exp d s" "storable enc dec v" "ttl_of (mini_redis host pw exp d) e = Some t" "0 \<le> sint elapsed"
  shows "let (r, s1) = rs_Set mini_net enc (mini_redis host pw exp d) now k v e s;
             s2 = s1\<lparr>ps_net := FastForward elapsed (ps_net s1)\<rparr>;
             (g, s3) = rs_Get mini_net dec (mini_redis host pw exp d) later k (TPtr (type_of v)) s2
    in r = Ret None \<and> serving host pw clk sn exp d s3
     \<and> g = Ret (case t of Some l \<Rightarrow> if sint l \<le> sint elapsed then (Some ErrCacheMiss, None) else (None, Some v)
                         | None \<Rightarrow> (None, Some v))"
proof -
  obtain b where b: "Serialize enc v = Inr b" "Deserialize dec b (TPtr (type_of v)) = (None, Some v)"
    using Serialize_roundtrip [OF assms(2)] by blast
  obtain s1 where s1: "rs_Set mini_net enc (mini_redis host pw exp d) now k v e s = (Ret None, s1)" "serving host pw clk sn exp d s1"
    "keys_of d s1 = (keys_of d s)(k \<mapsto> string_of_bytes b)" "ttls_of d s1 = (ttls_of d s)(k := t)"
    using mini_set_stores [OF assms(1) b(1) assms(3), of now k] by blast
  let ?s2 = "s1\<lparr>ps_net := FastForward elapsed (ps_net s1)\<rparr>"
  obtain s3 where s3: "rs_Get mini_net dec (mini_redis host pw exp d) later k (TPtr (type_of v)) ?s2 =
      (Ret (case keys_of d ?s2 k of None \<Rightarrow> (Some ErrCacheMiss, None) | Some v' \<Rightarrow> Deserialize dec (bytes_of_string v') (TPtr (type_of v))), s3)"
    "serving host pw clk sn exp d s3"
    using mini_get_result [OF FastForward_serving [OF s1(2)], of dec later k "TPtr (type_of v)"] by blast
  have "keys_of d ?s2 k = (case t of Some l \<Rightarrow> if sint l \<le> sint elapsed then None else Some (string_of_bytes b) | None \<Rightarrow> Some (string_of_bytes b))"
    using FastForward_key [OF serving_db [OF s1(2)], of elapsed k] s1(3,4) ttl_of_pos(1) [of _ e] assms(3,4) sint_sub_pos
    by (auto split: option.splits)
  then show ?thesis using s1(1) s3 b(2) by (auto split: option.splits)
qed


text \<open>
  C30: Counters. \<open>Increment\<close> adds with wrap-around, but writes the sum without an expiry, so a counter that had
  a time to live never expires afterwards; \<open>IncrementAtomic\<close> (within the 64-bit range) and \<open>Decrement\<close>, which
  stops at 0, keep it. An absent key is a miss for \<open>Increment\<close> and \<open>Decrement\<close>; \<open>IncrementAtomic\<close> creates it.
\<close>

theorem rs_counters:
  assumes "serving host pw clk sn exp d s" "st = mini_redis host pw exp d" "keys_of d s k = None \<and> i = 0 \<or> keys_of d s k = Some (show_int i)"
  shows "(let (r, s1) = rs_Increment mini_net st now k delta s in serving host pw clk sn exp d s1 \<and>
        (if keys_of d s k = None then r = Ret (0, Some ErrCacheMiss) \<and> keys_of d s1 = keys_of d s
         else r = Ret (i + delta, None) \<and> keys_of d s1 = (keys_of d s)(k \<mapsto> show_int (i + delta)) \<and> ttls_of d s1 = (ttls_of d s)(k := None)))
    \<and> (uint i < 2 ^ 63 \<longrightarrow> (let (r, s1) = rs_Decrement mini_net st now k delta s in serving host pw clk sn exp d s1 \<and> ttls_of d s1 = ttls_of d s \<and>
        (if keys_of d s k = None then r = Ret (0, Some ErrCacheMiss) \<and> keys_of d s1 = keys_of d s
         else let v = (if i < delta then 0 else i - delta) in r = Ret (v, None) \<and> keys_of d s1 = (keys_of d s)(k \<mapsto> show_int v))))
    \<and> (uint delta < 2 ^ 63 \<and> sint i + sint delta < 2 ^ 63 \<longrightarrow> (let (r, s1) = rs_IncrementAtomic mini_net st now k delta s in
         serving host pw clk sn exp d s1 \<and> r = Ret (i + delta, None) \<and> keys_of d s1 = (keys_of d s)(k \<mapsto> show_int (i + delta)) \<and> ttls_of d s1 = ttls_of d s))"
proof (intro conjI impI, goal_cases)
  case 1
  show ?case using mini_store.increment_result [OF assms(1) [unfolded serving_quiet] refl, of k i now delta] mini_store.increment_miss [OF assms(1) [unfolded serving_quiet] refl, of k now delta] assms(3)
    by (auto simp: assms(2) serving_quiet keys_of_def ttls_of_def)
next
  case 2
  show ?case using mini_store.decrement_result [OF assms(1) [unfolded serving_quiet] refl, of k i now delta] mini_store.decrement_miss [OF assms(1) [unfolded serving_quiet] refl, of k now delta] assms(3) 2
    by (auto simp: assms(2) serving_quiet keys_of_def ttls_of_def)
next
  case 3
  then show ?case using mini_store.atomic_result [OF assms(1) [unfolded serving_quiet] refl, where k = k and i = i and delta = delta and now = now] assms(3)
    by (auto simp: assms(2) serving_quiet keys_of_def ttls_of_def)
qed


lemma expire_db:
  assumes "db_wf db" "db' = checkTTL k (bump k (db\<lparr>db_ttl := (db_ttl db)(k \<mapsto> l)\<rparr>))" "db_val db k \<noteq> None"
  shows "db_val db' = (if sint l \<le> 0 then (db_val db)(k := None) else db_val db)"
    "db_ttl db' = (db_ttl db)(k := if sint l \<le> 0 then None else Some l)" "db_wf db'"
  using assms by (auto simp: checkTTL_def bump_def db_del_def db_wf_def fun_eq_iff)

lemma millis_nonneg: "0 < sint t \<Longrightarrow> 0 \<le> sint (go_div t time_Millisecond)"
proof -
  assume t: "0 < sint t"
  then have "0 \<le> sint t div 1000000" "sint t div 1000000 < 2 ^ 63" using sint_bounds64 [of t] by simp_all
  then show ?thesis using t by (simp add: go_div_def time_Millisecond_def sint_word_of_int64 signed_divide_int_def)
qed

lemma mini_ExpireAt:
  assumes "serving host pw clk sn exp d s" "st = mini_redis host pw exp d" "uint epoc < 2 ^ 63" "l = time_Sub (time_Unix epoc) clk"
  shows "\<exists>s1. rs_ExpireAt mini_net st now k epoc s = (Ret None, s1) \<and> serving host pw clk sn exp d s1
      \<and> keys_of d s1 = (if keys_of d s k \<noteq> None \<and> sint l \<le> 0 then (keys_of d s)(k := None) else keys_of d s)
      \<and> ttls_of d s1 = (if keys_of d s k = None then ttls_of d s else (ttls_of d s)(k := if sint l \<le> 0 then None else Some l))"
  unfolding rs_ExpireAt_def serving_quiet keys_of_def ttls_of_def assms(2)
proof (rule mini_store.with_conn_rule [OF assms(1) [unfolded serving_quiet] refl], goal_cases)
  case (1 pc s1 C)
  let ?db = "m_dbs (ps_net s1) d"
  have c: "m_now (ps_net s1) = clk" "db_wf ?db" "Atoi (show_uint epoc) = Some epoc"
    using 1(1) assms(3) by (simp_all add: mini_inv_def Atoi_show_uint)
  show ?case
    using mini_expireat [OF mini_inv_peer(1) [OF 1(1,2)], of k "show_uint epoc"] 1 c expire_db [OF c(2) refl, of k l]
    by (cases "db_val ?db k") (auto intro: exI [of _ "ps_net s1"] mini_inv_set_db simp: conn_Do_def mini_net_def watch_state_def equals_int_0_def assms(4) [symmetric])
qed

lemma mini_GetExpiresIn:
  assumes "serving host pw clk sn exp d s" "st = mini_redis host pw exp d"
  shows "\<exists>s1. rs_GetExpiresIn mini_net st now k s = (Ret (if keys_of d s k = None then (0, Some ErrCacheMiss) else
        case ttls_of d s k of None \<Rightarrow> (0, Some ErrCacheNoTTL) | Some t \<Rightarrow>
          let i = go_div t time_Millisecond in if i = - 2 then (0, Some ErrCacheMiss) else if i = - 1 then (0, Some ErrCacheNoTTL) else (i, None)), s1)
      \<and> serving host pw clk sn exp d s1 \<and> keys_of d s1 = keys_of d s \<and> ttls_of d s1 = ttls_of d s"
  unfolding rs_GetExpiresIn_def serving_quiet keys_of_def ttls_of_def assms(2)
proof (rule mini_store.with_conn_rule [OF assms(1) [unfolded serving_quiet] refl], goal_cases)
  case (1 pc s1 C)
  then show ?case using mini_pttl [OF mini_inv_peer(1) [OF 1(1,2)], of k]
    by (intro exI [of _ "ps_net s1"]) (auto simp: conn_Do_def mini_net_def watch_state_def Let_def split: option.splits)
qed

text \<open>
  \<open>ExpireAt\<close> sets the time to live to the difference to the server's clock and removes the key if that is
  not positive; for an absent key it reports success, although its code means to report a miss.
  \<open>GetExpiresIn\<close> tells the remaining milliseconds, that there is no expiry, or that there is no key.
\<close>

theorem rs_expiry_methods:
  assumes "serving host pw clk sn exp d s" "st = mini_redis host pw exp d" "uint epoc < 2 ^ 63"
    and "l = time_Sub (time_Unix epoc) clk"
  shows "(let (r, s1) = rs_ExpireAt mini_net st now k epoc s in serving host pw clk sn exp d s1 \<and> r = Ret None \<and>
        (if keys_of d s k = None then keys_of d s1 = keys_of d s \<and> ttls_of d s1 = ttls_of d s
         else if sint l \<le> 0 then keys_of d s1 = (keys_of d s)(k := None)
         else keys_of d s1 = keys_of d s \<and> ttls_of d s1 = (ttls_of d s)(k \<mapsto> l)))
    \<and> (let (r, s1) = rs_GetExpiresIn mini_net st now k s in serving host pw clk sn exp d s1 \<and> keys_of d s1 = keys_of d s \<and>
        (keys_of d s k = None \<longrightarrow> r = Ret (0, Some ErrCacheMiss))
        \<and> (keys_of d s k \<noteq> None \<and> ttls_of d s k = None \<longrightarrow> r = Ret (0, Some ErrCacheNoTTL))
        \<and> (\<forall>t. keys_of d s k \<noteq> None \<and> ttls_of d s k = Some t \<and> 0 < sint t \<longrightarrow> r = Ret (go_div t time_Millisecond, None)))"
proof (rule conjI, goal_cases)
  case 1
  show ?case using mini_ExpireAt [OF assms, of now k] by auto
next
  case 2
  have "go_div t time_Millisecond \<noteq> - 2" "go_div t time_Millisecond \<noteq> - 1" if "0 < sint t" for t :: int64
    using millis_nonneg [OF that] by auto
  then show ?case using mini_GetExpiresIn [OF assms(1,2), of now k] by (auto simp: Let_def split: option.splits)
qed

lemma rs_unreachable:
  assumes "pool_get net (rs_pool st) now s = (Some (Inl err), s1)"
  shows "rs_Get net dec st now k ty s = (Ret (Some ErrCacheMiss, None), s1)"
    "Serialize enc v = Inr b \<Longrightarrow> rs_Set net enc st now k v e s = (Ret (Some err), s1)"
  using assms by (simp_all add: rs_Get_def rs_Set_def with_conn_def conn_Do_def conn_Close_def invoke_def Let_def)

text \<open>
  When no connection can be had, every method returns with the error of dialling and changes nothing but
  the pool, except that \<open>Get\<close> and \<open>Increment\<close> report a cache miss.
\<close>

theorem rs_no_connection:
  assumes "pool_get net (rs_pool st) now s = (Some (Inl err), s1)"
  shows "rs_Get net dec st now k ty s = (Ret (Some ErrCacheMiss, None), s1)
    \<and> rs_Increment net st now k delta s = (Ret (0, Some ErrCacheMiss), s1)
    \<and> (Serialize enc v = Inr b \<longrightarrow> rs_Set net enc st now k v e s = (Ret (Some err), s1))
    \<and> rs_Add net enc st now k v e s = (Ret (Some err), s1)
    \<and> rs_Replace net enc st now k v e s = (Ret (Some err), s1)
    \<and> rs_Delete net st now k s = (Ret (Some err), s1)
    \<and> rs_Decrement net st now k delta s = (Ret (0, Some err), s1)
    \<and> rs_Flush net st now s = (Ret (Some err), s1)
    \<and> rs_IncrementAtomic net st now k delta s = (Ret (0, Some err), s1)
    \<and> rs_IncrementCheckSet net st now k delta s = (Ret (0, Some err), s1)
    \<and> rs_ExpireAt net st now k epoc s = (Ret (Some err), s1)
    \<and> rs_GetExpiresIn net st now k s = (Ret (0, Some err), s1)"
  using assms by (simp add: rs_Get_def rs_Increment_def rs_Set_def rs_Add_def rs_Replace_def rs_Delete_def rs_Decrement_def rs_Flush_def
      rs_IncrementAtomic_def rs_IncrementCheckSet_def rs_ExpireAt_def rs_GetExpiresIn_def with_conn_def conn_Do_def conn_Close_def
      get_add_set_def invoke_def rs_exists_def Let_def equals_int_0_def)

section \<open>Checked increments\<close>

text \<open>Other clients at work: after each \<open>GET\<close> the server is changed by \<open>g\<close>.\<close>

definition interfering :: "(Miniredis \<Rightarrow> Miniredis) \<Rightarrow> Miniredis Net" where
  "interfering g = mini_net\<lparr>n_Do := (\<lambda>c cmd args m. case mini_Do c cmd args m of (r, m1) \<Rightarrow> (r, if cmd = ''GET'' then g m1 else m1))\<rparr>"

lemma interfering_close [simp]: "n_Close (interfering g) = n_Close mini_net" "n_Err (interfering g) = n_Err mini_net" "n_Send (interfering g) = n_Send mini_net"
  by (simp_all add: interfering_def)

lemma interfering_prune: "prune (interfering g) now t pcs a m = prune mini_net now t pcs a m"
  by (induction pcs arbitrary: a m) simp_all

lemma interfering_borrow: "borrow (interfering g) pool now pcs a m = borrow mini_net pool now pcs a m"
  by (induction pcs arbitrary: a m) (simp_all split: option.splits prod.splits)

lemma interfering_conn: "with_conn (interfering g) st now f s = with_conn mini_net st now f s"
proof -
  have "conn_Close (interfering g) pool now cs = conn_Close mini_net pool now cs" for pool :: "Miniredis Pool" and cs
  proof -
    have "n_Do (interfering g) c [] [] m = n_Do mini_net c [] [] m" for c m by (simp add: interfering_def mini_net_def mini_Do_def)
    then show ?thesis by (auto simp: conn_Close_def pool_put_def close_one_def Let_def split: prod.splits activeConn.splits)
  qed
  moreover have "pool_get (interfering g) pool now s = pool_get mini_net pool now s" for pool :: "Miniredis Pool"
    by (simp add: pool_get_def interfering_prune interfering_borrow)
  ultimately show ?thesis by (simp add: with_conn_def split: prod.split option.split sum.split)
qed

lemma watch_commands:
  assumes "m_peers m c = Some ctx" "m_password m = [] \<or> authenticated ctx"
  shows "mini_Do c ''WATCH'' [k] m = ((OK, None), m\<lparr>m_peers := (m_peers m)(c \<mapsto> ctx\<lparr>watched := (watched ctx)((selectedDB ctx, k) \<mapsto> db_version (m_dbs m (selectedDB ctx)) k)\<rparr>)\<rparr>)"
    "snd (mini_Do c ''UNWATCH'' [k] m) = m"
  using assms by (auto simp: mini_Do_def command_simps cmdWatch_def cmdUnwatch_def map_upd_triv)

lemma put_idle:
  assumes "p_MaxIdle pool > 0" "pc_c pc \<notin> conns (ps_idle s)" "P (m_peers (ps_net s) (pc_c pc))"
  shows "\<exists>p \<in> set (ps_idle (pool_put mini_net pool now pc False s)). P (m_peers (ps_net (pool_put mini_net pool now pc False s)) (pc_c p))"
proof (cases "int (length (pc\<lparr>pc_t := now\<rparr> # ps_idle s)) > p_MaxIdle pool")
  case True
  then have "ps_idle s \<noteq> []" using assms(1) by auto
  then have "pc_c (last (ps_idle s)) \<noteq> pc_c pc" using assms(2) by (metis conns_def image_eqI last_in_set)
  with True \<open>ps_idle s \<noteq> []\<close> assms(3) show ?thesis by (auto simp: pool_put_def Let_def close_one_def mini_net_def)
next
  case False
  with assms(3) show ?thesis by (auto simp: pool_put_def Let_def)
qed

lemma checkset_session:
  assumes inv: "mini_inv host pw clk sn d C (ps_net s)" and c: "pc_c pc \<in> C" and cur: "keys_of d s k = Some (show_int i)"
    and g: "\<forall>C m. mini_inv host pw clk sn d C m \<longrightarrow> mini_inv host pw clk sn d C (g m) \<and> m_peers (g m) = m_peers m"
  shows "\<exists>cs1 cs2 n. conn_Do (interfering g) ''WATCH'' [k] (ActiveConn pc False, s) = ((OK, None), cs1)
    \<and> get_add_set (interfering g) k delta cs1 = ((i + delta, None), cs2)
    \<and> snd (conn_Do (interfering g) ''UNWATCH'' [k] cs2) = (ActiveConn pc False, s\<lparr>ps_net := n\<rparr>)
    \<and> mini_inv host pw clk sn d C n \<and> db_val (m_dbs n d) k = Some (show_int (i + delta))
    \<and> (\<exists>m1. m_dbs m1 = m_dbs (ps_net s) \<and> db_val (m_dbs n d) = (db_val (m_dbs (g m1) d))(k \<mapsto> show_int (i + delta))
        \<and> db_ttl (m_dbs n d) = (db_ttl (m_dbs (g m1) d))(k := None))
    \<and> (\<exists>ctx. m_peers n (pc_c pc) = Some ctx \<and> watched ctx (d, k) \<noteq> None)"
proof -
  obtain ctx where ctx: "m_peers (ps_net s) (pc_c pc) = Some ctx" "selectedDB ctx = d" "m_password (ps_net s) = [] \<or> authenticated ctx"
    using inv c by (auto simp: mini_inv_def peer_def)
  let ?ctx = "ctx\<lparr>watched := (watched ctx)((d, k) \<mapsto> db_version (m_dbs (ps_net s) d) k)\<rparr>"
  let ?m1 = "(ps_net s)\<lparr>m_peers := (m_peers (ps_net s))(pc_c pc \<mapsto> ?ctx)\<rparr>"
  have m1: "mini_inv host pw clk sn d C ?m1" using inv ctx by (auto simp: mini_inv_def peer_def)
  then have gm: "mini_inv host pw clk sn d C (g ?m1)" "m_peers (g ?m1) = m_peers ?m1" using g by blast+
  let ?n = "set_db d (db_set k (show_int (i + delta)) None (m_dbs (g ?m1) d)) (g ?m1)"
  have n: "mini_inv host pw clk sn d C ?n" "db_val (m_dbs ?n d) k = Some (show_int (i + delta))" "m_peers ?n (pc_c pc) = Some ?ctx"
    using gm(2) mini_inv_set_db [OF gm(1)] db_set_simps [OF mini_inv_peer(2) [OF gm(1)], of k "show_int (i + delta)" None] by simp_all
  have pw: "m_password ?n = [] \<or> authenticated ?ctx" using ctx(3) gm(1) inv by (auto simp: mini_inv_def)
  have "conn_Do (interfering g) ''WATCH'' [k] (ActiveConn pc False, s) = ((OK, None), (ActiveConn pc True, s\<lparr>ps_net := ?m1\<rparr>))"
    using watch_commands(1) [OF ctx(1,3), of k] ctx(2) by (simp add: conn_Do_def interfering_def watch_state_def)
  moreover have "get_add_set (interfering g) k delta (ActiveConn pc True, s\<lparr>ps_net := ?m1\<rparr>) = ((i + delta, None), (ActiveConn pc True, s\<lparr>ps_net := ?n\<rparr>))"
    using mini_get [OF mini_inv_peer(1) [OF m1 c], of k] mini_set [OF mini_inv_peer(1) [OF gm(1) c], of k "show_int (i + delta)"] cur
    by (simp add: get_add_set_def conn_Do_def interfering_def watch_state_def bulk_def ParseInt_show keys_of_def Let_def)
  moreover have "snd (conn_Do (interfering g) ''UNWATCH'' [k] (ActiveConn pc True, s\<lparr>ps_net := ?n\<rparr>)) = (ActiveConn pc False, s\<lparr>ps_net := ?n\<rparr>)"
    using watch_commands(2) [OF n(3) pw, of k] by (simp add: conn_Do_def interfering_def watch_state_def case_prod_beta)
  moreover have "\<exists>m1. m_dbs m1 = m_dbs (ps_net s) \<and> db_val (m_dbs ?n d) = (db_val (m_dbs (g m1) d))(k \<mapsto> show_int (i + delta))
      \<and> db_ttl (m_dbs ?n d) = (db_ttl (m_dbs (g m1) d))(k := None)"
    using db_set_simps [OF mini_inv_peer(2) [OF gm(1)], of k "show_int (i + delta)" None] by (intro exI [of _ ?m1]) simp
  moreover have "\<exists>ctx. m_peers ?n (pc_c pc) = Some ctx \<and> watched ctx (d, k) \<noteq> None" using n(3) by simp
  ultimately show ?thesis using n
    by - (rule exI [of _ "(ActiveConn pc True, s\<lparr>ps_net := ?m1\<rparr>)"], rule exI [of _ "(ActiveConn pc True, s\<lparr>ps_net := ?n\<rparr>)"], rule exI [of _ ?n], intro conjI; assumption)
qed

text \<open>
  C38: \<open>IncrementCheckSet\<close> is meant to increment only if the value does not change between its \<open>GET\<close> and its \<open>SET\<close>.
  It does not: whatever other clients do to the key in between, it succeeds and overwrites their value.
  And the connection goes back to the pool still watching the key, because \<open>UNWATCH\<close> is sent with an
  argument, which the server refuses.
\<close>

theorem rs_IncrementCheckSet_unsafe:
  assumes "serving host pw clk sn exp d s" "st = mini_redis host pw exp d" "keys_of d s k = Some (show_int i)"
    and "\<forall>C m. mini_inv host pw clk sn d C m \<longrightarrow> mini_inv host pw clk sn d C (g m) \<and> m_peers (g m) = m_peers m"
  shows "let (r, s1) = rs_IncrementCheckSet (interfering g) st now k delta s in serving host pw clk sn exp d s1
    \<and> r = Ret (i + delta, None) \<and> keys_of d s1 k = Some (show_int (i + delta))
    \<and> (\<exists>pc \<in> set (ps_idle s1). \<exists>ctx. m_peers (ps_net s1) (pc_c pc) = Some ctx \<and> watched ctx (d, k) \<noteq> None)"
proof -
  define f where "f = (\<lambda>cs. case conn_Do (interfering g) ''WATCH'' [k] cs of ((_, Some err), cs1) \<Rightarrow> (Ret (0, Some err), cs1)
    | ((_, None), cs1) \<Rightarrow> (case get_add_set (interfering g) k delta cs1 of (r, cs2) \<Rightarrow> (Ret r, snd (conn_Do (interfering g) ''UNWATCH'' [k] cs2))))"
  obtain pc s1 where s1: "keys_of d s1 = keys_of d s" "mini_inv host pw clk sn d (insert (pc_c pc) (conns (ps_idle s1))) (ps_net s1)"
    "pc_c pc \<notin> conns (ps_idle s1)"
    and step: "f (ActiveConn pc False, s1) = (r, (ActiveConn pc False, s1\<lparr>ps_net := n\<rparr>)) \<Longrightarrow>
      mini_inv host pw clk sn d (insert (pc_c pc) (conns (ps_idle s1))) n \<Longrightarrow>
      \<exists>s'. with_conn mini_net st now f s = (r, s') \<and> s' = conn_Close mini_net (rs_pool st) now (ActiveConn pc False, s1\<lparr>ps_net := n\<rparr>)
        \<and> serving host pw clk sn exp d s' \<and> keys_of d s' = db_val (m_dbs n d)" for r n
    using mini_store.with_conn_step [OF assms(1) [unfolded serving_quiet] refl, of f now] unfolding assms(2) keys_of_def serving_quiet by metis
  obtain n where n: "f (ActiveConn pc False, s1) = (Ret (i + delta, None), (ActiveConn pc False, s1\<lparr>ps_net := n\<rparr>))"
    "mini_inv host pw clk sn d (insert (pc_c pc) (conns (ps_idle s1))) n" "db_val (m_dbs n d) k = Some (show_int (i + delta))"
    "\<exists>ctx. m_peers n (pc_c pc) = Some ctx \<and> watched ctx (d, k) \<noteq> None"
    using checkset_session [OF s1(2) insertI1 _ assms(4), of k i delta] s1(1) assms(3) by (auto simp: f_def)
  from step [OF n(1,2)] obtain s' where s': "with_conn mini_net st now f s = (Ret (i + delta, None), s')"
    "s' = conn_Close mini_net (rs_pool st) now (ActiveConn pc False, s1\<lparr>ps_net := n\<rparr>)" "serving host pw clk sn exp d s'" "keys_of d s' = db_val (m_dbs n d)" by blast
  have "s' = pool_put mini_net (rs_pool st) now pc False (s1\<lparr>ps_net := n\<rparr>)"
    using mini.do_nothing [OF n(2) insertI1] mini.not_broken [OF n(2) insertI1] by (simp add: s'(2) conn_Close_def Let_def)
  moreover have "p_MaxIdle (rs_pool st) > 0" by (simp add: assms(2) NewRedisCache_def Let_def)
  ultimately have "\<exists>p \<in> set (ps_idle s'). \<exists>ctx. m_peers (ps_net s') (pc_c p) = Some ctx \<and> watched ctx (d, k) \<noteq> None"
    using put_idle [of "rs_pool st" pc "s1\<lparr>ps_net := n\<rparr>" "\<lambda>x. \<exists>ctx. x = Some ctx \<and> watched ctx (d, k) \<noteq> None" now] s1(3) n(4) by simp
  then show ?thesis using s'(1,3,4) n(3) by (simp add: rs_IncrementCheckSet_def f_def [symmetric] interfering_conn)
qed

text \<open>With nobody else at work it adds, and takes the time to live away, or reports a miss.\<close>

lemma interfering_none: "interfering (\<lambda>m. m) = mini_net"
  by (simp add: interfering_def mini_net_def fun_eq_iff case_prod_beta)

lemma mini_CheckSet:
  assumes "serving host pw clk sn exp d s" "st = mini_redis host pw exp d" "keys_of d s k = Some (show_int i)"
  shows "\<exists>s1. rs_IncrementCheckSet mini_net st now k delta s = (Ret (i + delta, None), s1) \<and> serving host pw clk sn exp d s1
    \<and> keys_of d s1 = (keys_of d s)(k \<mapsto> show_int (i + delta)) \<and> ttls_of d s1 = (ttls_of d s)(k := None)"
  unfolding rs_IncrementCheckSet_def serving_quiet keys_of_def ttls_of_def assms(2)
proof (rule mini_store.with_conn_rule [OF assms(1) [unfolded serving_quiet] refl], goal_cases)
  case (1 pc s1 C)
  have "keys_of d s1 k = Some (show_int i)" using 1(3) assms(3) by (simp add: keys_of_def)
  from checkset_session [OF 1(1,2) this, of "\<lambda>m. m" delta] show ?case using 1(3,4) unfolding interfering_none by fastforce
qed

lemma mini_CheckSet_miss:
  assumes "serving host pw clk sn exp d s" "st = mini_redis host pw exp d" "keys_of d s k = None"
  shows "\<exists>s1. rs_IncrementCheckSet mini_net st now k delta s = (Ret (0, Some ErrCacheMiss), s1) \<and> serving host pw clk sn exp d s1
    \<and> keys_of d s1 = keys_of d s \<and> ttls_of d s1 = ttls_of d s"
  unfolding rs_IncrementCheckSet_def serving_quiet keys_of_def ttls_of_def assms(2)
proof (rule mini_store.with_conn_rule [OF assms(1) [unfolded serving_quiet] refl], goal_cases)
  case (1 pc s1 C)
  obtain ctx where ctx: "m_peers (ps_net s1) (pc_c pc) = Some ctx" "selectedDB ctx = d" "m_password (ps_net s1) = [] \<or> authenticated ctx"
    using 1(1,2) by (auto simp: mini_inv_def peer_def)
  let ?ctx = "ctx\<lparr>watched := (watched ctx)((d, k) \<mapsto> db_version (m_dbs (ps_net s1) d) k)\<rparr>"
  let ?m = "(ps_net s1)\<lparr>m_peers := (m_peers (ps_net s1))(pc_c pc \<mapsto> ?ctx)\<rparr>"
  have m: "mini_inv host pw clk sn d C ?m" using 1(1) ctx by (auto simp: mini_inv_def peer_def)
  have w: "conn_Do mini_net ''WATCH'' [k] (ActiveConn pc False, s1) = ((OK, None), (ActiveConn pc True, s1\<lparr>ps_net := ?m\<rparr>))"
    using watch_commands(1) [OF ctx(1,3), of k] ctx(2) by (simp add: conn_Do_def mini_net_def watch_state_def)
  have g: "get_add_set mini_net k delta (ActiveConn pc True, s1\<lparr>ps_net := ?m\<rparr>) = ((0, Some ErrCacheMiss), (ActiveConn pc True, s1\<lparr>ps_net := ?m\<rparr>))"
    using mini.session_miss [of host pw clk sn d C "s1\<lparr>ps_net := ?m\<rparr>" pc k delta True] m 1(2,3) assms(3) by (simp add: keys_of_def)
  have u: "snd (conn_Do mini_net ''UNWATCH'' [k] (ActiveConn pc True, s1\<lparr>ps_net := ?m\<rparr>)) = (ActiveConn pc False, s1\<lparr>ps_net := ?m\<rparr>)"
    using watch_commands(2) [of ?m "pc_c pc" ?ctx k] ctx(3) by (simp add: conn_Do_def mini_net_def watch_state_def case_prod_beta)
  show ?case using m 1(3,4) by (intro exI [of _ ?m]) (simp add: w g u)
qed

section \<open>A server for the examples\<close>

definition demo_server :: "(string \<rightharpoonup> string) \<Rightarrow> (string \<rightharpoonup> duration) \<Rightarrow> Miniredis pooled" where
  "demo_server vals ttls = new_pool \<lparr>m_dbs = (\<lambda>_. \<lparr>db_val = vals, db_ttl = ttls, db_version = (\<lambda>_. 0)\<rparr>), m_password = [], m_peers = Map.empty,
     m_next = 0, m_addr = ''localhost:6379'', m_sentinel = None, m_now = time_Unix 1000\<rparr>"

lemma demo_serving: "dom ttls \<subseteq> dom vals \<Longrightarrow> serving ''localhost:6379'' [] (time_Unix 1000) None exp d (demo_server vals ttls)"
  "keys_of d (demo_server vals ttls) = vals" "ttls_of d (demo_server vals ttls) = ttls"
  by (simp_all add: demo_server_def serving_def mini_inv_def db_wf_def new_pool_def keys_of_def ttls_of_def pool_inv_def tokens_def NewRedisCache_def waits_def Let_def)

abbreviation no_gob_enc :: "godata \<Rightarrow> error + bytes" where "no_gob_enc \<equiv> \<lambda>_. Inl (ErrExt ''gob'')"
abbreviation no_gob_dec :: "bytes \<Rightarrow> gotype \<Rightarrow> error + godata" where "no_gob_dec \<equiv> \<lambda>_ _. Inl (ErrExt ''gob'')"
abbreviation demo_store :: "Miniredis RedisStore" where "demo_store \<equiv> mini_redis ''localhost:6379'' [] (60 * time_Second) 2"

lemma demo_ttl: "ttl_of demo_store (5 * time_Second) = Some (Some (5 * time_Second))"
  "ttl_of demo_store FOREVER = Some None"
  by (simp_all add: ttl_of_def effective_def secs32_def DEFAULT_def FOREVER_def time_Second_def go_div_def word_sless_alt Let_def)

theorem rs_Set_Get_witness:
  "let (r, s1) = rs_Set mini_net no_gob_enc demo_store (time_Unix 1000) ''k'' (VInt 7) (5 * time_Second) (demo_server Map.empty Map.empty);
       (g, s3) = rs_Get mini_net no_gob_dec demo_store (time_Unix 1000) ''k'' (TPtr TInt) (s1\<lparr>ps_net := FastForward (3 * time_Second) (ps_net s1)\<rparr>)
   in r = Ret None \<and> g = Ret (None, Some (VInt 7))"
  using rs_Set_Get [OF demo_serving(1) _ demo_ttl(1), of Map.empty Map.empty no_gob_enc no_gob_dec "VInt 7" "3 * time_Second" "time_Unix 1000" "''k''" "time_Unix 1000"]
  by (simp add: storable_def time_Second_def case_prod_beta Let_def)


theorem rs_counters_witness:
  "let (r, s1) = rs_Increment mini_net demo_store (time_Unix 1000) ''n'' 50 (demo_server [''n'' \<mapsto> show_int 10] [''n'' \<mapsto> 5 * time_Second])
   in r = Ret (60, None) \<and> ttls_of 2 s1 ''n'' = None"
  using rs_counters [OF demo_serving(1) [of "[''n'' \<mapsto> 5 * time_Second]" "[''n'' \<mapsto> show_int 10]"] refl, where exp = "60 * time_Second" and d = 2 and k = "''n''" and i = 10 and now = "time_Unix 1000" and delta = 50]
  by (simp add: demo_serving case_prod_beta Let_def)


theorem rs_expiry_methods_witness:
  "let (r, s1) = rs_ExpireAt mini_net demo_store (time_Unix 1000) ''n'' 2000 (demo_server Map.empty Map.empty) in r = Ret None \<and> keys_of 2 s1 = Map.empty"
  using rs_expiry_methods [OF demo_serving(1) refl _ refl, of Map.empty Map.empty 2000 "60 * time_Second" 2 "time_Unix 1000" "''n''"]
  by (simp add: demo_serving case_prod_beta Let_def)

theorem rs_no_connection_witness:
  "fst (rs_Get mini_net no_gob_dec (mini_redis ''elsewhere'' [] (60 * time_Second) 2) (time_Unix 1000) ''n'' (TPtr TInt) (demo_server Map.empty Map.empty))
   = Ret (Some ErrCacheMiss, None)"
proof -
  have "pool_get mini_net (rs_pool (mini_redis ''elsewhere'' [] (60 * time_Second) 2)) (time_Unix 1000) (demo_server Map.empty Map.empty)
      = (Some (Inl (ErrExt ''connect: connection refused'')), demo_server Map.empty Map.empty)"
    by (simp add: pool_get_def demo_server_def new_pool_def NewRedisCache_def waits_def dial_new_def started_def mini_net_def mini_Dial_def Let_def)
  from rs_no_connection [OF this, of no_gob_dec "''n''" "TPtr TInt"] show ?thesis by simp
qed

theorem rs_IncrementCheckSet_unsafe_witness:
  "let other = (\<lambda>m. set_db 2 (db_set ''n'' ''1000'' None (m_dbs m 2)) m);
       (r, s1) = rs_IncrementCheckSet (interfering other) demo_store (time_Unix 1000) ''n'' 50 (demo_server [''n'' \<mapsto> show_int 10] Map.empty)
   in r = Ret (60, None) \<and> keys_of 2 s1 ''n'' = Some (show_int 60)"
proof -
  let ?g = "\<lambda>m. set_db 2 (db_set ''n'' ''1000'' None (m_dbs m 2)) m"
  have "\<forall>C m. mini_inv ''localhost:6379'' [] (time_Unix 1000) None 2 C m \<longrightarrow> mini_inv ''localhost:6379'' [] (time_Unix 1000) None 2 C (?g m) \<and> m_peers (?g m) = m_peers m"
    by (auto intro: mini_inv_set_db db_set_simps(3) mini_inv_peer(2))
  from rs_IncrementCheckSet_unsafe [OF demo_serving(1) [of Map.empty "[''n'' \<mapsto> show_int 10]"] refl _ this, where exp = "60 * time_Second" and k = "''n''" and i = 10 and now = "time_Unix 1000" and delta = 50]
  show ?thesis by (simp add: demo_serving case_prod_beta Let_def)
qed

text \<open>A pool of the store with one connection borrowed.\<close>

theorem pool_reachable_safe_witness:
  "\<exists>out s. length out = 1 \<and> pool_reachable mini_net (rs_pool demo_store) out s \<and> ps_active s = int (length (ps_idle s)) + 1"
proof -
  let ?s = "demo_server Map.empty Map.empty"
  have "serving ''localhost:6379'' [] (time_Unix 1000) None (60 * time_Second) 2 ?s" by (rule demo_serving) simp
  then obtain pc s1 where "pool_get mini_net (rs_pool demo_store) (time_Unix 1000) ?s = (Some (Inr pc), s1)"
    using mini_store.borrowed [folded serving_quiet] by blast
  moreover have "pool_reachable mini_net (rs_pool demo_store) [] ?s" unfolding demo_server_def by (rule pool_reachable.start)
  ultimately have r: "pool_reachable mini_net (rs_pool demo_store) [pc] s1" by (rule pool_reachable.got [rotated])
  then show ?thesis using pool_reachable_safe [OF r] by (intro exI [of _ "[pc]"] exI [of _ s1]) simp
qed

end
