(* ===== verification/UrlParse.thy ===== *)
theory UrlParse
  imports GoValues
begin

text \<open>
  \<open>url.Parse\<close> of the standard library, as far as \<open>src/redispool.go\<close> uses it: whether the parse succeeds and
  the field \<open>Host\<close>. It follows \<open>net/url\<close>: the fragment is cut off, then the scheme, the query, the authority
  (user information and host) and the path; each part is checked for valid escapes.
\<close>

section \<open>Cutting strings\<close>

fun cut :: "char \<Rightarrow> string \<Rightarrow> (string \<times> string) option" where
  "cut c [] = None"
| "cut c (x # s) = (if x = c then Some ([], s) else map_option (\<lambda>(a, b). (x # a, b)) (cut c s))"

definition cut_last :: "char \<Rightarrow> string \<Rightarrow> (string \<times> string) option" where
  "cut_last c s = map_option (\<lambda>(a, b). (rev b, rev a)) (cut c (rev s))"

definition until :: "char \<Rightarrow> string \<Rightarrow> string" where
  "until c s = (case cut c s of Some (a, b) \<Rightarrow> a | None \<Rightarrow> s)"

definition is_letter :: "char \<Rightarrow> bool" where
  "is_letter c \<longleftrightarrow> (let n = of_char c :: nat in 65 \<le> n \<and> n \<le> 90 \<or> 97 \<le> n \<and> n \<le> 122)"

definition is_digit :: "char \<Rightarrow> bool" where
  "is_digit c \<longleftrightarrow> (let n = of_char c :: nat in 48 \<le> n \<and> n \<le> 57)"

definition is_hex :: "char \<Rightarrow> bool" where
  "is_hex c \<longleftrightarrow> is_digit c \<or> c \<in> set ''abcdefABCDEF''"

section \<open>Escapes\<close>

text \<open>Bytes that a host may not hold unescaped.\<close>

definition escape_in_host :: "char \<Rightarrow> bool" where
  "escape_in_host c \<longleftrightarrow> \<not> (is_letter c \<or> is_digit c \<or> c \<in> set ''-_.~!$&()*+,;=:[]<>'' \<or> c = CHR 0x27 \<or> c = CHR 0x22)"

definition EscapeError :: "string \<Rightarrow> error" where
  "EscapeError s = ErrExt (''invalid URL escape '' @ (CHR 0x22 # take 3 s) @ [CHR 0x22])"

definition InvalidHostError :: "char \<Rightarrow> error" where
  "InvalidHostError c = ErrExt (''invalid character '' @ [CHR 0x22, c, CHR 0x22] @ '' in host name'')"

definition hexval :: "char \<Rightarrow> nat" where
  "hexval c = (let n = of_char c :: nat in if n \<le> 57 then n - 48 else if n \<le> 70 then n - 55 else n - 87)"

datatype encoding = InHost | InZone | Elsewhere

fun unescape :: "encoding \<Rightarrow> string \<Rightarrow> error + string" where
  "unescape mode [] = Inr []"
| "unescape mode (c # s) =
     (if c = CHR ''%'' then
        (case s of
           a # b # t \<Rightarrow>
             (let x = char_of (16 * hexval a + hexval b) in
              if \<not> (is_hex a \<and> is_hex b) then Inl (EscapeError (c # s))
              else if mode = InHost \<and> hexval a < 8 \<and> \<not> (a = CHR ''2'' \<and> b = CHR ''5'') then Inl (EscapeError (c # s))
              else if mode = InZone \<and> \<not> (a = CHR ''2'' \<and> b = CHR ''5'') \<and> x \<noteq> CHR '' '' \<and> escape_in_host x then Inl (EscapeError (c # s))
              else map_sum id (Cons x) (unescape mode t))
         | _ \<Rightarrow> Inl (EscapeError (c # s)))
      else if mode \<noteq> Elsewhere \<and> (of_char c :: nat) < 128 \<and> escape_in_host c then Inl (InvalidHostError c)
      else map_sum id (Cons c) (unescape mode s))"

section \<open>Parsing\<close>

fun scheme_loop :: "string \<Rightarrow> string \<Rightarrow> string \<Rightarrow> error + string \<times> string" where
  "scheme_loop raw pre [] = Inr ([], raw)"
| "scheme_loop raw pre (c # s) =
     (if is_letter c \<or> (is_digit c \<or> c \<in> set ''+-.'') \<and> pre \<noteq> [] then scheme_loop raw (pre @ [c]) s
      else if c = CHR '':'' then (if pre = [] then Inl (ErrExt ''missing protocol scheme'') else Inr (pre, s))
      else Inr ([], raw))"

definition validOptionalPort :: "string \<Rightarrow> bool" where
  "validOptionalPort port \<longleftrightarrow> port = [] \<or> hd port = CHR '':'' \<and> list_all is_digit (tl port)"

definition invalid_port :: "string \<Rightarrow> error" where
  "invalid_port port = ErrExt (''invalid port '' @ (CHR 0x22 # port @ [CHR 0x22]) @ '' after host'')"

text \<open>The zone of an address in brackets starts with an escaped percent sign.\<close>

fun cut_zone :: "string \<Rightarrow> (string \<times> string) option" where
  "cut_zone [] = None"
| "cut_zone (c # s) = (if take 3 (c # s) = ''%25'' then Some ([], c # s) else map_option (\<lambda>(a, b). (c # a, b)) (cut_zone s))"

definition both :: "error + string \<Rightarrow> error + string \<Rightarrow> error + string" where
  "both x y = (case x of Inl e \<Rightarrow> Inl e | Inr a \<Rightarrow> map_sum id ((@) a) y)"

definition parseHost :: "string \<Rightarrow> error + string" where
  "parseHost host =
     (if host \<noteq> [] \<and> hd host = CHR ''['' then
        (case cut_last (CHR '']'') host of
           None \<Rightarrow> Inl (ErrExt ''missing ']' in host'')
         | Some (a, colonPort) \<Rightarrow>
             if \<not> validOptionalPort colonPort then Inl (invalid_port colonPort)
             else (case cut_zone a of
                     Some (h, zone) \<Rightarrow> both (unescape InHost h) (both (unescape InZone zone) (unescape InHost (CHR '']'' # colonPort)))
                   | None \<Rightarrow> unescape InHost host))
      else (case cut_last (CHR '':'') host of
              Some (a, port) \<Rightarrow> if validOptionalPort (CHR '':'' # port) then unescape InHost host else Inl (invalid_port (CHR '':'' # port))
            | None \<Rightarrow> unescape InHost host))"

definition validUserinfo :: "string \<Rightarrow> bool" where
  "validUserinfo s \<longleftrightarrow> list_all (\<lambda>c. is_letter c \<or> is_digit c \<or> c \<in> set ''-._:~!$&()*+,;=%@'' \<or> c = CHR 0x27) s"

definition parseAuthority :: "string \<Rightarrow> error + string" where
  "parseAuthority authority =
     (case cut_last (CHR ''@'') authority of
        None \<Rightarrow> parseHost authority
      | Some (userinfo, h) \<Rightarrow>
          (case parseHost h of
             Inl e \<Rightarrow> Inl e
           | Inr host \<Rightarrow>
               if \<not> validUserinfo userinfo then Inl (ErrExt ''net/url: invalid userinfo'')
               else (case unescape Elsewhere userinfo of Inl e \<Rightarrow> Inl e | Inr _ \<Rightarrow> Inr host)))"

definition parse_rest :: "string \<Rightarrow> string \<Rightarrow> error + string" where
  "parse_rest scheme rest =
     (if take 1 rest \<noteq> ''/'' \<and> scheme \<noteq> [] then Inr []
      else if take 1 rest \<noteq> ''/'' \<and> CHR '':'' \<in> set (until (CHR ''/'') rest) then Inl (ErrExt ''first path segment in URL cannot contain colon'')
      else if take 2 rest = ''//'' \<and> (scheme \<noteq> [] \<or> take 3 rest \<noteq> ''///'') then
        (let authority = until (CHR ''/'') (drop 2 rest); path = drop (2 + length authority) rest in
         case parseAuthority authority of
           Inl e \<Rightarrow> Inl e
         | Inr host \<Rightarrow> (case unescape Elsewhere path of Inl e \<Rightarrow> Inl e | Inr _ \<Rightarrow> Inr host))
      else (case unescape Elsewhere rest of Inl e \<Rightarrow> Inl e | Inr _ \<Rightarrow> Inr []))"

definition url_parse :: "string \<Rightarrow> error + string" where
  "url_parse raw =
     (if list_ex (\<lambda>c. (of_char c :: nat) < 32 \<or> (of_char c :: nat) = 127) raw then Inl (ErrExt ''net/url: invalid control character in URL'')
      else if raw = ''*'' then Inr []
      else case scheme_loop raw [] raw of
        Inl e \<Rightarrow> Inl e
      | Inr (scheme, rest) \<Rightarrow> parse_rest scheme (until (CHR ''?'') rest))"

text \<open>\<open>url.Parse\<close>: the host, or an error that names the URL without its fragment.\<close>

definition url_Parse :: "string \<Rightarrow> error + string" where
  "url_Parse rawurl =
     (let u = until (CHR ''#'') rawurl; frag = drop (length u + 1) rawurl; wrap = (\<lambda>url e. ErrExt (''parse '' @ url @ '': '' @ Error e)) in
      case url_parse u of
        Inl e \<Rightarrow> Inl (wrap u e)
      | Inr host \<Rightarrow> (case unescape Elsewhere frag of Inl e \<Rightarrow> Inl (wrap rawurl e) | Inr _ \<Rightarrow> Inr host))"

section \<open>Examples\<close>

lemma url_examples:
  "url_Parse ''redis://localhost:6379'' = Inr ''localhost:6379''"
  "url_Parse ''redis://user:pw@db.example.com:26379/0?x=1#f'' = Inr ''db.example.com:26379''"
  "url_Parse ''localhost:26379'' = Inr []"
  "url_Parse ''redis://[fe80::1%25en0]:6379'' = Inr ''[fe80::1%en0]:6379''"
  "url_Parse ''redis://host:port'' = Inl (ErrExt (''parse redis://host:port: invalid port '' @ (CHR 0x22 # '':port'' @ [CHR 0x22]) @ '' after host''))"
  by code_simp+

end
