(* ===== verification/RedisPool.thy ===== *)
theory RedisPool
  imports GenericCache RedisStore UrlParse
begin

text \<open>
  Setting up Redis caches, \<open>src/redispool.go\<close>: pools over sentinels or over one server, the choice of the
  address from arguments and the environment, and the test of the new cache.

  The network is the parameter \<open>net\<close>, the environment \<open>env\<close>. The Kubernetes client is a parameter too:
  \<open>k8s\<close> is the error of \<open>k8s.NewInClusterClient\<close>, if any. A function that makes a cache returns it as an
  interface value together with the state of its pool, which is new, and the log (less the
  debug lines of dialling). \<open>now\<close> is the clock.
\<close>

type_synonym rlog = "(string \<times> logtext) list"

definition log_info :: "string \<Rightarrow> logarg list \<Rightarrow> rlog \<Rightarrow> rlog" where
  "log_info f as lg = lg @ [(''info'', Fmt f as)]"

definition log_error :: "string \<Rightarrow> logarg list \<Rightarrow> rlog \<Rightarrow> rlog" where
  "log_error f as lg = lg @ [(''error'', Fmt f as)]"

definition log_err :: "error \<Rightarrow> rlog \<Rightarrow> rlog" where
  "log_err err lg = lg @ [(''error'', Text (Error err))]"

definition log_debug :: "string \<Rightarrow> logarg list \<Rightarrow> rlog \<Rightarrow> rlog" where
  "log_debug f as lg = lg @ [(''debug'', Fmt f as)]"

section \<open>Pools\<close>

definition network :: string where "network = ''tcp''"
definition defConnectionTimeoutMilliseconds :: int64 where "defConnectionTimeoutMilliseconds = 500"
definition defReadWriteTimeoutMilliseconds :: int64 where "defReadWriteTimeoutMilliseconds = 50"

definition NewSentinelPool ::
  "'n Net \<Rightarrow> string list \<Rightarrow> bytes option \<Rightarrow> bytes option \<Rightarrow> int64 \<Rightarrow> int64 \<Rightarrow> int64 \<Rightarrow> 'n Pool" where
  "NewSentinelPool net sentinelAddrs masterIdentifier redisPassword connectionTimeoutMilliseconds readWriteTimeoutMilliseconds selectDatabase =
     (let masterName = string_of_bytes (case masterIdentifier of None \<Rightarrow> bytes_of_string ''mymaster'' | Some m \<Rightarrow> m);
          connTimeout = connectionTimeoutMilliseconds * time_Millisecond;
          readWriteTimeout = readWriteTimeoutMilliseconds * time_Millisecond
      in \<lparr>p_Dial = (\<lambda>n.
            case n_MasterAddr net sentinelAddrs masterName connTimeout readWriteTimeout n of
              (Inl errHostAddr, n1) \<Rightarrow> (Inl errHostAddr, n1)
            | (Inr redisHostAddr, n1) \<Rightarrow> started net
                ((case redisPassword of Some p \<Rightarrow> [(''AUTH'', [string_of_bytes p])] | None \<Rightarrow> [])
                 @ (if selectDatabase \<noteq> 0 then [(''SELECT'', [show_int selectDatabase])] else []))
                (n_Dial net network redisHostAddr connTimeout readWriteTimeout readWriteTimeout n1)),
          p_TestOnBorrow = (\<lambda>now c t n.
            if time_Sub now t <s time_Minute then (None, n)
            else (case n_TestRole net c ''master'' n of
                    (ok, n1) \<Rightarrow> (if \<not> ok then Some (ErrExt ''Role check failed'') else None, n1))),
          p_MaxIdle = 3, p_MaxActive = 64, p_IdleTimeout = 240 * time_Second, p_Wait = True\<rparr>)"

definition Getenv :: "(string \<rightharpoonup> string) \<Rightarrow> string \<Rightarrow> string" where
  "Getenv env name = (case env name of Some v \<Rightarrow> v | None \<Rightarrow> [])"

definition inCluster :: "(string \<rightharpoonup> string) \<Rightarrow> error option \<Rightarrow> rlog \<Rightarrow> bool \<times> rlog" where
  "inCluster env k8s lg =
     (let lg1 = log_info ''inCluster: env == %s'' [LStr (Getenv env ''MY_POD_NAMESPACE'')] lg in
      case k8s of
        Some err \<Rightarrow> (False, log_info ''inCluster: false'' [] lg1)
      | None \<Rightarrow> (True, log_info ''inCluster: true'' [] lg1))"

section \<open>Caches\<close>

text \<open>A \<open>*RedisStore\<close> as the dynamic value of an \<open>interface{}\<close>.\<close>

definition redis_iface ::
  "'n Net \<Rightarrow> (godata \<Rightarrow> error + bytes) \<Rightarrow> (bytes \<Rightarrow> gotype \<Rightarrow> error + godata) \<Rightarrow> 'n RedisStore \<Rightarrow> 'n pooled iface" where
  "redis_iface net enc dec st = RedisIface (redis_ops net enc dec st)
     \<lparr>r_ExpireAt = rs_ExpireAt net st, r_GetExpiresIn = rs_GetExpiresIn net st,
      r_IncrementAtomic = rs_IncrementAtomic net st, r_IncrementCheckSet = rs_IncrementCheckSet net st\<rparr>"

definition testCache ::
  "'n pooled iface \<Rightarrow> Time \<Rightarrow> string \<Rightarrow> string \<Rightarrow> duration \<Rightarrow> 'n pooled \<Rightarrow> (string \<times> error option) outcome \<times> 'n pooled" where
  "testCache c now k v exp s =
     (case as_store c of
        None \<Rightarrow> (Panic ''interface conversion'', s)
      | Some st \<Rightarrow>
          (case m_Set st now k (VString v) exp s of
             (Panic p, s1) \<Rightarrow> (Panic p, s1)
           | (Ret (Some err), s1) \<Rightarrow> (Ret ([], Some err), s1)
           | (Ret None, s1) \<Rightarrow>
               (case m_Get st now k (TPtr TString) s1 of
                  (Panic p, s2) \<Rightarrow> (Panic p, s2)
                | (Ret (Some err, _), s2) \<Rightarrow> (Ret ([], Some err), s2)
                | (Ret (None, out), s2) \<Rightarrow> (Ret (case out of Some (VString tValue) \<Rightarrow> tValue | _ \<Rightarrow> [], None), s2))))"

record RedisConnectionInfo =
  MasterIdentifier :: string
  Password :: string
  SentinelURL :: string
  RedisURL :: string
  UseSentinel :: bool
  DefaultExpSeconds :: int64
  ConnectionTimeoutMilliseconds :: int64
  ReadWriteTimeoutMilliseconds :: int64
  SelectDatabase :: int64

type_synonym 'n made = "('n pooled iface option \<times> error option) outcome \<times> 'n pooled \<times> rlog"

text \<open>
  The test of a new cache: with the sentinel a first key is set; a failure there gives no cache. A
  failure of the write and read gives no cache without the sentinel, and the cache all the same with it.
\<close>

definition tested :: "string \<Rightarrow> bool \<Rightarrow> 'n pooled iface \<Rightarrow> Time \<Rightarrow> duration \<Rightarrow> 'n pooled \<Rightarrow> rlog \<Rightarrow> 'n made" where
  "tested fn keep cache now storeExp s lg =
     (case testCache cache now ''testing'' ''1,2,3..'' storeExp s of
        (Panic p, s1) \<Rightarrow> (Panic p, s1, lg)
      | (Ret (v, Some err), s1) \<Rightarrow>
          (Ret (if keep then Some cache else None, Some err), s1, log_error (fn @ '': cache test failed: %s'') [LStr (Error err)] lg)
      | (Ret (v, None), s1) \<Rightarrow> (Ret (Some cache, None), s1, log_info (fn @ '': cache test success: %s'') [LStr v] lg))"

definition tested_sentinel :: "string \<Rightarrow> 'n pooled iface \<Rightarrow> Time \<Rightarrow> duration \<Rightarrow> 'n pooled \<Rightarrow> rlog \<Rightarrow> 'n made" where
  "tested_sentinel fn cache now storeExp s lg =
     (case as_store cache of
        None \<Rightarrow> (Panic ''interface conversion'', s, lg)
      | Some st \<Rightarrow>
          (case m_Set st now ''test'' (VString ''this'') storeExp s of
             (Panic p, s1) \<Rightarrow> (Panic p, s1, lg)
           | (Ret (Some err), s1) \<Rightarrow> (Ret (None, Some err), s1, log_error (fn @ '': cache test failed: %s'') [LStr (Error err)] lg)
           | (Ret None, s1) \<Rightarrow> tested fn True cache now storeExp s1 lg))"

text \<open>The host of a configured URL: an error if it does not parse, or if it has no host.\<close>

definition host_of :: "(string \<Rightarrow> string \<Rightarrow> error) \<Rightarrow> (string \<Rightarrow> error) \<Rightarrow> string \<Rightarrow> error + string" where
  "host_of unparsed hostless url =
     (case url_Parse url of
        Inl err \<Rightarrow> Inl (unparsed url (Error err))
      | Inr host \<Rightarrow> if length host = 0 then Inl (hostless url) else Inr host)"

definition ci_master :: "RedisConnectionInfo \<Rightarrow> rlog \<Rightarrow> RedisConnectionInfo \<times> rlog" where
  "ci_master connInfo lg =
     (let (ci, lg1) = (if length (MasterIdentifier connInfo) = 0
            then (connInfo\<lparr>MasterIdentifier := ''mymaster''\<rparr>, log_info ''RedisConnectionInfo.New: master identifier is not defined, using mymaster'' [] lg)
            else (connInfo, lg))
      in (ci, log_info ''RedisConnectionInfo.New: masterIdentifier: %s'' [LStr (MasterIdentifier ci)] lg1))"

definition ci_password :: "RedisConnectionInfo \<Rightarrow> rlog \<Rightarrow> bytes option \<times> rlog" where
  "ci_password ci lg =
     (if length (Password ci) = 0
      then (None, log_info ''RedisConnectionInfo.New: redis password is not defined, so no authentication used to validate connection to REDIS'' [] lg)
      else (Some (bytes_of_string (Password ci)),
            log_info ''RedisConnectionInfo.New: redisPassword len: %v'' [LInt (of_nat (length (Password ci)))] lg))"

definition ci_sentinel :: "RedisConnectionInfo \<Rightarrow> rlog \<Rightarrow> (error + string) \<times> rlog" where
  "ci_sentinel ci lg =
     (if length (SentinelURL ci) \<noteq> 0 then
        (let lg1 = log_info ''RedisConnectionInfo.New: sentinel URL %s'' [LStr (SentinelURL ci)] lg;
             unparsed = (\<lambda>u e. Errorf ''RedisConnectionInfo.New: Unable to parse sentinel URL %s - %s'' [u, e]);
             hostless = (\<lambda>u. Errorf ''InitRedisReadOnlyPool: Unable to parse sentinel URL %s - url.Host is empty after parsing format should be: redis://<host-name>:6379'' [u])
         in case url_Parse (SentinelURL ci) of
              Inl err \<Rightarrow> (let e = unparsed (SentinelURL ci) (Error err) in (Inl e, log_err e lg1))
            | Inr host \<Rightarrow>
                if length host = 0 then
                  (let e = hostless (SentinelURL ci)
                   in (Inl e, log_error ''InitReadOnlyRedisCache: Can't initialize cache'' [] (log_err e lg1)))
                else (Inr host, lg1))
      else (Inr ''localhost:26379'', lg))"

definition ci_store :: "(string \<rightharpoonup> string) \<Rightarrow> error option \<Rightarrow> RedisConnectionInfo \<Rightarrow> rlog \<Rightarrow> (error + string) \<times> rlog" where
  "ci_store env k8s ci lg =
     (let r = (if length (RedisURL ci) \<noteq> 0
               then host_of (\<lambda>u e. Errorf ''RedisConnectionInfo.New: Unable to parse redis URL %s - %s'' [u, e])
                 (\<lambda>u. Errorf ''InitRedisReadOnlyPool: Unable to parse redis URL %s - url.Host is empty after parsing format should be: redis://<host-name>:6379'' [u])
                 (RedisURL ci)
               else Inr ''redis:6379'')
      in case r of
           Inl e \<Rightarrow> (Inl e, log_error (case url_Parse (RedisURL ci) of Inl _ \<Rightarrow> ''RedisConnectionInfo.New: Can't initialize cache''
                                      | Inr _ \<Rightarrow> ''InitReadOnlyRedisCache: Can't initialize cache'') [] (log_err e lg))
         | Inr storeDNS \<Rightarrow>
             (let (inside, lg1) = inCluster env k8s lg; dns = (if \<not> inside then ''localhost:6379'' else storeDNS)
              in (Inr dns, log_info ''RedisConnectionInfo.New: using cache at: %s'' [LStr dns] lg1)))"

definition ci_New ::
  "'n Net \<Rightarrow> (godata \<Rightarrow> error + bytes) \<Rightarrow> (bytes \<Rightarrow> gotype \<Rightarrow> error + godata) \<Rightarrow> (string \<rightharpoonup> string) \<Rightarrow> error option \<Rightarrow> Time \<Rightarrow>
   bool \<Rightarrow> RedisConnectionInfo \<Rightarrow> 'n \<Rightarrow> rlog \<Rightarrow> 'n made \<times> RedisConnectionInfo" where
  "ci_New net enc dec env k8s now testWriteRead connInfo n lg =
     (let (ci, lg1) = ci_master connInfo lg;
          (redisPassword, lg2) = ci_password ci lg1;
          (sentinelHost, lg3) = ci_sentinel ci lg2
      in case sentinelHost of
           Inl err \<Rightarrow> ((Ret (None, Some err), new_pool n, lg3), ci)
         | Inr host \<Rightarrow>
             (let lg4 = log_info ''RedisConnectionInfo.New: using sentinel host %s'' [LStr host] lg3;
                  storeExp = DefaultExpSeconds ci * time_Second;
                  lg5 = log_info ''RedisConnectionInfo.New: using default cache expiration: %s'' [LDur storeExp] lg4
              in if \<not> UseSentinel ci then
                   (case ci_store env k8s ci (log_debug ''RedisConnectionInfo.New: setting up redis without sentinel'' [] lg5) of
                      (Inl err, lg6) \<Rightarrow> ((Ret (None, Some err), new_pool n, lg6), ci)
                    | (Inr storeDNS, lg6) \<Rightarrow>
                        (let cache = redis_iface net enc dec (NewRedisCache net storeDNS (Password ci) storeExp None)
                         in (if testWriteRead then tested ''RedisConnectionInfo.New'' False cache now storeExp (new_pool n) lg6
                             else (Ret (Some cache, None), new_pool n, lg6), ci)))
                 else
                   (let sntlPool = NewSentinelPool net [host] (Some (bytes_of_string (MasterIdentifier ci))) redisPassword
                          (ConnectionTimeoutMilliseconds ci) (ReadWriteTimeoutMilliseconds ci) (SelectDatabase ci);
                        cache = redis_iface net enc dec (NewRedisCacheWithPool sntlPool storeExp)
                    in (if testWriteRead then tested_sentinel ''RedisConnectionInfo.New'' cache now storeExp (new_pool n) lg5
                        else (Ret (Some cache, None), new_pool n, lg5), ci))))"

section \<open>From the environment\<close>

definition env_password :: "(string \<rightharpoonup> string) \<Rightarrow> bytes option \<Rightarrow> rlog \<Rightarrow> bytes option \<times> rlog" where
  "env_password env redisPassword lg =
     (let (p, lg1) = (case redisPassword of
            Some b \<Rightarrow> (Some b, lg)
          | None \<Rightarrow>
              if length (Getenv env ''REDIS_PASSWORD'') = 0
              then (None, log_info ''No authentication used to validate connection to REDIS'' [] (log_info ''Env REDIS_PASSWORD is not defined'' [] lg))
              else (Some (bytes_of_string (Getenv env ''REDIS_PASSWORD'')), log_info ''Env REDIS_PASSWORD is set'' [] lg))
      in (p, log_info ''redisPassword len: %v'' [LInt (of_nat (case p of Some b \<Rightarrow> length b | None \<Rightarrow> 0))] lg1))"

definition env_sentinel :: "(string \<rightharpoonup> string) \<Rightarrow> rlog \<Rightarrow> (error + string) \<times> rlog" where
  "env_sentinel env lg =
     (case env ''REDIS_SENTINEL_ADDRESS'' of
        Some redisHost \<Rightarrow>
          (let lg1 = log_info ''Env REDIS_SENTINEL_ADDRESS: %s'' [LStr redisHost] lg in
           case url_Parse redisHost of
             Inl err \<Rightarrow> (let e = Errorf ''initCache: Unable to parse URL REDIS_SENTINEL_ADDRESS - %s'' [Error err] in (Inl e, log_err e lg1))
           | Inr host \<Rightarrow> (Inr host, lg1))
      | None \<Rightarrow> (Inr ''localhost:26379'', log_info ''InitCache: environment variable REDIS_SENTINEL_ADDRESS is not defined'' [] lg))"

definition InitRedisCache ::
  "'n Net \<Rightarrow> (godata \<Rightarrow> error + bytes) \<Rightarrow> (bytes \<Rightarrow> gotype \<Rightarrow> error + godata) \<Rightarrow> (string \<rightharpoonup> string) \<Rightarrow> error option \<Rightarrow> Time \<Rightarrow>
   bool \<Rightarrow> int64 \<Rightarrow> bytes option \<Rightarrow> int64 \<Rightarrow> int64 \<Rightarrow> int64 \<Rightarrow> 'n \<Rightarrow> rlog \<Rightarrow> 'n made" where
  "InitRedisCache net enc dec env k8s now useSentinel defaultExpSeconds redisPassword0 connMs rwMs selectDatabase n lg =
     (let m = Getenv env ''REDIS_MASTER_IDENTIFIER'';
          (masterIdentifier, lg0) = (if length m = 0 then (''mymaster'', log_info ''Env REDIS_MASTER_IDENTIFIER is not defined, using mymaster'' [] lg) else (m, lg));
          lg1 = log_info ''masterIdentifier: %s'' [LStr masterIdentifier] lg0;
          (redisPassword, lg2) = env_password env redisPassword0 lg1;
          (sentinel, lg3) = env_sentinel env lg2
      in case sentinel of
           Inl err \<Rightarrow> (Ret (None, Some err), new_pool n, lg3)
         | Inr redisHost \<Rightarrow>
             (let lg4 = log_info ''InitCache: redisHost: %s'' [LStr redisHost] lg3;
                  storeExp = defaultExpSeconds * time_Second;
                  lg5 = log_info ''InitCache: using cache expiration: %s'' [LDur storeExp] lg4
              in if \<not> useSentinel then
                   (let (inside, lg6) = inCluster env k8s (log_debug ''InitCache: setting up redis without sentinel'' [] lg5);
                        storeDNS = (if \<not> inside then ''localhost:6379'' else ''redis:6379'');
                        lg7 = log_info ''InitCache: using cache at: %s'' [LStr storeDNS] lg6;
                        cache = redis_iface net enc dec
                          (NewRedisCache net storeDNS (case redisPassword of Some b \<Rightarrow> string_of_bytes b | None \<Rightarrow> []) storeExp (Some selectDatabase))
                    in tested ''initCache'' False cache now storeExp (new_pool n) lg7)
                 else
                   (let sntlPool = NewSentinelPool net [redisHost] (Some (bytes_of_string masterIdentifier)) redisPassword connMs rwMs selectDatabase;
                        cache = redis_iface net enc dec (NewRedisCacheWithPool sntlPool storeExp)
                    in tested_sentinel ''initCache'' cache now storeExp (new_pool n) lg5)))"

section \<open>Read-only caches\<close>

definition read_only_pool ::
  "'n Net \<Rightarrow> string \<Rightarrow> string \<Rightarrow> int64 \<Rightarrow> int64 \<Rightarrow> int64 \<Rightarrow> int64 \<Rightarrow> 'n Pool" where
  "read_only_pool net host cachePassword connMs0 rwMs0 maxConnections selectDatabase =
     (let connMs = (if sint connMs0 \<le> 0 then defConnectionTimeoutMilliseconds else connMs0);
          rwMs = (if sint rwMs0 \<le> 0 then defReadWriteTimeoutMilliseconds else rwMs0);
          connTimeout = connMs * time_Millisecond; readWriteTimeout = rwMs * time_Millisecond
      in \<lparr>p_Dial = (\<lambda>n. started net
            ((if length cachePassword > 0 then [(''AUTH'', [cachePassword])] else [(''PING'', [])])
             @ (if selectDatabase \<noteq> 0 then [(''SELECT'', [show_int selectDatabase])] else []))
            (n_Dial net network host connTimeout readWriteTimeout readWriteTimeout n)),
          p_TestOnBorrow = (\<lambda>now c t n.
            if time_Sub now t <s time_Minute then (None, n)
            else (case n_Do net c ''PING'' [] n of ((_, err), n1) \<Rightarrow> (err, n1))),
          p_MaxIdle = sint maxConnections, p_MaxActive = sint maxConnections, p_IdleTimeout = 240 * time_Second, p_Wait = False\<rparr>)"

definition InitReadOnlyRedisCache ::
  "'n Net \<Rightarrow> (godata \<Rightarrow> error + bytes) \<Rightarrow> (bytes \<Rightarrow> gotype \<Rightarrow> error + godata) \<Rightarrow>
   string \<Rightarrow> string \<Rightarrow> int64 \<Rightarrow> int64 \<Rightarrow> int64 \<Rightarrow> int64 \<Rightarrow> int64 \<Rightarrow> 'n \<Rightarrow> rlog \<Rightarrow> 'n made" where
  "InitReadOnlyRedisCache net enc dec readOnlyCacheURL cachePassword connMs rwMs defaultExpMinutes maxConnections selectDatabase n lg =
     (let lg1 = log_debug ''InitReadOnlyRedisCache: trying to init read-only redis cache'' [] lg;
          defExpSeconds = 60 * defaultExpMinutes
      in case host_of (\<lambda>u e. Errorf ''InitRedisReadOnlyPool: Unable to parse URL read-only cache address %s - %s'' [u, e])
           (\<lambda>u. Errorf ''InitRedisReadOnlyPool: Unable to parse URL read-only cache address %s - url.Host is empty after parsing format should be: redis://<host-name>:6379'' [u])
           readOnlyCacheURL of
           Inl err \<Rightarrow> (Ret (None, Some err), new_pool n,
             log_error ''InitReadOnlyRedisCache: Can't initialize read-only redis cache'' [] (log_err err lg1))
         | Inr host \<Rightarrow>
             (Ret (Some (redis_iface net enc dec (NewRedisCacheWithPool
                (read_only_pool net host cachePassword connMs rwMs maxConnections selectDatabase) (defExpSeconds * time_Second))), None),
              new_pool n, lg1))"

end
