(* ===== verification/RedisPoolSpec.thy ===== *)
theory RedisPoolSpec
  imports RedisStoreSpec RedisPool
begin

text \<open>
  Properties of the set-up of Redis caches, over the test server and its sentinel: the sentinel's pool
  keeps the contract of a pool, a new cache passes its test, and which database and address it uses.
\<close>

section \<open>The sentinel's pool keeps the contract\<close>

text \<open>The store behind the sentinel pool of \<open>redispool.go\<close>, with the password the server wants.\<close>

definition sentinel_store :: "string \<Rightarrow> string \<Rightarrow> string \<Rightarrow> int64 \<Rightarrow> int64 \<Rightarrow> duration \<Rightarrow> int64 \<Rightarrow> Miniredis RedisStore" where
  "sentinel_store addr master pw connMs rwMs exp d =
     NewRedisCacheWithPool (NewSentinelPool mini_net [addr] (Some (bytes_of_string master)) (if pw = [] then None else Some (bytes_of_string pw)) connMs rwMs d) exp"

lemma mini_MasterAddr_net [simp]: "n_MasterAddr mini_net = mini_MasterAddr"
  by (simp add: mini_net_def)

interpretation mini_sentinel: redis_pool mini_net "mini_inv host pw clk (Some (addr, master)) d" "\<lambda>m. db_val (m_dbs m d)" "\<lambda>m. db_ttl (m_dbs m d)"
    "ErrExt ''ERR invalid expire time in setex''" "rs_pool (sentinel_store addr master pw connMs rwMs exp d)" for host pw clk addr master d connMs rwMs exp
proof (unfold_locales, goal_cases)
  case (1 C n)
  have "filter (\<lambda>(cmd, _). cmd \<noteq> ''PING'') (hello pw d) =
      (case (if pw = [] then None else Some (bytes_of_string pw)) of Some p \<Rightarrow> [(''AUTH'', [string_of_bytes p])] | None \<Rightarrow> [])
      @ (if d \<noteq> 0 then [(''SELECT'', [show_int d])] else [])" by (simp add: hello_def)
  moreover have "mini_MasterAddr [addr] master t1 t2 n = (Inr host, n)" for t1 t2
    using 1 by (simp add: mini_inv_def mini_MasterAddr_def)
  ultimately show ?case using mini_opened [OF 1 disjI2 [OF refl], of "connMs * time_Millisecond" "rwMs * time_Millisecond" "rwMs * time_Millisecond"]
    by (auto simp: sentinel_store_def NewRedisCacheWithPool_def NewSentinelPool_def network_def Let_def)
next
  case (2 C n c now t)
  then show ?case by (simp add: sentinel_store_def NewRedisCacheWithPool_def NewSentinelPool_def mini_net_def Let_def)
qed

section \<open>Testing a new cache\<close>

context redis_pool
begin

lemma test_ok:
  assumes "quiet s" "rs_pool st = pool" "storable enc dec (VString v)" "ttl_of st exp = Some t"
  shows "\<exists>s' b. testCache (redis_iface net enc dec st) now k v exp s = (Ret (v, None), s') \<and> quiet s'
    \<and> Serialize enc (VString v) = Inr b \<and> val (ps_net s') = (val (ps_net s))(k \<mapsto> string_of_bytes b)"
proof -
  obtain b where b: "Serialize enc (VString v) = Inr b" "Deserialize dec b (TPtr TString) = (None, Some (VString v))"
    using Serialize_roundtrip [OF assms(3)] by auto
  obtain s1 where s1: "rs_Set net enc st now k (VString v) exp s = (Ret None, s1)" "quiet s1" "val (ps_net s1) = (val (ps_net s))(k \<mapsto> string_of_bytes b)"
    using set_stores [OF assms(1,2) b(1) assms(4), of now k] by blast
  show ?thesis using get_result [OF s1(2) assms(2), of dec now k "TPtr TString"] s1 b
    by (auto simp: testCache_def redis_iface_def redis_ops_def)
qed

lemma tested_ok:
  assumes "quiet s" "rs_pool st = pool" "storable enc dec (VString ''1,2,3..'')" "ttl_of st exp = Some t"
  shows "\<exists>s' lg'. tested fn keep (redis_iface net enc dec st) now exp s lg = (Ret (Some (redis_iface net enc dec st), None), s', lg') \<and> quiet s'
    \<and> Serialize enc (VString ''1,2,3..'') = Inr (bytes_of_string (the (val (ps_net s') ''testing'')))
    \<and> val (ps_net s') ''testing'' \<noteq> None \<and> (\<forall>k. k \<noteq> ''testing'' \<longrightarrow> val (ps_net s') k = val (ps_net s) k)"
  using test_ok [OF assms, of now "''testing''"] by (auto simp: tested_def)

lemma tested_sentinel_ok:
  assumes "quiet s" "rs_pool st = pool" "storable enc dec (VString ''1,2,3..'')" "storable enc dec (VString ''this'')" "ttl_of st exp = Some t"
  shows "\<exists>s' lg'. tested_sentinel fn (redis_iface net enc dec st) now exp s lg = (Ret (Some (redis_iface net enc dec st), None), s', lg') \<and> quiet s'
    \<and> Serialize enc (VString ''1,2,3..'') = Inr (bytes_of_string (the (val (ps_net s') ''testing'')))
    \<and> val (ps_net s') ''testing'' \<noteq> None \<and> (\<forall>k. k \<notin> {''testing'', ''test''} \<longrightarrow> val (ps_net s') k = val (ps_net s) k)"
proof -
  obtain b where b: "Serialize enc (VString ''this'') = Inr b" using Serialize_roundtrip [OF assms(4)] by auto
  obtain s1 where s1: "rs_Set net enc st now ''test'' (VString ''this'') exp s = (Ret None, s1)" "quiet s1"
    "val (ps_net s1) = (val (ps_net s))(''test'' \<mapsto> string_of_bytes b)"
    using set_stores [OF assms(1,2) b assms(5), of now "''test''"] by blast
  show ?thesis using tested_ok [OF s1(2) assms(2,3,5), of fn True now lg] s1 by (auto simp: tested_sentinel_def redis_iface_def redis_ops_def)
qed

end

lemma quiet_new:
  assumes "mini_inv host pw clk sn d {} m"
  shows "mini_store.quiet host pw clk sn d exp (new_pool m)"
    "sn = Some (addr, master) \<Longrightarrow> mini_sentinel.quiet host pw clk addr master d connMs rwMs exp (new_pool m)"
  using assms by (simp_all add: mini_store.quiet_def mini_sentinel.quiet_def, simp_all add: new_pool_def)

lemma tested_db:
  assumes "mini_inv host pw clk sn d {} m" "storable enc dec (VString ''1,2,3..'')" "ttl_of (mini_redis host pw exp d) e = Some t"
  shows "let (r, s, lg') = tested fn False (redis_iface mini_net enc dec (mini_redis host pw exp d)) now e (new_pool m) lg
    in (\<exists>cache. r = Ret (Some cache, None)) \<and> Serialize enc (VString ''1,2,3..'') = Inr (bytes_of_string (the (keys_of d s ''testing'')))
     \<and> keys_of d s ''testing'' \<noteq> None"
  using mini_store.tested_ok [OF quiet_new(1) [OF assms(1)] refl assms(2,3), of fn False now lg] unfolding keys_of_def by (elim exE conjE) simp

section \<open>Properties of the set-up\<close>

lemma sentinel_setup:
  assumes "mini_inv host pw clk (Some (addr, master)) d {} m"
    and "env ''REDIS_SENTINEL_ADDRESS'' = Some url" "url_Parse url = Inr addr" "Getenv env ''REDIS_PASSWORD'' = pw"
    and "master = (if Getenv env ''REDIS_MASTER_IDENTIFIER'' = [] then ''mymaster'' else Getenv env ''REDIS_MASTER_IDENTIFIER'')"
    and "storable enc dec (VString ''1,2,3..'')" "storable enc dec (VString ''this'')"
    and "st = sentinel_store addr master pw connMs rwMs (secs * time_Second) d" "ttl_of st (secs * time_Second) = Some t"
  shows "\<exists>s lg'. InitRedisCache mini_net enc dec env k8s now True secs None connMs rwMs d m lg = (Ret (Some (redis_iface mini_net enc dec st), None), s, lg')
     \<and> Serialize enc (VString ''1,2,3..'') = Inr (bytes_of_string (the (keys_of d s ''testing'')))
     \<and> keys_of d s ''testing'' \<noteq> None \<and> (\<forall>k. k \<notin> {''testing'', ''test''} \<longrightarrow> keys_of d s k = db_val (m_dbs m d) k)
     \<and> mini_sentinel.quiet host pw clk addr master d connMs rwMs (secs * time_Second) s"
proof -
  have "\<exists>lg1. InitRedisCache mini_net enc dec env k8s now True secs None connMs rwMs d m lg
      = tested_sentinel ''initCache'' (redis_iface mini_net enc dec st) now (secs * time_Second) (new_pool m) lg1"
    unfolding assms(8) using assms(2-5) by (auto simp: InitRedisCache_def env_sentinel_def env_password_def sentinel_store_def Let_def)
  then obtain lg1 where init: "InitRedisCache mini_net enc dec env k8s now True secs None connMs rwMs d m lg
      = tested_sentinel ''initCache'' (redis_iface mini_net enc dec st) now (secs * time_Second) (new_pool m) lg1" by blast
  have net: "ps_net (new_pool m) = m" by (simp add: new_pool_def)
  have "\<exists>s lg'. tested_sentinel ''initCache'' (redis_iface mini_net enc dec st) now (secs * time_Second) (new_pool m) lg1 = (Ret (Some (redis_iface mini_net enc dec st), None), s, lg')
      \<and> mini_sentinel.quiet host pw clk addr master d connMs rwMs (secs * time_Second) s
      \<and> Serialize enc (VString ''1,2,3..'') = Inr (bytes_of_string (the (db_val (m_dbs (ps_net s) d) ''testing'')))
      \<and> db_val (m_dbs (ps_net s) d) ''testing'' \<noteq> None
      \<and> (\<forall>k. k \<notin> {''testing'', ''test''} \<longrightarrow> db_val (m_dbs (ps_net s) d) k = db_val (m_dbs (ps_net (new_pool m)) d) k)"
    unfolding assms(8) by (rule mini_sentinel.tested_sentinel_ok [OF quiet_new(2) [OF assms(1) refl] refl assms(6,7) assms(9) [unfolded assms(8)]])
  then show ?thesis unfolding init keys_of_def net by (elim exE conjE) (intro exI conjI)
qed

text \<open>
  \<open>InitRedisCache\<close> with a sentinel: it asks the sentinel at the host of \<open>REDIS_SENTINEL_ADDRESS\<close> for the master
  of the configured name, connects with the password, works in the selected database, and returns the
  cache without an error after the test key went through it.
\<close>

theorem InitRedisCache_sentinel:
  assumes "mini_inv host pw clk (Some (addr, master)) d {} m"
    and "env ''REDIS_SENTINEL_ADDRESS'' = Some url" "url_Parse url = Inr addr" "Getenv env ''REDIS_PASSWORD'' = pw"
    and "master = (if Getenv env ''REDIS_MASTER_IDENTIFIER'' = [] then ''mymaster'' else Getenv env ''REDIS_MASTER_IDENTIFIER'')"
    and "storable enc dec (VString ''1,2,3..'')" "storable enc dec (VString ''this'')"
    and "ttl_of (sentinel_store addr master pw connMs rwMs (secs * time_Second) d) (secs * time_Second) = Some t"
  shows "let (r, s, lg') = InitRedisCache mini_net enc dec env k8s now True secs None connMs rwMs d m lg
    in r = Ret (Some (redis_iface mini_net enc dec (sentinel_store addr master pw connMs rwMs (secs * time_Second) d)), None)
     \<and> Serialize enc (VString ''1,2,3..'') = Inr (bytes_of_string (the (keys_of d s ''testing'')))
     \<and> keys_of d s ''testing'' \<noteq> None \<and> (\<forall>k. k \<notin> {''testing'', ''test''} \<longrightarrow> keys_of d s k = db_val (m_dbs m d) k)"
  using sentinel_setup [OF assms(1-7) refl assms(8), of k8s now lg] by (elim exE conjE) simp

text \<open>
  C39: Without a sentinel the two ways to set up a cache differ: \<open>InitRedisCache\<close> works in the selected database,
  \<open>RedisConnectionInfo.New\<close> always in database 0, whatever \<open>SelectDatabase\<close> says. Outside a cluster both
  connect to \<open>localhost:6379\<close>, whatever \<open>RedisURL\<close> says, and both return the cache after a successful test.
\<close>

theorem setup_without_sentinel:
  assumes "mini_inv ''localhost:6379'' pw clk sn 0 {} m" "mini_inv ''localhost:6379'' pw clk sn d {} m"
    and "env ''REDIS_SENTINEL_ADDRESS'' = None" "\<not> UseSentinel ci" "SentinelURL ci = []" "Password ci = pw" "SelectDatabase ci = d"
    and "RedisURL ci = [] \<or> (\<exists>h. url_Parse (RedisURL ci) = Inr h \<and> h \<noteq> [])" "DefaultExpSeconds ci = secs"
    and "storable enc dec (VString ''1,2,3..'')" "\<And>i. ttl_of (mini_redis ''localhost:6379'' pw (secs * time_Second) i) (secs * time_Second) = Some t"
  shows "(let ((r, s, lg'), ci') = ci_New mini_net enc dec env (Some noCluster) now True ci m lg
      in (\<exists>cache. r = Ret (Some cache, None)) \<and> Serialize enc (VString ''1,2,3..'') = Inr (bytes_of_string (the (keys_of 0 s ''testing'')))
       \<and> keys_of 0 s ''testing'' \<noteq> None)
    \<and> (let (r, s, lg') = InitRedisCache mini_net enc dec env (Some noCluster) now False secs (Some (bytes_of_string pw)) connMs rwMs d m lg
      in (\<exists>cache. r = Ret (Some cache, None)) \<and> Serialize enc (VString ''1,2,3..'') = Inr (bytes_of_string (the (keys_of d s ''testing'')))
       \<and> keys_of d s ''testing'' \<noteq> None)"
proof (intro conjI, goal_cases)
  case 1
  have "NewRedisCache net h p e None = NewRedisCache net h p e (Some 0)" for net :: "Miniredis Net" and h p e
    by (simp add: NewRedisCache_def)
  then have "\<exists>lg1 ci1. ci_New mini_net enc dec env (Some noCluster) now True ci m lg
      = (tested ''RedisConnectionInfo.New'' False (redis_iface mini_net enc dec (mini_redis ''localhost:6379'' pw (secs * time_Second) 0)) now (secs * time_Second) (new_pool m) lg1, ci1)"
    using assms(4-9) by (auto simp: ci_New_def ci_master_def ci_password_def ci_sentinel_def ci_store_def host_of_def inCluster_def Let_def)
  then show ?case using tested_db [OF assms(1,10,11), of "''RedisConnectionInfo.New''" now] by (elim exE) (simp add: case_prod_beta)
next
  case 2
  have "\<exists>lg1. InitRedisCache mini_net enc dec env (Some noCluster) now False secs (Some (bytes_of_string pw)) connMs rwMs d m lg
      = tested ''initCache'' False (redis_iface mini_net enc dec (mini_redis ''localhost:6379'' pw (secs * time_Second) d)) now (secs * time_Second) (new_pool m) lg1"
    using assms(3) by (auto simp: InitRedisCache_def env_sentinel_def env_password_def inCluster_def Let_def)
  then show ?case using tested_db [OF assms(2,10,11), of "''initCache''" now] by (elim exE) simp
qed

text \<open>
  Addresses that cannot be used. \<open>New\<close> and \<open>InitReadOnlyRedisCache\<close> return an error and no cache for a URL that
  does not parse or has no host, such as an address without a scheme, and dial nothing;
  \<open>InitRedisCache\<close> does so only if the URL does not parse and otherwise takes an empty host as the
  sentinel's address.
\<close>

theorem setup_bad_address:
  "(SentinelURL ci \<noteq> [] \<and> (case url_Parse (SentinelURL ci) of Inl _ \<Rightarrow> True | Inr h \<Rightarrow> h = []) \<longrightarrow>
      (\<exists>err lg' ci'. ci_New net enc dec env k8s now test ci n lg = ((Ret (None, Some err), new_pool n, lg'), ci')))
   \<and> ((case url_Parse url of Inl _ \<Rightarrow> True | Inr h \<Rightarrow> h = []) \<longrightarrow>
      (\<exists>err lg'. InitReadOnlyRedisCache net enc dec url pw connMs rwMs mins maxConn d n lg = (Ret (None, Some err), new_pool n, lg')))
   \<and> (env ''REDIS_SENTINEL_ADDRESS'' = Some url \<longrightarrow> (case url_Parse url of
        Inl _ \<Rightarrow> \<exists>err lg'. InitRedisCache net enc dec env k8s now useSentinel secs p connMs rwMs d n lg = (Ret (None, Some err), new_pool n, lg')
      | Inr h \<Rightarrow> \<exists>master p' lg'. InitRedisCache net enc dec env k8s now True secs p connMs rwMs d n lg =
          tested_sentinel ''initCache'' (redis_iface net enc dec (NewRedisCacheWithPool (NewSentinelPool net [h] master p' connMs rwMs d) (secs * time_Second)))
            now (secs * time_Second) (new_pool n) lg'))"
proof (intro conjI impI, goal_cases)
  case 1
  then show ?case by (auto simp: ci_New_def ci_master_def ci_password_def ci_sentinel_def Let_def split: sum.splits if_splits)
next
  case 2
  then show ?case by (auto simp: InitReadOnlyRedisCache_def host_of_def Let_def split: sum.splits)
next
  case 3
  then show ?case by (auto simp: InitRedisCache_def env_sentinel_def env_password_def Let_def split: sum.splits prod.splits)
qed

section \<open>Examples\<close>

text \<open>A codec for strings, and a server with a sentinel.\<close>

definition str_enc :: "godata \<Rightarrow> error + bytes" where
  "str_enc v = (case v of VString s \<Rightarrow> Inr (bytes_of_string s) | _ \<Rightarrow> Inl (ErrExt ''gob''))"

definition str_dec :: "bytes \<Rightarrow> gotype \<Rightarrow> error + godata" where
  "str_dec b ty = Inr (VString (string_of_bytes b))"

lemma str_storable: "storable str_enc str_dec (VString s)"
  by (simp add: storable_def gob_ok_def str_enc_def str_dec_def)

definition demo_site :: Miniredis where
  "demo_site = \<lparr>m_dbs = (\<lambda>_. \<lparr>db_val = Map.empty, db_ttl = Map.empty, db_version = (\<lambda>_. 0)\<rparr>), m_password = ''pw'', m_peers = Map.empty,
     m_next = 0, m_addr = ''localhost:6379'', m_sentinel = Some (''sentinel:26379'', ''mymaster''), m_now = time_Unix 1000\<rparr>"

lemma demo_site_inv: "mini_inv ''localhost:6379'' ''pw'' (time_Unix 1000) (Some (''sentinel:26379'', ''mymaster'')) d {} demo_site"
  by (simp add: demo_site_def mini_inv_def db_wf_def)

lemma ttl_30s: "effective st (30 * time_Second) = 30 * time_Second \<and> ttl_of st (30 * time_Second) = Some (Some (30 * time_Second))"
  by (simp add: ttl_of_def effective_def secs32_def DEFAULT_def FOREVER_def time_Second_def go_div_def word_sless_alt Let_def)

theorem InitRedisCache_sentinel_witness:
  "let (r, s, lg) = InitRedisCache mini_net str_enc str_dec [''REDIS_SENTINEL_ADDRESS'' \<mapsto> ''redis://sentinel:26379'', ''REDIS_PASSWORD'' \<mapsto> ''pw''] None
     (time_Unix 1000) True 30 None 500 500 2 demo_site []
   in (\<exists>cache. r = Ret (Some cache, None)) \<and> keys_of 2 s ''testing'' \<noteq> None"
proof -
  have "url_Parse ''redis://sentinel:26379'' = Inr ''sentinel:26379''" by code_simp
  then show ?thesis
    using InitRedisCache_sentinel [OF demo_site_inv _ _ _ _ str_storable str_storable conjunct2 [OF ttl_30s],
        where env = "[''REDIS_SENTINEL_ADDRESS'' \<mapsto> ''redis://sentinel:26379'', ''REDIS_PASSWORD'' \<mapsto> ''pw'']" and url = "''redis://sentinel:26379''"
          and connMs = 500 and rwMs = 500 and d = 2 and k8s = None and now = "time_Unix 1000" and lg = "[]"]
    by (simp add: Getenv_def case_prod_beta Let_def)
qed

definition demo_info :: RedisConnectionInfo where
  "demo_info = \<lparr>MasterIdentifier = [], Password = ''pw'', SentinelURL = [], RedisURL = ''redis://redis:6379'', UseSentinel = False, DefaultExpSeconds = 30,
     ConnectionTimeoutMilliseconds = 500, ReadWriteTimeoutMilliseconds = 500, SelectDatabase = 2\<rparr>"

theorem setup_without_sentinel_witness:
  "(let ((r, s, lg'), ci') = ci_New mini_net str_enc str_dec Map.empty (Some (ErrExt ''no cluster'')) (time_Unix 1000) True demo_info demo_site []
    in keys_of 0 s ''testing'' \<noteq> None)
   \<and> (let (r, s, lg') = InitRedisCache mini_net str_enc str_dec Map.empty (Some (ErrExt ''no cluster'')) (time_Unix 1000) False 30 (Some (bytes_of_string ''pw'')) 500 500 2 demo_site []
    in keys_of 2 s ''testing'' \<noteq> None)"
proof -
  have "url_Parse (RedisURL demo_info) = Inr ''redis:6379''" unfolding demo_info_def by code_simp
  then show ?thesis
    using setup_without_sentinel [OF demo_site_inv demo_site_inv _ _ _ _ _ _ _ str_storable conjunct2 [OF ttl_30s],
        where env = Map.empty and ci = demo_info and noCluster = "ErrExt ''no cluster''" and now = "time_Unix 1000" and lg = "[]" and connMs = 500 and rwMs = 500]
    by (simp add: demo_info_def case_prod_beta Let_def)
qed

theorem setup_bad_address_witness:
  "\<exists>err lg'. InitReadOnlyRedisCache mini_net str_enc str_dec ''localhost:26379'' [] 0 0 30 50 2 demo_site [] = (Ret (None, Some err), new_pool demo_site, lg')"
  using setup_bad_address [where url = "''localhost:26379''" and net = mini_net and enc = str_enc and dec = str_dec and now = "time_Unix 1000" and pw = "[]"
      and connMs = 0 and rwMs = 0 and mins = 30 and maxConn = 50 and d = 2 and n = demo_site and lg = "[]"]
  by (simp add: url_examples(3))

end
