(* ===== verification/PersistenceMemory.thy ===== *)
theory PersistenceMemory
  imports RedisStore
begin

text \<open>
  The other in-memory store, \<open>InMemoryStore\<close> of \<open>vendor/github.com/Bose/cache/persistence/inmemory.go\<close> over the vendored
  \<open>robfig/go-cache\<close>, which the example program and the tests of the generic cache use.

  The map holds pointers to items; an item is only reached through the map, so the model keeps the
  items themselves. Every method holds the mutex. A method that reads the clock twice takes two
  readings. The janitor of a \<open>cache\<close> only calls \<open>DeleteExpired\<close>.
\<close>

section \<open>The cache\<close>

record item =
  Object :: godata
  Expiration :: "Time option"

record rcache =
  rc_defaultExpiration :: duration
  rc_items :: "string \<rightharpoonup> item"
  rc_janitor :: "duration option"

definition item_Expired :: "Time \<Rightarrow> item \<Rightarrow> bool" where
  "item_Expired now i = (case Expiration i of None \<Rightarrow> False | Some e \<Rightarrow> Before e now)"

definition rc_New :: "duration \<Rightarrow> duration \<Rightarrow> rcache" where
  "rc_New defaultExpiration cleanupInterval =
     \<lparr>rc_defaultExpiration = (if defaultExpiration = 0 then - 1 else defaultExpiration), rc_items = Map.empty,
      rc_janitor = (if 0 <s cleanupInterval then Some cleanupInterval else None)\<rparr>"

definition rc_set :: "Time \<Rightarrow> string \<Rightarrow> godata \<Rightarrow> duration \<Rightarrow> rcache \<Rightarrow> rcache" where
  "rc_set now k x d c =
     (let d = (if d = 0 then rc_defaultExpiration c else d)
      in c\<lparr>rc_items := (rc_items c)(k \<mapsto> \<lparr>Object = x, Expiration = (if 0 <s d then Some (time_Add now d) else None)\<rparr>)\<rparr>)"

definition rc_delete :: "string \<Rightarrow> rcache \<Rightarrow> rcache" where
  "rc_delete k c = c\<lparr>rc_items := (rc_items c)(k := None)\<rparr>"

definition rc_get :: "Time \<Rightarrow> string \<Rightarrow> rcache \<Rightarrow> godata option \<times> rcache" where
  "rc_get now k c =
     (case rc_items c k of
        None \<Rightarrow> (None, c)
      | Some i \<Rightarrow> if item_Expired now i then (None, rc_delete k c) else (Some (Object i), c))"

definition rc_Add :: "Time \<Rightarrow> Time \<Rightarrow> string \<Rightarrow> godata \<Rightarrow> duration \<Rightarrow> rcache \<Rightarrow> error option \<times> rcache" where
  "rc_Add now0 now k x d c =
     (case rc_get now0 k c of
        (Some _, c1) \<Rightarrow> (Some (ErrExt ''item already exists''), c1)
      | (None, c1) \<Rightarrow> (None, rc_set now k x d c1))"

definition rc_Replace :: "Time \<Rightarrow> Time \<Rightarrow> string \<Rightarrow> godata \<Rightarrow> duration \<Rightarrow> rcache \<Rightarrow> error option \<times> rcache" where
  "rc_Replace now0 now k x d c =
     (case rc_get now0 k c of
        (None, c1) \<Rightarrow> (Some (Errorf ''item %s doesn't exist'' [k]), c1)
      | (Some _, c1) \<Rightarrow> (None, rc_set now k x d c1))"

text \<open>
  The counters dispatch on the type of the value; \<open>int\<close> and every sized type is added in its own width.
  The result is the value converted to \<open>uint64\<close>, which a value's 64 bits already are.
\<close>

fun rc_plus :: "uint64 \<Rightarrow> godata \<Rightarrow> (uint64 \<times> godata) option" where
  "rc_plus n (VInt i) = Some (i + n, VInt (i + n))"
| "rc_plus n (VNum t i) = (let r = set_num t (i + set_num t n) in Some (r, VNum t r))"
| "rc_plus n _ = None"

fun rc_minus :: "uint64 \<Rightarrow> godata \<Rightarrow> (uint64 \<times> godata) option" where
  "rc_minus n (VInt i) = (let r = (if n <s i then i - n else 0) in Some (r, VInt r))"
| "rc_minus n (VNum t i) =
     (let m = set_num t n;
          r = (if (if is_signed t then m <s i else m < i) then set_num t (i - m) else 0)
      in Some (r, VNum t r))"
| "rc_minus n _ = None"

definition rc_count :: "(godata \<Rightarrow> (uint64 \<times> godata) option) \<Rightarrow> Time \<Rightarrow> string \<Rightarrow> rcache \<Rightarrow> (uint64 \<times> error option) \<times> rcache" where
  "rc_count f now k c =
     (case rc_items c k of
        None \<Rightarrow> ((0, Some (ErrExt ''item not found'')), c)
      | Some i \<Rightarrow>
          if item_Expired now i then ((0, Some (ErrExt ''item not found'')), c)
          else (case f (Object i) of
                  None \<Rightarrow> ((0, Some (Errorf ''The value for %s is not an integer'' [k])), c)
                | Some (r, x) \<Rightarrow> ((r, None), c\<lparr>rc_items := (rc_items c)(k \<mapsto> i\<lparr>Object := x\<rparr>)\<rparr>)))"

definition rc_Increment :: "Time \<Rightarrow> string \<Rightarrow> uint64 \<Rightarrow> rcache \<Rightarrow> (uint64 \<times> error option) \<times> rcache" where
  "rc_Increment now k n = rc_count (rc_plus n) now k"

definition rc_Decrement :: "Time \<Rightarrow> string \<Rightarrow> uint64 \<Rightarrow> rcache \<Rightarrow> (uint64 \<times> error option) \<times> rcache" where
  "rc_Decrement now k n = rc_count (rc_minus n) now k"

definition rc_Delete :: "Time \<Rightarrow> string \<Rightarrow> rcache \<Rightarrow> bool \<times> rcache" where
  "rc_Delete now k c = (case rc_get now k c of (x, c1) \<Rightarrow> (x \<noteq> None, rc_delete k c1))"

text \<open>\<open>DeleteExpired\<close>: \<open>clock k\<close> is the reading made for the key \<open>k\<close>; the order in which the map is ranged over does not matter.\<close>

definition rc_DeleteExpired :: "(string \<Rightarrow> Time) \<Rightarrow> rcache \<Rightarrow> rcache" where
  "rc_DeleteExpired clock c =
     c\<lparr>rc_items := (\<lambda>k. case rc_items c k of None \<Rightarrow> None | Some i \<Rightarrow> if item_Expired (clock k) i then None else Some i)\<rparr>"

definition rc_Flush :: "rcache \<Rightarrow> rcache" where
  "rc_Flush c = c\<lparr>rc_items := Map.empty\<rparr>"

section \<open>The store\<close>

definition pm_New :: "duration \<Rightarrow> rcache" where
  "pm_New defaultExpiration = rc_New defaultExpiration time_Minute"

text \<open>
  \<open>Get\<close> writes through \<open>reflect\<close>: the type of a nil argument cannot be asked, an argument that is no pointer
  cannot be set, and \<open>Set\<close> panics unless the value can be assigned to the variable.
\<close>

definition pm_Get :: "Time \<Rightarrow> string \<Rightarrow> gotype \<Rightarrow> rcache method_get" where
  "pm_Get now key ty c =
     (case rc_get now key c of
        (None, c1) \<Rightarrow> (Ret (Some ErrCacheMiss, None), c1)
      | (Some val, c1) \<Rightarrow>
          (case ty of
             TNil \<Rightarrow> (Panic ''nil pointer dereference'', c1)
           | TPtr t \<Rightarrow> if val \<noteq> VNil \<and> (t = type_of val \<or> t = TInterface) then (Ret (None, Some val), c1) else (Panic ''reflect.Set'', c1)
           | _ \<Rightarrow> (Ret (Some ErrNotStored, None), c1)))"

definition pm_Set :: "Time \<Rightarrow> string \<Rightarrow> godata \<Rightarrow> duration \<Rightarrow> rcache method_err" where
  "pm_Set now key value expires c = (Ret None, rc_set now key value expires c)"

definition pm_Add :: "Time \<Rightarrow> Time \<Rightarrow> string \<Rightarrow> godata \<Rightarrow> duration \<Rightarrow> rcache method_err" where
  "pm_Add now0 now key value expires c =
     (case rc_Add now0 now key value expires c of
        (err, c1) \<Rightarrow> (Ret (if err = Some (ErrExt ''item already exists'') then Some ErrNotStored else err), c1))"

definition pm_Replace :: "Time \<Rightarrow> Time \<Rightarrow> string \<Rightarrow> godata \<Rightarrow> duration \<Rightarrow> rcache method_err" where
  "pm_Replace now0 now key value expires c =
     (case rc_Replace now0 now key value expires c of (err, c1) \<Rightarrow> (Ret (if err \<noteq> None then Some ErrNotStored else None), c1))"

definition pm_Delete :: "Time \<Rightarrow> string \<Rightarrow> rcache method_err" where
  "pm_Delete now key c = (case rc_Delete now key c of (found, c1) \<Rightarrow> (Ret (if found then None else Some ErrCacheMiss), c1))"

definition pm_num :: "(uint64 \<times> error option) \<times> rcache \<Rightarrow> (uint64 \<times> error option) outcome \<times> rcache" where
  "pm_num r = (case r of ((v, err), c1) \<Rightarrow> (Ret (if err = Some (ErrExt ''item not found'') then (0, Some ErrCacheMiss) else (v, err)), c1))"

definition pm_Increment :: "Time \<Rightarrow> string \<Rightarrow> uint64 \<Rightarrow> rcache method_num" where
  "pm_Increment now key n c = pm_num (rc_Increment now key n c)"

definition pm_Decrement :: "Time \<Rightarrow> string \<Rightarrow> uint64 \<Rightarrow> rcache method_num" where
  "pm_Decrement now key n c = pm_num (rc_Decrement now key n c)"

definition pm_Flush :: "rcache method_err" where
  "pm_Flush c = (Ret None, rc_Flush c)"

definition pm_ops :: "rcache CacheStore" where
  "pm_ops = \<lparr>m_Get = pm_Get, m_Set = pm_Set, m_Add = (\<lambda>now. pm_Add now now), m_Replace = (\<lambda>now. pm_Replace now now),
     m_Delete = pm_Delete, m_Increment = pm_Increment, m_Decrement = pm_Decrement, m_Flush = (\<lambda>now. pm_Flush)\<rparr>"

end
