(* ===== verification/TypedGet.thy ===== *)
theory TypedGet
  imports GenericCacheSpec RedisPoolSpec PersistenceMemory
begin

text \<open>
  Types of the values that \<open>Get\<close> writes. The code is handed a pointer as \<open>interface{}\<close> and dispatches on the printed
  name of its type: whatever it writes has the type that the pointer points to.
\<close>

section \<open>Stores\<close>

locale typed_store =
  fixes st :: "'w CacheStore"
  assumes get_typed: "m_Get st now k ty w = (Ret (err, Some v), w') \<Longrightarrow> ty = TPtr (type_of v) \<or> ty = TPtr TInterface"
begin

lemma fetch_typed:
  assumes "Option.bind (gc_Cache c) as_store = Some st" "fetch now k ty c w = (Ret (err, Some v), w')" "ty \<noteq> TPtr TInterface"
  shows "ty = TPtr (type_of v)"
  using assms(2,3) get_typed [of now k ty "w_store w"]
  by (cases "m_Get st now k ty (w_store w)") (auto simp: fetch_def on_store_Some [OF assms(1)] split: outcome.splits prod.splits option.splits if_splits)

lemma fetch_entry_typed:
  assumes "fetch_entry dec now k c w = (Ret (err, Some v), w')" "Option.bind (gc_Cache c) as_store = Some st"
  shows "type_of v = TEntry"
proof -
  obtain r w1 where r: "fetch now k (TPtr TEntry) c w = (r, w1)" by fastforce
  note t = fetch_typed [OF assms(2), of now k "TPtr TEntry" w]
  show ?thesis using assms(1) r t
    by (auto simp: fetch_entry_def unseal_def box_entry_def split: outcome.splits prod.splits option.splits if_splits godata.splits sum.splits)
qed

lemma gc_typed:
  assumes "gc_Get dec now k ty c w = (Ret (err, Some v), w')" "Option.bind (gc_Cache c) as_store = Some st"
  shows "ty = TPtr (type_of v)"
proof (cases "ty = TPtr TInterface")
  case True
  then show ?thesis using assms(1) by (auto simp: gc_Get_def int_names_def Let_def split: if_splits)
next
  case False
  then show ?thesis
    using assms(1) fetch_typed [OF assms(2) _ False] fetch_entry_typed [OF _ assms(2)]
    by (auto simp: gc_Get_def Let_def split: if_splits outcome.splits prod.splits)
qed

end

section \<open>The stores of the package\<close>

lemma mem_deliver_typed: "mem_deliver ty e = Ret (err, Some v) \<Longrightarrow> ty = TPtr (type_of v)"
  by (auto simp: mem_deliver_def box_entry_def Let_def split: if_splits gotype.splits godata.splits dest: sym)

interpretation mem_typed: typed_store mem_ops
  by unfold_locales (auto simp: mem_ops_def mem_Get_def Let_def mem_deliver_typed split: prod.splits option.splits if_splits)

interpretation pm_typed: typed_store pm_ops
  by unfold_locales (auto simp: pm_ops_def pm_Get_def split: prod.splits option.splits gotype.splits if_splits)

text \<open>What a decoder writes has the type it was asked for, unless it decodes into an interface.\<close>

definition typed_decoder :: "(bytes \<Rightarrow> gotype \<Rightarrow> error + godata) \<Rightarrow> bool" where
  "typed_decoder dec \<longleftrightarrow> (\<forall>b ty v. dec b ty = Inr v \<longrightarrow> ty = TPtr (type_of v) \<or> ty = TPtr TInterface)"

lemma Deserialize_typed:
  assumes "typed_decoder dec" "Deserialize dec b ty = (err, Some v)"
  shows "ty = TPtr (type_of v) \<or> ty = TPtr TInterface"
proof -
  have d: "decoded (dec b ty) = (err, Some v) \<Longrightarrow> ty = TPtr (type_of v) \<or> ty = TPtr TInterface"
    using assms(1) by (auto simp: typed_decoder_def decoded_def split: sum.splits)
  show ?thesis using assms(2) d unfolding Deserialize_def
    by (auto simp: parsed_def split: gotype.splits if_splits prod.splits option.splits)
qed

lemma redis_typed: "typed_decoder dec \<Longrightarrow> typed_store (redis_ops net enc dec st)"
  using Deserialize_typed [of dec]
  by unfold_locales (auto simp: redis_ops_def rs_Get_def with_conn_def split: prod.splits option.splits if_splits sum.splits)


end
