(* ===== verification/Example.thy ===== *)
theory Example
  imports RedisPool PersistenceMemory InMemoryStore GinRender
begin

text \<open>
  The example program, \<open>src/example/example.go\<close>: the three caches that \<open>init\<close> sets up and the routes that keep an entry in
  them. The two Redis pools of one cache share the network, so their states are kept with it in
  one record. A route that keeps an entry answers at once and leaves the \<open>Set\<close> to a goroutine: handling a
  request returns the job that was started, if there is one. \<open>/hello\<close> and \<open>/cached-page\<close> are gin handlers. Rendering
  JSON and the web server itself are not modelled.
\<close>

section \<open>Constants\<close>

definition redisTestServer :: string where "redisTestServer = ''redis://localhost:6379''"

definition sentinelTestServer :: string where "sentinelTestServer = ''redis://localhost:26379''"

definition redisMasterIdentifier :: string where "redisMasterIdentifier = ''mymaster''"

definition sharedSecret :: string where "sharedSecret = ''secret-must-be-min-16chars''"

definition useSentinel :: bool where "useSentinel = True"

definition defExpSeconds :: int64 where "defExpSeconds = 30"

definition defTimeoutMilliseconds :: int64 where "defTimeoutMilliseconds = 500"

definition maxConnectionsAllowed :: int64 where "maxConnectionsAllowed = 50"

definition maxEntries :: int where "maxEntries = 1000"

section \<open>Two pools of one network\<close>

record 'n pools =
  p_net :: 'n
  p_write :: "'n pooled"
  p_read :: "'n pooled"

definition write_pool_of :: "'n pools \<Rightarrow> 'n pooled" where
  "write_pool_of p = (p_write p)\<lparr>ps_net := p_net p\<rparr>"

definition put_write_pool :: "'n pooled \<Rightarrow> 'n pools \<Rightarrow> 'n pools" where
  "put_write_pool s p = p\<lparr>p_net := ps_net s, p_write := s\<rparr>"

definition read_pool_of :: "'n pools \<Rightarrow> 'n pooled" where
  "read_pool_of p = (p_read p)\<lparr>ps_net := p_net p\<rparr>"

definition put_read_pool :: "'n pooled \<Rightarrow> 'n pools \<Rightarrow> 'n pools" where
  "put_read_pool s p = p\<lparr>p_net := ps_net s, p_read := s\<rparr>"

text \<open>A store that works on a part of the state.\<close>

definition part :: "('w \<Rightarrow> 's) \<Rightarrow> ('s \<Rightarrow> 'w \<Rightarrow> 'w) \<Rightarrow> ('s \<Rightarrow> 'r \<times> 's) \<Rightarrow> 'w \<Rightarrow> 'r \<times> 'w" where
  "part get put f w = (case f (get w) of (r, s) \<Rightarrow> (r, put s w))"

definition part_store :: "('w \<Rightarrow> 's) \<Rightarrow> ('s \<Rightarrow> 'w \<Rightarrow> 'w) \<Rightarrow> 's CacheStore \<Rightarrow> 'w CacheStore" where
  "part_store get put st = \<lparr>m_Get = \<lambda>now k ty. part get put (m_Get st now k ty), m_Set = \<lambda>now k v e. part get put (m_Set st now k v e),
     m_Add = \<lambda>now k v e. part get put (m_Add st now k v e), m_Replace = \<lambda>now k v e. part get put (m_Replace st now k v e),
     m_Delete = \<lambda>now k. part get put (m_Delete st now k), m_Increment = \<lambda>now k n. part get put (m_Increment st now k n),
     m_Decrement = \<lambda>now k n. part get put (m_Decrement st now k n), m_Flush = \<lambda>now. part get put (m_Flush st now)\<rparr>"

definition part_redis :: "('w \<Rightarrow> 's) \<Rightarrow> ('s \<Rightarrow> 'w \<Rightarrow> 'w) \<Rightarrow> 's RedisMethods \<Rightarrow> 'w RedisMethods" where
  "part_redis get put r = \<lparr>r_ExpireAt = \<lambda>now k e. part get put (r_ExpireAt r now k e), r_GetExpiresIn = \<lambda>now k. part get put (r_GetExpiresIn r now k),
     r_IncrementAtomic = \<lambda>now k n. part get put (r_IncrementAtomic r now k n), r_IncrementCheckSet = \<lambda>now k n. part get put (r_IncrementCheckSet r now k n)\<rparr>"

fun part_iface :: "('w \<Rightarrow> 's) \<Rightarrow> ('s \<Rightarrow> 'w \<Rightarrow> 'w) \<Rightarrow> 's iface \<Rightarrow> 'w iface" where
  "part_iface get put (StoreIface st) = StoreIface (part_store get put st)"
| "part_iface get put (RedisIface st r) = RedisIface (part_store get put st) (part_redis get put r)"
| "part_iface get put OtherIface = OtherIface"

section \<open>Start\<close>

record 'n example =
  genericRedisCache :: "'n pools GenericCache"
  redisWorld :: "'n pools world"
  genericInMemoryCache :: "rcache GenericCache"
  memoryWorld :: "rcache world"
  lruExpiryCache :: "inMemoryStore GenericCache"
  lruWorld :: "inMemoryStore world"

text \<open>\<open>Fatalf\<close> logs and ends the process.\<close>

datatype 'a started = Running 'a | Fatal string | Crashes string

definition example_env :: "(string \<rightharpoonup> string) \<Rightarrow> string \<rightharpoonup> string" where
  "example_env env =
     (let env1 = (if length (Getenv env ''REDIS_SENTINEL_ADDRESS'') = 0 then env(''REDIS_SENTINEL_ADDRESS'' \<mapsto> sentinelTestServer) else env)
      in env1(''REDIS_MASTER_IDENTIFIER'' \<mapsto> redisMasterIdentifier))"

definition example_init ::
  "'n Net \<Rightarrow> (godata \<Rightarrow> error + bytes) \<Rightarrow> (bytes \<Rightarrow> gotype \<Rightarrow> error + godata) \<Rightarrow> (string \<rightharpoonup> string) \<Rightarrow> error option \<Rightarrow> Time \<Rightarrow> 'n \<Rightarrow> 'n example started" where
  "example_init net genc gdec env k8s now n =
     (let selectDatabase = 2; env1 = example_env env in
      case InitRedisCache net genc gdec env1 k8s now useSentinel defExpSeconds None defTimeoutMilliseconds defTimeoutMilliseconds selectDatabase n [] of
        (Panic p, _, _) \<Rightarrow> Crashes p
      | (Ret (_, Some err), _, _) \<Rightarrow> Fatal (Sprintf ''couldn't connect to redis on %s'' [Getenv env1 ''REDIS_SENTINEL_ADDRESS''])
      | (Ret (cacheWritePool, None), s, lg) \<Rightarrow>
          (case InitReadOnlyRedisCache net genc gdec redisTestServer [] 0 0 defExpSeconds maxConnectionsAllowed selectDatabase (ps_net s) lg of
             (Panic p, _, _) \<Rightarrow> Crashes p
           | (Ret (_, Some err), _, _) \<Rightarrow> Fatal (Sprintf ''couldn't connect to redis on %s'' [redisTestServer])
           | (Ret (readOnlyPool, None), s', _) \<Rightarrow>
               (case NewInMemoryStore maxEntries defExpSeconds (1 * time_Minute) True ''exampe_inmemory_store'' of
                  Inl err \<Rightarrow> Crashes ''Unable to allocate LRU w/expiry store''
                | Inr (inMemoryLRUWExpiryStore, _, _) \<Rightarrow>
                    Running \<lparr>genericRedisCache = set_Logger (Some ''generic_test'') (NewCacheWithMultiPools
                               (map_option (part_iface write_pool_of put_write_pool) cacheWritePool)
                               (map_option (part_iface read_pool_of put_read_pool) readOnlyPool)
                               L2 sharedSecret defExpSeconds (Some (bytes_of_string ''test'')) True),
                             redisWorld = \<lparr>w_store = \<lparr>p_net = ps_net s', p_write = s, p_read = s'\<rparr>, w_log = []\<rparr>,
                             genericInMemoryCache = NewCacheWithPool (Some (StoreIface pm_ops)) Writable L1 sharedSecret defExpSeconds (Some (bytes_of_string ''mem'')) False,
                             memoryWorld = \<lparr>w_store = pm_New defExpSeconds, w_log = []\<rparr>,
                             lruExpiryCache = NewCacheWithPool (Some (StoreIface mem_ops)) Writable L1 sharedSecret defExpSeconds (Some (bytes_of_string ''mem'')) False,
                             lruWorld = \<lparr>w_store = inMemoryLRUWExpiryStore, w_log = []\<rparr>\<rparr>)))"

section \<open>Routes\<close>

record TestEntry =
  TestValue :: string
  TestBool :: bool

definition getNewEntry :: TestEntry where
  "getNewEntry = \<lparr>TestValue = ''Hi Mom!'', TestBool = True\<rparr>"

text \<open>The struct as a dynamic value: its type and its contents.\<close>

definition box_test :: "TestEntry \<Rightarrow> godata" where
  "box_test e = VUser ''main'' ''main.TestEntry'' ((if TestBool e then 1 else 0) # bytes_of_string (TestValue e))"

text \<open>
  The body the three routes share: \<open>name\<close> is what the key is made of. The result is the entry that is sent
  and the arguments of the \<open>Set\<close> that the goroutine will make.
\<close>

definition serve_entry ::
  "(bytes \<Rightarrow> error + godata) \<Rightarrow> string \<Rightarrow> Time \<Rightarrow> Time \<Rightarrow> 'w GenericCache \<Rightarrow> 'w world \<Rightarrow>
   (GenericCacheEntry \<times> (string \<times> GenericCacheEntry \<times> duration) option) outcome \<times> 'w world" where
  "serve_entry dec name now now' cache w =
     (let key = GetKey cache (bytes_of_string name) in
      case gc_Get dec now key (TPtr TEntry) cache w of
        (Panic p, w1) \<Rightarrow> (Panic p, w1)
      | (Ret (Some err, _), w1) \<Rightarrow>
          (let exp = 3 * time_Minute; entry = gc_NewGenericCacheEntry cache now' (box_test getNewEntry) exp
           in (Ret (entry, Some (key, entry, exp)), w1))
      | (Ret (None, out), w1) \<Rightarrow> (Ret (written out, None), w1))"

text \<open>The goroutine; an error of \<open>Set\<close> is only logged.\<close>

definition background_set ::
  "(godata \<Rightarrow> error + bytes) \<Rightarrow> Time \<Rightarrow> Time \<Rightarrow> string \<times> GenericCacheEntry \<times> duration \<Rightarrow> 'w GenericCache \<Rightarrow> 'w world \<Rightarrow> error option outcome \<times> 'w world" where
  "background_set enc now0 now job cache w = (case job of (key, entry, exp) \<Rightarrow> gc_Set enc now0 now key (box_entry entry) exp cache w)"

definition cached_encrypted_entry where
  "cached_encrypted_entry dec now now' ex =
     (case serve_entry dec ''cached-encrypted-entry'' now now' (genericRedisCache ex) (redisWorld ex) of (r, w) \<Rightarrow> (r, ex\<lparr>redisWorld := w\<rparr>))"

definition cached_in_memory_not_encrypted_entry where
  "cached_in_memory_not_encrypted_entry dec now now' ex =
     (case serve_entry dec ''cached-in-memory-not-encrypted-entry'' now now' (genericInMemoryCache ex) (memoryWorld ex) of (r, w) \<Rightarrow> (r, ex\<lparr>memoryWorld := w\<rparr>))"

definition cached_in_memory_lru_with_expiry where
  "cached_in_memory_lru_with_expiry dec now now' ex =
     (case serve_entry dec ''cached-in-memory-lru-with-expiry'' now now' (lruExpiryCache ex) (lruWorld ex) of (r, w) \<Rightarrow> (r, ex\<lparr>lruWorld := w\<rparr>))"

section \<open>Text routes\<close>

definition hello :: "Time \<Rightarrow> 'w handler" where
  "hello now = ctx_String now 200 (''Hello world!'' @ [CHR 0x0A]) []"

definition cached_hello :: "Time \<Rightarrow> 'w handler" where
  "cached_hello now c = ctx_String now 200 (''Cached Hello world!'' @ [CHR 0x0A]) []
     (c\<lparr>c_Writer := w_header_update (header_Set ''x-okay-to-cache'' ''true'') (c_Writer c)\<rparr>)"

text \<open>\<open>/cached-page\<close>: the generic cache over Redis is the store of the page cache. \<open>handle\<close> is \<open>cached_hello\<close> in the program.\<close>

definition page_route where
  "page_route enc dec extractor g name now ex handle = CachePage extractor g name now (gc_ops enc dec (genericRedisCache ex)) (5 * time_Minute) handle"

definition cached_page where
  "cached_page enc dec extractor g name now now' ex = page_route enc dec extractor g name now ex (cached_hello now')"

end
