(* ===== verification/ExampleSpec.thy ===== *)
theory ExampleSpec
  imports GenericCacheSpec RedisPoolSpec Example
begin

text \<open>
  The routes of the example program with their goroutines: requests and pending \<open>Set\<close> calls interleave in any order.
\<close>

section \<open>Requests and goroutines\<close>

type_synonym job = "string \<times> GenericCacheEntry \<times> duration"

record 'w route =
  rt_world :: "'w world"
  rt_jobs :: "job list"
  rt_sent :: "GenericCacheEntry list"

inductive route_step ::
  "(godata \<Rightarrow> error + bytes) \<Rightarrow> (bytes \<Rightarrow> error + godata) \<Rightarrow> string \<Rightarrow> 'w GenericCache \<Rightarrow> 'w route \<Rightarrow> 'w route \<Rightarrow> bool" for enc dec name c where
  request: "serve_entry dec name now now' c (rt_world s) = (Ret (entry, job), w) \<Longrightarrow>
    route_step enc dec name c s (s\<lparr>rt_world := w, rt_jobs := rt_jobs s @ (case job of None \<Rightarrow> [] | Some j \<Rightarrow> [j]), rt_sent := rt_sent s @ [entry]\<rparr>)"
| background: "rt_jobs s = js @ j # js' \<Longrightarrow> background_set enc now0 now j c (rt_world s) = (r, w) \<Longrightarrow>
    route_step enc dec name c s (s\<lparr>rt_world := w, rt_jobs := js @ js'\<rparr>)"

inductive_cases route_stepE: "route_step enc dec name c s s'"

abbreviation served_data :: godata where "served_data \<equiv> box_test getNewEntry"

lemma decryptEntry_store: "w_store (snd (decryptEntry c b w)) = w_store w"
  by (auto simp: decryptEntry_def Let_def split: outcome.splits sum.splits)

lemma new_entry_data: "Data (gc_NewGenericCacheEntry c now v exp) = v"
  by (simp add: gc_NewGenericCacheEntry_def NewGenericCacheEntry_def Let_def)

context cache_store
begin

lemma gc_Get_state:
  assumes "usable st c"
  shows "w_store (snd (gc_Get dec now k (TPtr TEntry) c w)) = snd (m_Get st now k (TPtr TEntry) (w_store w))"
proof -
  have b: "Option.bind (gc_Cache c) as_store = Some st" using assms by (simp add: usable_def)
  have f: "w_store (snd (fetch now k (TPtr TEntry) c w1)) = snd (m_Get st now k (TPtr TEntry) (w_store w1))" for w1
    by (auto simp: fetch_def on_store_Some [OF b] split: outcome.splits option.splits)
  have u: "w_store (snd (unseal dec c e w1)) = w_store w1" for e w1
  proof (cases "Data e")
    case (VBytes b)
    obtain r w2 where d: "decryptEntry c b w1 = (r, w2)" by fastforce
    then show ?thesis using decryptEntry_store [of c b w1] VBytes by (auto simp: unseal_def split: outcome.splits sum.splits)
  qed (simp_all add: unseal_def)
  have "w_store (snd (fetch_entry dec now k c w1)) = w_store (snd (fetch now k (TPtr TEntry) c w1))" for w1
    using u by (auto simp: fetch_entry_def split: prod.splits outcome.splits option.splits)
  then show ?thesis using f by (simp add: gc_Get_entry [OF usable_cache [OF assms]])
qed

definition route_ok :: "(bytes \<Rightarrow> error + godata) \<Rightarrow> string \<Rightarrow> 'w GenericCache \<Rightarrow> 'w route \<Rightarrow> bool" where
  "route_ok dec name c s \<longleftrightarrow> inv (w_store (rt_world s))
     \<and> (\<forall>e. content (w_store (rt_world s)) (GetKey c (bytes_of_string name)) = Some e \<longrightarrow> holds dec c served_data (Data e))
     \<and> (\<forall>(k, e, x) \<in> set (rt_jobs s). k = GetKey c (bytes_of_string name) \<and> Data e = served_data \<and> x = 3 * time_Minute)
     \<and> (\<forall>e \<in> set (rt_sent s). Data e = served_data)"

text \<open>A request is always answered, from the cache or with a new entry.\<close>

lemma serves:
  assumes "usable st c" "route_ok dec name c s"
  shows "\<exists>entry job w. serve_entry dec name now now' c (rt_world s) = (Ret (entry, job), w) \<and> Data entry = served_data \<and> inv (w_store w)
    \<and> content (w_store w) \<subseteq>\<^sub>m content (w_store (rt_world s))
    \<and> (job = None \<longleftrightarrow> (\<exists>e. content (w_store (rt_world s)) (GetKey c (bytes_of_string name)) = Some e \<and> \<not> Expired now e))
    \<and> (\<forall>j. job = Some j \<longrightarrow> fst j = GetKey c (bytes_of_string name) \<and> Data (fst (snd j)) = served_data \<and> snd (snd j) = 3 * time_Minute)"
proof -
  let ?k = "GetKey c (bytes_of_string name)" and ?w = "rt_world s"
  have i: "inv (w_store ?w)" using assms(2) by (simp add: route_ok_def)
  have st: "inv (w_store (snd (gc_Get dec now ?k (TPtr TEntry) c ?w)))" "content (w_store (snd (gc_Get dec now ?k (TPtr TEntry) c ?w))) \<subseteq>\<^sub>m content (w_store ?w)"
    unfolding gc_Get_state [OF assms(1)] by (rule inv_get [OF i], rule get_content [OF i])
  show ?thesis
  proof (cases "content (w_store ?w) ?k")
    case None
    from gc_Get_missing [OF assms(1) i None, of dec now] st show ?thesis using None
      by (cases "gc_Get dec now ?k (TPtr TEntry) c ?w") (simp add: serve_entry_def Let_def new_entry_data)
  next
    case (Some e)
    then have "holds dec c served_data (Data e)" using assms(2) by (simp add: route_ok_def)
    from gc_Get_held [OF assms(1) i Some this, of now] st show ?thesis using Some
      by (cases "gc_Get dec now ?k (TPtr TEntry) c ?w") (auto simp: serve_entry_def Let_def new_entry_data written_def)
  qed
qed

lemma route_step_ok:
  assumes "route_step enc dec name c s s'" "usable st c" "route_ok dec name c s" "gc_EncryptData c \<longrightarrow> gob_roundtrip enc dec served_data"
  shows "route_ok dec name c s'"
  using assms(1)
proof (cases rule: route_step.cases)
  case (request now now' entry job w)
  let ?k = "GetKey c (bytes_of_string name)"
  from serves [OF assms(2,3), of now now'] obtain e1 j1 w1 where s1: "serve_entry dec name now now' c (rt_world s) = (Ret (e1, j1), w1)"
    and r1: "Data e1 = served_data" "inv (w_store w1)" "content (w_store w1) \<subseteq>\<^sub>m content (w_store (rt_world s))"
    "\<forall>j. j1 = Some j \<longrightarrow> fst j = ?k \<and> Data (fst (snd j)) = served_data \<and> snd (snd j) = 3 * time_Minute" by (elim exE conjE)
  have "(Ret (e1, j1), w1) = (Ret (entry, job), w)" by (rule trans [OF s1 [symmetric] request(2)])
  then have eq: "e1 = entry" "j1 = job" "w1 = w" by simp_all
  note w = r1(1-3) [unfolded eq] and j = r1(4) [unfolded eq]
  have h: "\<forall>e. content (w_store w) ?k = Some e \<longrightarrow> holds dec c served_data (Data e)"
    using map_le_Some [OF w(3)] assms(3) by (auto simp: route_ok_def)
  have js: "\<forall>(k, e, x) \<in> set (rt_jobs s) \<union> set (case job of None \<Rightarrow> [] | Some j \<Rightarrow> [j]). k = ?k \<and> Data e = served_data \<and> x = 3 * time_Minute"
    using assms(3) j by (auto simp: route_ok_def split: option.splits)
  have "\<forall>e \<in> insert entry (set (rt_sent s)). Data e = served_data" using assms(3) w(1) by (simp add: route_ok_def)
  then show ?thesis unfolding request(1) using w(2) h js by (simp add: route_ok_def)
next
  case (background js j js' now0 now r w)
  obtain k e x where j: "j = (k, e, x)" by (cases j)
  have i: "inv (w_store (rt_world s))" and k: "k = GetKey c (bytes_of_string name)" "Data e = served_data" using assms(3) background(2) j by (auto simp: route_ok_def)
  obtain e' where e': "inv (w_store w)" "content (w_store w) k = Some (stored (w_store (rt_world s)) now (box_entry e') (if x \<noteq> 0 then x else gc_DefaultExp c))" "holds dec c (Data e) (Data e')"
    using gc_Set_stores [OF assms(2) i, of enc dec e now0 now k x] assms(4) background(3) j k(2) by (auto simp: background_set_def)
  then show ?thesis using assms(3) background(1,2) k stored_entry by (auto simp: route_ok_def)
qed

lemma route_reachable_ok:
  assumes "(route_step enc dec name c)\<^sup>*\<^sup>* s s'" "usable st c" "route_ok dec name c s" "gc_EncryptData c \<longrightarrow> gob_roundtrip enc dec served_data"
  shows "route_ok dec name c s'"
  using assms(1) by (induction rule: rtranclp_induct) (auto intro: assms(3) route_step_ok [OF _ assms(2) _ assms(4)])

end

section \<open>The start\<close>

lemma example_env_simps:
  "example_env env ''REDIS_SENTINEL_ADDRESS'' = Some (if Getenv env ''REDIS_SENTINEL_ADDRESS'' = [] then sentinelTestServer else Getenv env ''REDIS_SENTINEL_ADDRESS'')"
  "Getenv (example_env env) ''REDIS_PASSWORD'' = Getenv env ''REDIS_PASSWORD''" "Getenv (example_env env) ''REDIS_MASTER_IDENTIFIER'' = ''mymaster''"
  by (auto simp: example_env_def Getenv_def Let_def redisMasterIdentifier_def split: option.splits)

lemma read_only_example:
  "\<exists>cache lg'. InitReadOnlyRedisCache net genc gdec redisTestServer [] 0 0 defExpSeconds maxConnectionsAllowed d n lg = (Ret (Some cache, None), new_pool n, lg')"
proof -
  have "url_Parse redisTestServer = Inr ''localhost:6379''" unfolding redisTestServer_def by code_simp
  then show ?thesis by (simp add: InitReadOnlyRedisCache_def host_of_def Let_def)
qed

lemma example_lru:
  "\<exists>c g. NewInMemoryStore maxEntries defExpSeconds (1 * time_Minute) True ''exampe_inmemory_store'' = Inr (c, g, True)
     \<and> store_DefaultExp c = 30 \<and> mem_inv c \<and> mem_content c = Map.empty"
proof -
  obtain l :: "(string, godata) ARCCache" where l: "NewARC 1000 = Some l" by (simp add: NewARC_def NewLRU_def)
  then obtain c g where c: "NewInMemoryStore maxEntries defExpSeconds (1 * time_Minute) True ''exampe_inmemory_store'' = Inr (c, g, True)" "store_DefaultExp c = 30"
    by (simp add: NewInMemoryStore_def runJanitor_def Let_def time_Minute_def time_Second_def word_sless_alt maxEntries_def defExpSeconds_def)
  then show ?thesis using NewInMemoryStore_ok(1,2) [OF c(1)] by (auto simp: mem_ok_def)
qed

text \<open>What \<open>init\<close> leaves, whenever it gets there.\<close>

lemma example_running:
  assumes "example_init net genc gdec env k8s now n = Running ex"
  shows "lruExpiryCache ex = NewCacheWithPool (Some (StoreIface mem_ops)) Writable L1 sharedSecret defExpSeconds (Some (bytes_of_string ''mem'')) False"
    "mem_inv (w_store (lruWorld ex))" "mem_content (w_store (lruWorld ex)) = Map.empty" "store_DefaultExp (w_store (lruWorld ex)) = 30"
    "rc_defaultExpiration (w_store (memoryWorld ex)) = 30" "gc_DefaultExp (genericRedisCache ex) = 30 * time_Second" "gc_EncryptData (genericRedisCache ex)"
    "gc_sharedSecret (genericRedisCache ex) = bytes_of_string sharedSecret" "gc_KeyPrefix (genericRedisCache ex) = Some (bytes_of_string ''test'')"
proof -
  obtain c g where c: "NewInMemoryStore maxEntries defExpSeconds (1 * time_Minute) True ''exampe_inmemory_store'' = Inr (c, g, True)"
    "store_DefaultExp c = 30" "mem_inv c" "mem_content c = Map.empty" using example_lru by blast
  have r: "set_Logger lg (NewCacheWithMultiPools a b L2 sharedSecret defExpSeconds p True) = GenericCache a (Some (NewCacheWithPool b ReadOnly L2 sharedSecret defExpSeconds p True)) (bytes_of_string sharedSecret) (30 * time_Second) Writable L2 p lg True" for lg a b p
    by (simp add: NewCacheWithMultiPools_def NewCacheWithPool_def defExpSeconds_def)
  show "lruExpiryCache ex = NewCacheWithPool (Some (StoreIface mem_ops)) Writable L1 sharedSecret defExpSeconds (Some (bytes_of_string ''mem'')) False"
    "mem_inv (w_store (lruWorld ex))" "mem_content (w_store (lruWorld ex)) = Map.empty" "store_DefaultExp (w_store (lruWorld ex)) = 30"
    "rc_defaultExpiration (w_store (memoryWorld ex)) = 30" "gc_DefaultExp (genericRedisCache ex) = 30 * time_Second" "gc_EncryptData (genericRedisCache ex)"
    "gc_sharedSecret (genericRedisCache ex) = bytes_of_string sharedSecret" "gc_KeyPrefix (genericRedisCache ex) = Some (bytes_of_string ''test'')"
    using assms c unfolding example_init_def r
    by (auto simp: Let_def pm_New_def rc_New_def defExpSeconds_def split: prod.splits outcome.splits option.splits)
qed

text \<open>When the sentinel knows the master, \<open>init\<close> comes up with a Redis cache that is ready.\<close>

abbreviation example_store :: "string \<Rightarrow> string \<Rightarrow> Miniredis RedisStore" where
  "example_store addr pw \<equiv> sentinel_store addr ''mymaster'' pw defTimeoutMilliseconds defTimeoutMilliseconds (30 * time_Second) 2"

lemma example_redis:
  assumes "mini_inv host pw clk (Some (addr, ''mymaster'')) 2 {} m" "Getenv env ''REDIS_PASSWORD'' = pw"
    and "url_Parse (if Getenv env ''REDIS_SENTINEL_ADDRESS'' = [] then sentinelTestServer else Getenv env ''REDIS_SENTINEL_ADDRESS'') = Inr addr"
    and "storable genc gdec (VString ''1,2,3..'')" "storable genc gdec (VString ''this'')"
  shows "\<exists>ex. example_init mini_net genc gdec env k8s now m = Running ex
    \<and> gc_Cache (genericRedisCache ex) = Some (part_iface write_pool_of put_write_pool (redis_iface mini_net genc gdec (example_store addr pw)))
    \<and> mini_sentinel.quiet host pw clk addr ''mymaster'' 2 defTimeoutMilliseconds defTimeoutMilliseconds (30 * time_Second) (write_pool_of (w_store (redisWorld ex)))
    \<and> (\<forall>k. k \<notin> {''testing'', ''test''} \<longrightarrow> keys_of 2 (write_pool_of (w_store (redisWorld ex))) k = db_val (m_dbs m 2) k)"
proof -
  have d: "defExpSeconds = 30" by (simp add: defExpSeconds_def)
  obtain s lg' where 1: "InitRedisCache mini_net genc gdec (example_env env) k8s now True defExpSeconds None defTimeoutMilliseconds defTimeoutMilliseconds 2 m []
        = (Ret (Some (redis_iface mini_net genc gdec (example_store addr pw)), None), s, lg')"
    "\<forall>k. k \<notin> {''testing'', ''test''} \<longrightarrow> keys_of 2 s k = db_val (m_dbs m 2) k"
    "mini_sentinel.quiet host pw clk addr ''mymaster'' 2 defTimeoutMilliseconds defTimeoutMilliseconds (30 * time_Second) s"
    using sentinel_setup [where env = "example_env env" and st = "example_store addr pw", OF assms(1) example_env_simps(1) assms(3) _ _ assms(4,5) refl conjunct2 [OF ttl_30s], of k8s now "[]"] assms(2)
    unfolding d by (auto simp: example_env_simps)
  obtain ro lg1 where 2: "InitReadOnlyRedisCache mini_net genc gdec redisTestServer [] 0 0 defExpSeconds maxConnectionsAllowed 2 (ps_net s) lg' = (Ret (Some ro, None), new_pool (ps_net s), lg1)"
    using read_only_example [of mini_net genc gdec 2 "ps_net s" lg'] by auto
  obtain c g where 3: "NewInMemoryStore maxEntries defExpSeconds (1 * time_Minute) True ''exampe_inmemory_store'' = Inr (c, g, True)"
    using example_lru by blast
  have "write_pool_of \<lparr>p_net = ps_net (new_pool (ps_net s)), p_write = s, p_read = r\<rparr> = s" for r by (simp add: write_pool_of_def new_pool_def)
  then show ?thesis using 1(2,3) by (simp add: example_init_def useSentinel_def 1(1) 2 3 [simplified] Let_def NewCacheWithMultiPools_def NewCacheWithPool_def)
qed

text \<open>
  \<open>init\<close> comes up when the sentinel at \<open>REDIS_SENTINEL_ADDRESS\<close>, or at the default address, knows the master \<open>mymaster\<close>.
  The Redis cache encrypts and has a default expiry of 30 seconds; the default of the two in-memory
  stores themselves is 30 nanoseconds, because the same constant is passed to them as a duration.
\<close>

theorem example_started:
  assumes "mini_inv host pw clk (Some (addr, ''mymaster'')) 2 {} m" "Getenv env ''REDIS_PASSWORD'' = pw"
    and "url_Parse (if Getenv env ''REDIS_SENTINEL_ADDRESS'' = [] then sentinelTestServer else Getenv env ''REDIS_SENTINEL_ADDRESS'') = Inr addr"
    and "storable genc gdec (VString ''1,2,3..'')" "storable genc gdec (VString ''this'')"
  shows "\<exists>ex. example_init mini_net genc gdec env k8s now m = Running ex
    \<and> gc_EncryptData (genericRedisCache ex) \<and> gc_DefaultExp (genericRedisCache ex) = 30 * time_Second
    \<and> store_DefaultExp (w_store (lruWorld ex)) = 30 \<and> rc_defaultExpiration (w_store (memoryWorld ex)) = 30"
proof -
  obtain ex where ex: "example_init mini_net genc gdec env k8s now m = Running ex" using example_redis [OF assms, of k8s now] by blast
  with example_running(4-7) [OF ex] show ?thesis by simp
qed

lemma three_minutes:
  assumes "sane_clock set1" "sane_clock later" "nanos later \<le> (sint (t_sec set1) + 180) * 1000000000"
  shows "\<not> Expired later (mem_stored c set1 v (3 * time_Minute))"
proof -
  have e: "sint (t_sec set1 + go_div (3 * time_Minute) time_Second) = sint (t_sec set1) + 180" "sint (t_sec set1 + go_div (3 * time_Minute) time_Second) < 2 ^ 62"
    using sint_expiry [OF assms(1), of "3 * time_Minute"] by (simp_all add: time_Minute_def time_Second_def)
  have "ExpiresAt (mem_stored c set1 v (3 * time_Minute)) = t_sec set1 + go_div (3 * time_Minute) time_Second"
    by (simp add: mem_stored_def expiry_of_def FOREVER_def time_Minute_def time_Second_def)
  then show ?thesis using Expired_nanos [OF assms(2), of "mem_stored c set1 v (3 * time_Minute)"] e assms(3) by simp
qed

lemma served_from_cache:
  assumes "usable mem_ops c" "mem_inv (w_store w)" "gc_EncryptData c \<longrightarrow> gob_roundtrip enc dec served_data" "Data e = served_data"
    and "sane_clock set1" "sane_clock later" "nanos later \<le> (sint (t_sec set1) + 180) * 1000000000"
  shows "\<exists>w1 entry w2. background_set enc set0 set1 (GetKey c (bytes_of_string name), e, 3 * time_Minute) c w = (Ret None, w1)
    \<and> serve_entry dec name later now' c w1 = (Ret (entry, None), w2) \<and> Data entry = served_data \<and> TimeAdded entry = t_sec set1"
proof -
  let ?k = "GetKey c (bytes_of_string name)" and ?x = "3 * time_Minute"
  let ?r = "gc_Set enc set0 set1 ?k (box_entry e) ?x c w"
  obtain e' where e': "fst ?r = Ret None" "mem_inv (w_store (snd ?r))" "mem_content (w_store (snd ?r)) ?k = Some (mem_stored (w_store w) set1 (box_entry e') ?x)"
    "holds dec c (Data e) (Data e')"
    using mem.gc_Set_stores [OF assms(1,2), of enc dec e set0 set1 ?k ?x] assms(3,4) by (auto simp: time_Minute_def time_Second_def)
  have f: "\<not> Expired later (mem_stored (w_store w) set1 (box_entry e') ?x)" by (rule three_minutes [OF assms(5-7)])
  have "fst (gc_Get dec later ?k (TPtr TEntry) c (snd ?r)) = Ret (None, Some (box_entry ((mem_stored (w_store w) set1 (box_entry e') ?x)\<lparr>Data := served_data\<rparr>)))"
    using mem.gc_Get_held [OF assms(1) e'(2,3), of dec served_data later] e'(4) f assms(4) mem.stored_entry by simp
  then obtain w2 where g: "gc_Get dec later ?k (TPtr TEntry) c (snd ?r) = (Ret (None, Some (box_entry ((mem_stored (w_store w) set1 (box_entry e') ?x)\<lparr>Data := served_data\<rparr>))), w2)"
    by (metis prod.collapse)
  have "background_set enc set0 set1 (?k, e, ?x) c w = (Ret None, snd ?r)" using e'(1) by (simp add: background_set_def prod_eq_iff)
  then show ?thesis using g by (simp add: serve_entry_def written_def mem_stored_def Let_def)
qed


section \<open>Examples\<close>

lemma demo_example: "\<exists>ex. example_init mini_net str_enc str_dec [''REDIS_SENTINEL_ADDRESS'' \<mapsto> ''redis://sentinel:26379'', ''REDIS_PASSWORD'' \<mapsto> ''pw''] None (time_Unix 1000) demo_site = Running ex"
proof -
  have "url_Parse ''redis://sentinel:26379'' = Inr ''sentinel:26379''" by code_simp
  then show ?thesis
    using example_redis [OF demo_site_inv, of "[''REDIS_SENTINEL_ADDRESS'' \<mapsto> ''redis://sentinel:26379'', ''REDIS_PASSWORD'' \<mapsto> ''pw'']", OF _ _ str_storable str_storable, of None "time_Unix 1000"]
    by (auto simp: Getenv_def)
qed

theorem example_started_witness:
  "\<exists>ex. example_init mini_net str_enc str_dec [''REDIS_SENTINEL_ADDRESS'' \<mapsto> ''redis://sentinel:26379'', ''REDIS_PASSWORD'' \<mapsto> ''pw''] None (time_Unix 1000) demo_site = Running ex
    \<and> gc_EncryptData (genericRedisCache ex)"
proof -
  have "url_Parse ''redis://sentinel:26379'' = Inr ''sentinel:26379''" by code_simp
  then show ?thesis
    using example_started [OF demo_site_inv, of "[''REDIS_SENTINEL_ADDRESS'' \<mapsto> ''redis://sentinel:26379'', ''REDIS_PASSWORD'' \<mapsto> ''pw'']", OF _ _ str_storable str_storable, of None "time_Unix 1000"]
    by (auto simp: Getenv_def)
qed


end
