(* ===== verification/PageStores.thy ===== *)
theory PageStores
  imports GinCacheSpec GenericCacheSpec RedisPoolSpec
begin

text \<open>
  Stores of values of one type beside the in-memory store: a Redis store whose server answers keeps values of
  every type, and a generic cache in front of a store of responses is one again.
\<close>

section \<open>Redis\<close>

text \<open>The text under a key with its time to live, and what \<open>Set\<close> leaves.\<close>

definition redis_form :: "(godata \<Rightarrow> error + bytes) \<Rightarrow> 'n RedisStore \<Rightarrow> godata \<Rightarrow> duration \<Rightarrow> string \<times> duration option" where
  "redis_form enc st v exp = (case Serialize enc v of Inr b \<Rightarrow> string_of_bytes b | Inl _ \<Rightarrow> [], the (ttl_of st exp))"

definition redis_carries :: "(bytes \<Rightarrow> gotype \<Rightarrow> error + godata) \<Rightarrow> string \<times> duration option \<Rightarrow> godata \<Rightarrow> bool" where
  "redis_carries dec e v \<longleftrightarrow> Deserialize dec (bytes_of_string (fst e)) (TPtr (type_of v)) = (None, Some v)"

context redis_pool
begin

definition redis_entry :: "'n pooled \<Rightarrow> string \<Rightarrow> (string \<times> duration option) option" where
  "redis_entry s k = map_option (\<lambda>v. (v, ttl (ps_net s) k)) (val (ps_net s) k)"

lemma objects:
  assumes "rs_pool st = pool"
  shows "object_store ty (redis_ops net enc dec st) quiet redis_entry (\<lambda>now e. True) (redis_carries dec)
    (\<lambda>s now. redis_form enc st) (\<lambda>v exp. storable enc dec v \<and> ttl_of st exp \<noteq> None)"
proof (unfold_locales, goal_cases)
  case (1 w v exp now k)
  then obtain b t where b: "Serialize enc v = Inr b" "ttl_of st exp = Some t" using Serialize_roundtrip by blast
  show ?case using set_stores [OF 1(1) assms b, of now k] b by (auto simp: redis_ops_def redis_entry_def redis_form_def)
next
  case (2 w v k e now)
  then show ?case using get_result [OF 2(1) assms, of dec now k "TPtr ty"]
    by (auto simp: redis_ops_def redis_entry_def redis_carries_def)
next
  case (3 w k now)
  then have "val (ps_net w) k = None" by (simp add: redis_entry_def)
  then show ?case using get_result [OF 3(1) assms, of dec now k "TPtr ty"] by (auto simp: redis_ops_def redis_entry_def)
next
  case (4 v exp w now)
  then obtain b where "Serialize enc v = Inr b" "Deserialize dec b (TPtr (type_of v)) = (None, Some v)"
    using Serialize_roundtrip by blast
  then show ?case by (simp add: redis_carries_def redis_form_def)
qed

end

interpretation sentinel_objects: object_store ty "redis_ops mini_net enc dec (sentinel_store addr master pw connMs rwMs exp d)"
    "mini_sentinel.quiet host pw clk addr master d connMs rwMs exp" "mini_sentinel.redis_entry d" "\<lambda>now e. True" "redis_carries dec"
    "\<lambda>s now. redis_form enc (sentinel_store addr master pw connMs rwMs exp d)"
    "\<lambda>v e. storable enc dec v \<and> ttl_of (sentinel_store addr master pw connMs rwMs exp d) e \<noteq> None"
    for ty enc dec host pw clk addr master connMs rwMs exp d
  by (rule mini_sentinel.objects) (rule refl)

section \<open>A generic cache in front\<close>

text \<open>A response is neither sealed nor unsealed: it goes through as it is, whatever \<open>EncryptData\<close> says.\<close>

lemma gc_responses:
  assumes "Option.bind (gc_Cache c) as_store = Some st" "t = (if exp \<noteq> 0 then exp else gc_DefaultExp c)"
  shows "m_Set st now k (VResponse code h d) t (w_store w) = (Ret None, s) \<Longrightarrow> \<exists>w'. gc_Set enc now0 now k (VResponse code h d) exp c w = (Ret None, w') \<and> w_store w' = s"
    "m_Get st now k (TPtr TResponse) (w_store w) = (Ret (e, out), s) \<Longrightarrow> e \<in> {None, Some ErrCacheMiss} \<Longrightarrow>
      \<exists>w'. gc_Get dec now k (TPtr TResponse) c w = (Ret (e, out), w') \<and> w_store w' = s"
  using assms bind_as_store [OF assms(1)]
  by (auto simp: gc_Set_def seal_def gc_Get_def fetch_def on_store_Some report_err_def Let_def)

context response_store
begin

lemma generic_cache:
  assumes "Option.bind (gc_Cache c) as_store = Some st"
  shows "response_store (gc_ops enc dec c) (\<lambda>w. inv (w_store w)) (\<lambda>w. entry (w_store w)) live carries
    (\<lambda>w now v exp. stored (w_store w) now v (if exp \<noteq> 0 then exp else gc_DefaultExp c)) (\<lambda>v exp. accepts v (if exp \<noteq> 0 then exp else gc_DefaultExp c))"
proof (unfold_locales, goal_cases)
  case (1 w v exp now k)
  let ?t = "if exp \<noteq> 0 then exp else gc_DefaultExp c"
  obtain code h d where v: "v = VResponse code h d" using 1(2) by (cases v) simp_all
  obtain s where s: "m_Set st now k (VResponse code h d) ?t (w_store w) = (Ret None, s)" "inv s" "entry s k = Some (stored (w_store w) now v ?t)" "stored s = stored (w_store w)"
    using set_object [OF 1] v by blast
  from gc_responses(1) [OF assms refl s(1), of enc now] s(2-4) v show ?case by (auto simp: gc_ops_def)
next
  case (2 w v k e now)
  obtain s where s: "m_Get st now k (TPtr TResponse) (w_store w) = (Ret (None, Some v), s)" "inv s" "entry s k = Some e"
    using get_object [OF 2] by blast
  from gc_responses(2) [OF assms refl s(1), of dec] s(2,3) show ?case by (auto simp: gc_ops_def)
next
  case (3 w k now)
  obtain s where s: "m_Get st now k (TPtr TResponse) (w_store w) = (Ret (Some ErrCacheMiss, None), s)" "inv s" "stored s = stored (w_store w)" "\<forall>e. entry s k = Some e \<longrightarrow> entry (w_store w) k = Some e"
    using get_missing [OF 3] by blast
  from gc_responses(2) [OF assms refl s(1), of dec] s(2-4) show ?case by (auto simp: gc_ops_def)
next
  case (4 v exp w now)
  then show ?case by (rule stored_carries)
qed

end

section \<open>A store that cannot be reached\<close>

text \<open>What the two ways to write a page make of an error of the store.\<close>

lemma write_string_fails:
  assumes "rw_Write (bytes_of_string line) w = ((n, None), w')" "m_Set store now key (VResponse st (h_header (rw_http w')) (bytes_of_string line)) ex s = (Ret (Some err), s')"
  shows "w_WriteString now line (CachedWriter (GinWriter w) st wr store ex key) s = (Ret (0, Some err), CachedWriter (GinWriter w') st wr store ex key, s')"
  using assms by (simp add: Let_def)

lemma write_fails:
  assumes "rw_Write d w = ((n, None), w')" "m_Set store now key (VResponse st (h_header (rw_http w')) d) ex s = (Ret (Some err), s')"
  shows "w_Write now d (CachedWriter (GinWriter w) st wr store ex key) s = (Ret (n, None), CachedWriter (GinWriter w') st wr store ex key, s')"
  using assms by (simp add: Let_def)

text \<open>
  C24: Without Redis a page is still served, but how the request ends depends on how the handler writes. With
  \<open>Write\<close> the error of the store is dropped; with \<open>String\<close>, which calls \<open>WriteString\<close>, the response goes out too and then
  the handler panics with the error of the store.
\<close>

theorem page_store_down:
  assumes "pool_get net (rs_pool rst) now s = (Some (Inl e1), s1)" "pool_get net (rs_pool rst) now' s1 = (Some (Inl err), s2)"
    and "0 <s code" "bodyAllowed code" "h = [(''Content-Type'', plainContentType)]"
    and "Serialize enc (VResponse 0 h (bytes_of_string line)) = Inr b" "Serialize enc (VResponse code [] (bytes_of_string line)) = Inr b'"
  shows "let (r, c) = CachePage extractor g name now (redis_ops net enc dec rst) expire (ctx_String now' code line []) (new_request uri s);
             (r', c') = CachePage extractor g name now (redis_ops net enc dec rst) expire
                          (run_actions now' [DoWriteHeader code, DoWrite (bytes_of_string line)]) (new_request uri s)
         in r = Panic (Error err) \<and> response c = (Some (code, h), bytes_of_string line)
          \<and> r' = Ret () \<and> response c' = (Some (code, []), bytes_of_string line)"
proof -
  let ?st = "redis_ops net enc dec rst" and ?body = "bytes_of_string line"
  obtain ks where ks: "start_span extractor g name (new_request uri s) = (Ret (), (new_request uri s)\<lparr>c_Keys := ks\<rparr>)"
    using start_span_new [of extractor g name uri s] by blast
  let ?c = "\<lambda>w. (log_line (Error ErrCacheMiss) ((new_request uri s)\<lparr>c_Keys := ks, c_state := s1\<rparr>))\<lparr>c_Writer := CachedWriter (GinWriter w) 0 False ?st expire (page_key uri)\<rparr>"
  have miss: "CachePage extractor g name now ?st expire handle (new_request uri s) = handle (?c fresh_writer)" for handle
    using rs_unreachable(1) [OF assms(1), of dec "page_key uri" "TPtr TResponse"]
    by (simp add: CachePage_def ks Let_def newCachedWriter_def log_line_def redis_ops_def del: Error.simps)
  let ?w = "\<lambda>h. fresh_writer\<lparr>rw_http := (rw_http fresh_writer)\<lparr>h_header := h\<rparr>, rw_status := code\<rparr>"
  have out: "\<exists>w'. rw_Write ?body (?w h) = ((int (length ?body), None), w') \<and> h_header (rw_http w') = h \<and> h_sent (rw_http w') = Some (code, h) \<and> h_body (rw_http w') = ?body" for h
    using ready_Write [of code h "[]" "?w h" ?body] assms(4) by (auto simp: ready_def fresh_writer_def)
  obtain w1 where w1: "rw_Write ?body (?w h) = ((int (length ?body), None), w1)" "h_header (rw_http w1) = h" "h_sent (rw_http w1) = Some (code, h)" "h_body (rw_http w1) = ?body"
    using out [of h] by blast
  obtain w2 where w2: "rw_Write ?body (?w []) = ((int (length ?body), None), w2)" "h_header (rw_http w2) = []" "h_sent (rw_http w2) = Some (code, [])" "h_body (rw_http w2) = ?body"
    using out [of "[]"] by blast
  have s: "m_Set ?st now' (page_key uri) (VResponse 0 h ?body) expire s1 = (Ret (Some err), s2)" "m_Set ?st now' (page_key uri) (VResponse code [] ?body) expire s1 = (Ret (Some err), s2)"
    using rs_unreachable(2) [OF assms(2) assms(6)] rs_unreachable(2) [OF assms(2) assms(7)] by (simp_all add: redis_ops_def)
  have f: "rw_WriteHeader code fresh_writer = ?w []" "bodyAllowedForStatus code" using assms(3,4) by (auto simp: rw_WriteHeader_def fresh_writer_def bodyAllowed_def bodyAllowedForStatus_def)
  have ct: "writeContentType plainContentType (CachedWriter (GinWriter (?w [])) 0 False ?st expire (page_key uri)) = CachedWriter (GinWriter (?w h)) 0 False ?st expire (page_key uri)"
    by (simp add: writeContentType_def fresh_writer_def assms(5))
  have rendered: "ctx_String now' code line [] (?c fresh_writer) = (Panic (Error err), (?c fresh_writer)\<lparr>c_Writer := CachedWriter (GinWriter w1) 0 False ?st expire (page_key uri), c_state := s2\<rparr>)"
    using write_string_fails [OF w1(1), of ?st now' "page_key uri" 0 expire s1 err s2] s(1) w1(2) f ct
    by (simp add: ctx_String_def ctx_Render_def ctx_Status_def render_String_def render_WriteString_def log_line_def Let_def del: Error.simps w_WriteString.simps)
  have plain: "run_actions now' [DoWriteHeader code, DoWrite ?body] (?c fresh_writer) = (Ret (), (?c fresh_writer)\<lparr>c_Writer := CachedWriter (GinWriter w2) code True ?st expire (page_key uri), c_state := s2\<rparr>)"
    using write_fails [OF w2(1), of ?st now' "page_key uri" code expire s1 err s2] s(2) w2(2) f(1) by (simp add: log_line_def del: Error.simps w_Write.simps)
  show ?thesis unfolding miss rendered plain using w1 w2 by (simp add: response_def Let_def)
qed

theorem page_store_down_witness:
  "let (r, c) = CachePage (\<lambda>_. None) 1 ''s'' (time_Unix 1000) (redis_ops mini_net (\<lambda>_. Inr []) no_gob_dec (mini_redis ''elsewhere'' [] (60 * time_Second) 2)) FOREVER
      (ctx_String (time_Unix 1001) 200 ''hello'' []) (new_request ''/p'' (demo_server Map.empty Map.empty))
   in r = Panic ''connect: connection refused'' \<and> snd (response c) = bytes_of_string ''hello''"
proof -
  have "pool_get mini_net (rs_pool (mini_redis ''elsewhere'' [] (60 * time_Second) 2)) now (demo_server Map.empty Map.empty)
      = (Some (Inl (ErrExt ''connect: connection refused'')), demo_server Map.empty Map.empty)" for now
    by (simp add: pool_get_def demo_server_def new_pool_def NewRedisCache_def waits_def dial_new_def started_def mini_net_def mini_Dial_def Let_def)
  from page_store_down [OF this this _ _ refl, where now = "time_Unix 1000" and now' = "time_Unix 1001" and code = 200 and enc = "\<lambda>_. Inr []" and line = "''hello''" and b = "[]" and b' = "[]"
      and extractor = "\<lambda>_. None" and g = 1 and name = "''s''" and dec = no_gob_dec and expire = FOREVER and uri = "''/p''"]
  show ?thesis by (simp add: Serialize_def bodyAllowed_def word_sless_alt case_prod_beta Let_def)
qed

end
