(* ===== verification/ExamplePages.thy ===== *)
theory ExamplePages
  imports ExampleSpec PageStores
begin

text \<open>
  The route \<open>/cached-page\<close> of the example program, from the start of the program over the page cache, the generic
  cache, the pool behind the sentinel and the Redis store down to the server.
\<close>

section \<open>A store that works on a part of the state\<close>

context object_store
begin

lemma part_of_state:
  assumes "\<And>s w. get (put s w) = s"
  shows "object_store ty (part_store get put st) (\<lambda>w. inv (get w)) (\<lambda>w. entry (get w)) live carries (\<lambda>w. stored (get w)) accepts"
proof (unfold_locales, goal_cases)
  case (1 w v exp now k)
  then show ?case using set_object [OF 1, of now k] by (fastforce simp: part_store_def part_def assms)
next
  case (2 w v k e now)
  then show ?case using get_object [OF 2] by (fastforce simp: part_store_def part_def assms)
next
  case (3 w k now)
  then show ?case using get_missing [OF 3] by (fastforce simp: part_store_def part_def assms)
next
  case (4 v exp w now)
  then show ?case by (rule stored_carries)
qed

end

lemma write_pool [simp]: "write_pool_of (put_write_pool s p) = s"
  by (simp add: write_pool_of_def put_write_pool_def)

section \<open>The store of the example's pages\<close>

abbreviation example_quiet :: "string \<Rightarrow> string \<Rightarrow> Time \<Rightarrow> string \<Rightarrow> Miniredis pools world \<Rightarrow> bool" where
  "example_quiet host pw clk addr w \<equiv>
     mini_sentinel.quiet host pw clk addr ''mymaster'' 2 defTimeoutMilliseconds defTimeoutMilliseconds (30 * time_Second) (write_pool_of (w_store w))"

abbreviation example_entry :: "Miniredis pools world \<Rightarrow> string \<Rightarrow> (string \<times> duration option) option" where
  "example_entry w \<equiv> mini_sentinel.redis_entry 2 (write_pool_of (w_store w))"

lemma example_pages:
  assumes "gc_Cache c = Some (part_iface write_pool_of put_write_pool (redis_iface mini_net genc gdec (example_store addr pw)))"
  shows "response_store (gc_ops enc dec c) (example_quiet host pw clk addr) example_entry (\<lambda>now e. True) (redis_carries gdec)
    (\<lambda>w now v exp. redis_form genc (example_store addr pw) v (if exp \<noteq> 0 then exp else gc_DefaultExp c))
    (\<lambda>v exp. storable genc gdec v \<and> ttl_of (example_store addr pw) (if exp \<noteq> 0 then exp else gc_DefaultExp c) \<noteq> None)"
  using response_store.generic_cache [OF response_store.intro [OF object_store.part_of_state [OF sentinel_objects.object_store_axioms,
        where get = write_pool_of and put = put_write_pool], OF write_pool], where c = c and enc = enc and dec = dec]
  by (simp add: assms redis_iface_def)

text \<open>Five minutes.\<close>

lemma ttl_5min: "ttl_of st (5 * time_Minute) = Some (Some (5 * time_Minute))" "sint (5 * time_Minute) = 300000000000" "5 * time_Minute \<noteq> 0"
  by (simp_all add: ttl_of_def effective_def secs32_def DEFAULT_def FOREVER_def time_Second_def time_Minute_def go_div_def word_sless_alt Let_def)

text \<open>Time passes on the server.\<close>

definition later_world :: "duration \<Rightarrow> Miniredis pools world \<Rightarrow> Miniredis pools world" where
  "later_world t w = w\<lparr>w_store := (w_store w)\<lparr>p_net := FastForward t (p_net (w_store w))\<rparr>\<rparr>"

lemma later_pool: "write_pool_of (w_store (later_world t w)) = (write_pool_of (w_store w))\<lparr>ps_net := FastForward t (ps_net (write_pool_of (w_store w)))\<rparr>"
  by (simp add: later_world_def write_pool_of_def)

lemma later_quiet: "example_quiet host pw clk addr w \<Longrightarrow> example_quiet host pw clk addr (later_world t w)"
  unfolding later_pool by (auto simp: mini_sentinel.quiet_def intro: FastForward_inv)

lemma later_entry:
  assumes "example_quiet host pw clk addr w" "example_entry w k = Some (v, Some l)" "0 < sint l" "0 \<le> sint t"
  shows "example_entry (later_world t w) k = (if sint l \<le> sint t then None else Some (v, Some (l - t)))"
proof -
  have "db_wf (m_dbs (p_net (w_store w)) 2)" using assms(1) by (simp add: mini_sentinel.quiet_def mini_inv_def write_pool_of_def)
  then show ?thesis using assms(2-4) sint_sub_pos [OF assms(3,4)]
    by (auto simp: later_world_def mini_sentinel.redis_entry_def write_pool_of_def FastForward_def fastForward_def Let_def split: option.splits)
qed

section \<open>The route\<close>

definition page_header :: header where
  "page_header = [(''X-Okay-To-Cache'', [''true'']), (''Content-Type'', [''text/plain; charset=utf-8''])]"

definition page_body :: bytes where
  "page_body = bytes_of_string (''Cached Hello world!'' @ [CHR 0x0A])"

lemma page_header_facts:
  "page_header = header_put ''Content-Type'' plainContentType (header_Set ''x-okay-to-cache'' ''true'' [])"
  "CanonicalHeaderKey ''x-okay-to-cache'' \<noteq> ''Content-Type''" "header_wf page_header" "header_Get ''x-okay-to-cache'' page_header \<noteq> []"
  "bodyAllowed 200" "0 <s (200 :: int64)" "sent_status 0 = 200"
proof -
  show "page_header = header_put ''Content-Type'' plainContentType (header_Set ''x-okay-to-cache'' ''true'' [])" by code_simp
  show "CanonicalHeaderKey ''x-okay-to-cache'' \<noteq> ''Content-Type''" by code_simp
  have "CanonicalHeaderKey ''X-Okay-To-Cache'' = ''X-Okay-To-Cache''" "CanonicalHeaderKey ''Content-Type'' = ''Content-Type''" by code_simp+
  then show "header_wf page_header" by (simp add: header_wf_def page_header_def)
  show "header_Get ''x-okay-to-cache'' page_header \<noteq> []" by code_simp
  show "bodyAllowed 200" "0 <s (200 :: int64)" "sent_status 0 = 200" by (simp_all add: bodyAllowed_def sent_status_def word_sless_alt)
qed

lemma page_key_other: "page_key uri \<notin> {''testing'', ''test''}"
  by (simp add: urlEscape_def PageCachePrefix_def Let_def)

lemma greeting_cached:
  assumes "gc_Cache c = Some (part_iface write_pool_of put_write_pool (redis_iface mini_net genc gdec (example_store addr pw)))"
    and "example_quiet host pw clk addr w" "example_entry w (page_key uri) = None" "storable genc gdec (VResponse 0 page_header page_body)"
  shows "\<exists>c1. CachePage extractor g name now (gc_ops enc dec c) (5 * time_Minute) (cached_hello now') (new_request uri w) = (Ret (), c1)
      \<and> response c1 = (Some (200, page_header), page_body) \<and> example_quiet host pw clk addr (c_state c1)
      \<and> example_entry (c_state c1) (page_key uri) = Some (redis_form genc (example_store addr pw) (VResponse 0 page_header page_body) (5 * time_Minute))"
proof -
  note pages = example_pages [OF assms(1), of enc dec host clk]
  note stored = response_store.text_stored [OF pages]
  note page = stored [OF assms(2), where extractor = extractor and g = g and name = name and uri = uri and now = now and now' = now' and code = 200 and h = page_header
      and expire = "5 * time_Minute" and k = "''x-okay-to-cache''" and v = "''true''", unfolded if_P [OF ttl_5min(3)]]
  show ?thesis unfolding cached_hello_def page_body_def
  proof (rule page, goal_cases)
    case 1
    show ?case using assms(3) by simp
  next
    case 6
    show ?case using assms(4) by (simp add: page_body_def ttl_5min)
  qed (rule page_header_facts)+
qed

text \<open>
  C8: \<open>/cached-page\<close>, from the start of the program on: the first request is answered with the greeting, and the response is
  then in Redis as gob wrote it, although the cache encrypts. For the next five minutes of the
  server's clock the page comes from the cache with the same status, headers and body, whatever the
  handler would do; after that the handler runs again.
\<close>

theorem cached_page_route:
  assumes "mini_inv host pw clk (Some (addr, ''mymaster'')) 2 {} m" "Getenv env ''REDIS_PASSWORD'' = pw"
    and "url_Parse (if Getenv env ''REDIS_SENTINEL_ADDRESS'' = [] then sentinelTestServer else Getenv env ''REDIS_SENTINEL_ADDRESS'') = Inr addr"
    and "storable genc gdec (VString ''1,2,3..'')" "storable genc gdec (VString ''this'')"
    and "genc (VResponse 0 page_header page_body) = Inr b" "gdec b (TPtr TResponse) = Inr (VResponse 0 page_header page_body)"
    and "db_val (m_dbs m 2) (page_key uri) = None" "0 \<le> sint elapsed"
  shows "\<exists>ex c1. example_init mini_net genc gdec env k8s t0 m = Running ex \<and> gc_EncryptData (genericRedisCache ex)
    \<and> cached_page enc dec extractor g name now now' ex (new_request uri (redisWorld ex)) = (Ret (), c1)
    \<and> response c1 = (Some (200, page_header), page_body)
    \<and> db_val (m_dbs (p_net (w_store (c_state c1))) 2) (page_key uri) = Some (string_of_bytes b)
    \<and> (if sint elapsed < 300000000000
       then \<exists>c2. page_route enc dec extractor' g' name' later ex handle (new_request uri (later_world elapsed (c_state c1))) = (Ret (), c2)
         \<and> response c2 = response c1
       else \<exists>c. page_route enc dec extractor' g' name' later ex handle (new_request uri (later_world elapsed (c_state c1))) = handle c)"
proof -
  obtain ex where ex: "example_init mini_net genc gdec env k8s t0 m = Running ex"
    "gc_Cache (genericRedisCache ex) = Some (part_iface write_pool_of put_write_pool (redis_iface mini_net genc gdec (example_store addr pw)))"
    "example_quiet host pw clk addr (redisWorld ex)"
    "keys_of 2 (write_pool_of (w_store (redisWorld ex))) (page_key uri) = None"
    using example_redis [OF assms(1-5), of k8s t0] page_key_other [of uri] assms(8) by (elim exE conjE) simp
  note pages = example_pages [OF ex(2), where enc = enc and dec = dec and host = host and clk = clk]
  have acc: "storable genc gdec (VResponse 0 page_header page_body)" using assms(6,7) by (simp add: storable_def gob_ok_def)
  have form: "redis_form genc (example_store addr pw) (VResponse 0 page_header page_body) (5 * time_Minute) = (string_of_bytes b, Some (5 * time_Minute))"
    using assms(6) by (simp add: redis_form_def Serialize_def ttl_5min(1))
  have "\<exists>c1. cached_page enc dec extractor g name now now' ex (new_request uri (redisWorld ex)) = (Ret (), c1)
      \<and> response c1 = (Some (200, page_header), page_body) \<and> example_quiet host pw clk addr (c_state c1)
      \<and> example_entry (c_state c1) (page_key uri) = Some (string_of_bytes b, Some (5 * time_Minute))"
    unfolding cached_page_def page_route_def form [symmetric]
    by (rule greeting_cached [OF ex(2,3) _ acc]) (use ex(4) in \<open>simp add: mini_sentinel.redis_entry_def keys_of_def\<close>)
  then obtain c1 where c1: "cached_page enc dec extractor g name now now' ex (new_request uri (redisWorld ex)) = (Ret (), c1)"
    "response c1 = (Some (200, page_header), page_body)" "example_quiet host pw clk addr (c_state c1)"
    "example_entry (c_state c1) (page_key uri) = Some (string_of_bytes b, Some (5 * time_Minute))" by blast
  have db: "db_val (m_dbs (p_net (w_store (c_state c1))) 2) (page_key uri) = Some (string_of_bytes b)"
    using c1(4) by (simp add: mini_sentinel.redis_entry_def write_pool_of_def)
  let ?s = "later_world elapsed (c_state c1)"
  note q = later_quiet [OF c1(3), of elapsed]
  have e: "example_entry ?s (page_key uri) = (if 300000000000 \<le> sint elapsed then None else Some (string_of_bytes b, Some (5 * time_Minute - elapsed)))"
    using later_entry [OF c1(3,4) _ assms(9)] ttl_5min(2) by simp
  have hit: "\<exists>c2. page_route enc dec extractor' g' name' later ex handle (new_request uri ?s) = (Ret (), c2) \<and> response c2 = response c1"
    if "sint elapsed < 300000000000"
  proof -
    have carries: "redis_carries gdec (string_of_bytes b, Some (5 * time_Minute - elapsed)) (VResponse 0 page_header page_body)"
      using assms(7) by (simp add: redis_carries_def Deserialize_def decoded_def)
    note hits = response_store.hit_replays [OF pages]
    from carries hits [OF q, where uri = uri and now = later and status = 0 and h = page_header and d = page_body and extractor = extractor' and g = g' and name = name' and expire = "5 * time_Minute" and handle = handle]
    show ?thesis using that e page_header_facts(3-5,7) c1(2) by (auto simp: page_route_def)
  qed
  have miss: "\<exists>c. page_route enc dec extractor' g' name' later ex handle (new_request uri ?s) = handle c" if "\<not> sint elapsed < 300000000000"
  proof -
    note misses = response_store.miss_runs_handler [OF pages]
    have none: "\<forall>e. example_entry ?s (page_key uri) = Some e \<longrightarrow> \<not> True" using that e by simp
    show ?thesis unfolding page_route_def
      by (rule misses [OF q none, where now = later and extractor = extractor' and g = g' and name = name' and expire = "5 * time_Minute" and handle = handle]) (rule exI)
  qed
  show ?thesis by (intro exI conjI, rule ex(1), rule example_running(7) [OF ex(1)], rule c1(1), rule c1(2), rule db) (use hit miss in simp)
qed

section \<open>Example\<close>

text \<open>A codec that keeps the body of the page.\<close>

definition page_enc :: "godata \<Rightarrow> error + bytes" where
  "page_enc v = (case v of VString s \<Rightarrow> Inr (bytes_of_string s) | VResponse code h d \<Rightarrow> Inr d | _ \<Rightarrow> Inl (ErrExt ''gob''))"

definition page_dec :: "bytes \<Rightarrow> gotype \<Rightarrow> error + godata" where
  "page_dec b ty = Inr (if ty = TPtr TResponse then VResponse 0 page_header b else VString (string_of_bytes b))"

theorem cached_page_route_witness:
  "\<exists>ex c1 c2. example_init mini_net page_enc page_dec [''REDIS_SENTINEL_ADDRESS'' \<mapsto> ''redis://sentinel:26379'', ''REDIS_PASSWORD'' \<mapsto> ''pw''] None (time_Unix 1000) demo_site = Running ex
    \<and> cached_page string_enc string_dec (\<lambda>_. None) 1 ''s'' (time_Unix 1000) (time_Unix 1000) ex (new_request ''/cached-page'' (redisWorld ex)) = (Ret (), c1)
    \<and> page_route string_enc string_dec (\<lambda>_. None) 1 ''t'' (time_Unix 1060) ex (hello (time_Unix 1060)) (new_request ''/cached-page'' (later_world (60 * time_Second) (c_state c1))) = (Ret (), c2)
    \<and> response c2 = (Some (200, page_header), page_body)"
proof -
  have url: "url_Parse ''redis://sentinel:26379'' = Inr ''sentinel:26379''" by code_simp
  have codec: "storable page_enc page_dec (VString v)" "page_enc (VResponse 0 page_header page_body) = Inr page_body" "page_dec page_body (TPtr TResponse) = Inr (VResponse 0 page_header page_body)" for v
    by (simp_all add: storable_def gob_ok_def page_enc_def page_dec_def)
  have db: "db_val (m_dbs demo_site 2) k = None" for k by (simp add: demo_site_def)
  have t: "0 \<le> sint (60 * time_Second)" "sint (60 * time_Second) < 300000000000" by (simp_all add: time_Second_def)
  have "Getenv [''REDIS_SENTINEL_ADDRESS'' \<mapsto> ''redis://sentinel:26379'', ''REDIS_PASSWORD'' \<mapsto> ''pw''] ''REDIS_PASSWORD'' = ''pw''"
    "url_Parse (if Getenv [''REDIS_SENTINEL_ADDRESS'' \<mapsto> ''redis://sentinel:26379'', ''REDIS_PASSWORD'' \<mapsto> ''pw''] ''REDIS_SENTINEL_ADDRESS'' = [] then sentinelTestServer
      else Getenv [''REDIS_SENTINEL_ADDRESS'' \<mapsto> ''redis://sentinel:26379'', ''REDIS_PASSWORD'' \<mapsto> ''pw''] ''REDIS_SENTINEL_ADDRESS'') = Inr ''sentinel:26379''"
    using url by (simp_all add: Getenv_def)
  from cached_page_route [OF demo_site_inv this codec(1) codec(1) codec(2,3) db t(1), where k8s = None and ?t0.0 = "time_Unix 1000" and enc = string_enc and dec = string_dec and extractor = "\<lambda>_. None"
      and g = 1 and name = "''s''" and now = "time_Unix 1000" and now' = "time_Unix 1000" and uri = "''/cached-page''" and extractor' = "\<lambda>_. None" and g' = 1 and name' = "''t''" and later = "time_Unix 1060"
      and handle = "hello (time_Unix 1060)"] t(2)
  show ?thesis unfolding if_P [OF t(2)] by (elim exE conjE) (intro exI conjI, assumption+, simp)
qed

end
