(* ===== verification/SealedEntries.thy ===== *)
theory SealedEntries
  imports ExamplePages
begin

text \<open>
  Entries in a store that gives values back as they were set, such as Redis: what the generic cache, with or without
  encryption, makes of them, and the route \<open>/cached-encrypted-entry\<close> of the example program from its start on.
\<close>

section \<open>The generic cache over a store of entries\<close>

locale entry_store = object_store TEntry st inv entry live carries stored accepts
  for st :: "'w CacheStore" and inv :: "'w \<Rightarrow> bool" and entry :: "'w \<Rightarrow> string \<Rightarrow> 'e option" and live :: "Time \<Rightarrow> 'e \<Rightarrow> bool"
    and carries :: "'e \<Rightarrow> godata \<Rightarrow> bool" and stored :: "'w \<Rightarrow> Time \<Rightarrow> godata \<Rightarrow> duration \<Rightarrow> 'e" and accepts :: "godata \<Rightarrow> duration \<Rightarrow> bool"
begin

lemma reported:
  assumes "Option.bind (gc_Cache c) as_store = Some st" "inv (w_store w)" "accepts (box_entry e) t"
  shows "\<exists>w'. report_err m c (on_store (\<lambda>st. m_Set st now k (box_entry e) t) (gc_Cache c) w) = (Ret None, w') \<and> inv (w_store w')
    \<and> entry (w_store w') k = Some (stored (w_store w) now (box_entry e) t)"
  using set_object [OF assms(2) _ assms(3), of now k] by (auto simp: on_store_Some [OF assms(1)])

lemma sealed_set:
  assumes "usable st c" "gc_EncryptData c" "inv (w_store w)" "gob_roundtrip enc dec (Data e)" "t = (if exp \<noteq> 0 then exp else gc_DefaultExp c)"
    and "\<And>ct. accepts (box_entry (gc_NewGenericCacheEntry c now0 (VBytes ct) exp)) t"
  shows "\<exists>ct w'. gc_Set enc now0 now k (box_entry e) exp c w = (Ret None, w') \<and> inv (w_store w') \<and> holds dec c (Data e) (VBytes ct)
    \<and> entry (w_store w') k = Some (stored (w_store w) now (box_entry (gc_NewGenericCacheEntry c now0 (VBytes ct) exp)) t)"
proof -
  obtain ct b where s: "\<And>w. fst (seal enc now0 k (box_entry e) exp c w) = Ret (Inr (box_entry (gc_NewGenericCacheEntry c now0 (VBytes ct) exp)))"
    "\<And>w. w_store (snd (seal enc now0 k (box_entry e) exp c w)) = w_store w"
    and d: "\<And>w. decryptEntry c ct w = (Ret (Inr b), w)" "dec b = Inr (Data e)"
    using seal_entry [OF assms(2) _ assms(4)] assms(1,2) unfolding usable_def by metis
  let ?w = "logDebug c (Fmt ''GenericCache.Set: L%v/T%v key == %s'' (lt c @ [LStr k])) w"
  let ?w' = "snd (seal enc now0 k (box_entry e) exp c ?w)"
  have "gc_Set enc now0 now k (box_entry e) exp c w = report_err ''GenericCache.Set'' c
      (on_store (\<lambda>st. m_Set st now k (box_entry (gc_NewGenericCacheEntry c now0 (VBytes ct) exp)) t) (gc_Cache c) ?w')"
    using usable_cache [OF assms(1)] assms(2,5) s(1) [of ?w] by (cases "seal enc now0 k (box_entry e) exp c ?w") (auto simp: gc_Set_def)
  moreover have "holds dec c (Data e) (VBytes ct)" using d assms(2) by (auto simp: holds_def)
  moreover note reported [of c ?w', OF _ _ assms(6) [of ct], of "''GenericCache.Set''" now k]
  ultimately show ?thesis using assms(1,3) s(2) by (auto simp: usable_def)
qed

lemma plain_set:
  assumes "usable st c" "\<not> gc_EncryptData c" "inv (w_store w)" "t = (if exp \<noteq> 0 then exp else gc_DefaultExp c)" "accepts (box_entry e) t"
  shows "\<exists>w'. gc_Set enc now0 now k (box_entry e) exp c w = (Ret None, w') \<and> inv (w_store w')
    \<and> entry (w_store w') k = Some (stored (w_store w) now (box_entry e) t)"
proof -
  let ?w = "logDebug c (Fmt ''GenericCache.Set: L%v/T%v key == %s'' (lt c @ [LStr k])) w"
  have "gc_Set enc now0 now k (box_entry e) exp c w = report_err ''GenericCache.Set'' c (on_store (\<lambda>st. m_Set st now k (box_entry e) t) (gc_Cache c) ?w)"
    using usable_cache [OF assms(1)] assms(2,4) by (auto simp: gc_Set_def)
  then show ?thesis using reported [of c ?w, OF _ _ assms(5), of "''GenericCache.Set''" now k] assms(1,3) by (simp add: usable_def)
qed

text \<open>Either way the store holds an entry whose data stand for the given data.\<close>

lemma any_set:
  assumes "usable st c" "inv (w_store w)" "gc_EncryptData c \<longrightarrow> gob_roundtrip enc dec (Data e)" "t = (if exp \<noteq> 0 then exp else gc_DefaultExp c)"
    and "\<And>e'. if gc_EncryptData c then \<exists>ct. Data e' = VBytes ct else Data e' = Data e \<Longrightarrow> accepts (box_entry e') t"
  shows "\<exists>e' w'. gc_Set enc now0 now k (box_entry e) exp c w = (Ret None, w') \<and> inv (w_store w') \<and> holds dec c (Data e) (Data e')
    \<and> entry (w_store w') k = Some (stored (w_store w) now (box_entry e') t)"
proof (cases "gc_EncryptData c")
  case True
  have "accepts (box_entry (gc_NewGenericCacheEntry c now0 (VBytes ct) exp)) t" for ct using assms(5) True by (simp add: new_entry_data)
  from sealed_set [OF assms(1) True assms(2) _ assms(4) this, of enc dec e now k] assms(3) True obtain ct w' where
    s: "gc_Set enc now0 now k (box_entry e) exp c w = (Ret None, w')" "inv (w_store w')" "holds dec c (Data e) (VBytes ct)"
    "entry (w_store w') k = Some (stored (w_store w) now (box_entry (gc_NewGenericCacheEntry c now0 (VBytes ct) exp)) t)" by blast
  have "Data (gc_NewGenericCacheEntry c now0 (VBytes ct) exp) = VBytes ct" by (rule new_entry_data)
  then show ?thesis using s by metis
next
  case False
  from plain_set [OF assms(1) False assms(2,4), of e enc now0 now k] assms(5) False show ?thesis by (auto simp: holds_def)
qed

lemma held_get:
  assumes "usable st c" "inv (w_store w)" "entry (w_store w) k = Some x" "live now x" "carries x (box_entry e)" "holds dec c d (Data e)"
  shows "\<exists>w'. gc_Get dec now k (TPtr TEntry) c w = (Ret (None, Some (box_entry (e\<lparr>Data := d\<rparr>))), w') \<and> inv (w_store w') \<and> entry (w_store w') k = Some x"
proof -
  have b: "Option.bind (gc_Cache c) as_store = Some st" using assms(1) by (simp add: usable_def)
  obtain s where s: "m_Get st now k (TPtr TEntry) (w_store w) = (Ret (None, Some (box_entry e)), s)" "inv s" "entry s k = Some x"
    using get_object [OF assms(2) _ assms(3-5)] by auto
  show ?thesis using s assms(6)
    by (auto simp: gc_Get_entry [OF usable_cache [OF assms(1)]] fetch_entry_def fetch_def on_store_Some [OF b] unseal_def holds_def split: if_splits)
qed

lemma absent_get:
  assumes "usable st c" "inv (w_store w)" "\<forall>x. entry (w_store w) k = Some x \<longrightarrow> \<not> live now x"
  shows "\<exists>w'. gc_Get dec now k (TPtr TEntry) c w = (Ret (Some ErrCacheMiss, None), w') \<and> inv (w_store w') \<and> (\<forall>x. entry (w_store w') k = Some x \<longrightarrow> entry (w_store w) k = Some x)"
proof -
  have b: "Option.bind (gc_Cache c) as_store = Some st" using assms(1) by (simp add: usable_def)
  show ?thesis using get_missing [OF assms(2,3)]
    by (auto simp: gc_Get_entry [OF usable_cache [OF assms(1)]] fetch_entry_def fetch_def on_store_Some [OF b])
qed

text \<open>A route that keeps an entry: without one it makes one and starts a goroutine, with one it sends it.\<close>

lemma serve_absent:
  assumes "usable st c" "inv (w_store w)" "\<forall>x. entry (w_store w) (GetKey c (bytes_of_string name)) = Some x \<longrightarrow> \<not> live now x"
  shows "\<exists>w'. serve_entry dec name now now' c w =
      (let e = gc_NewGenericCacheEntry c now' served_data (3 * time_Minute) in (Ret (e, Some (GetKey c (bytes_of_string name), e, 3 * time_Minute)), w')) \<and> inv (w_store w')
    \<and> (\<forall>x. entry (w_store w') (GetKey c (bytes_of_string name)) = Some x \<longrightarrow> entry (w_store w) (GetKey c (bytes_of_string name)) = Some x)"
  using absent_get [OF assms, of dec] by (auto simp: serve_entry_def Let_def)

lemma serve_held:
  assumes "usable st c" "inv (w_store w)" "entry (w_store w) (GetKey c (bytes_of_string name)) = Some x" "live now x" "carries x (box_entry e)"
    and "holds dec c served_data (Data e)"
  shows "\<exists>w'. serve_entry dec name now now' c w = (Ret (e\<lparr>Data := served_data\<rparr>, None), w') \<and> inv (w_store w')
    \<and> entry (w_store w') (GetKey c (bytes_of_string name)) = Some x"
  using held_get [OF assms] by (auto simp: serve_entry_def written_def Let_def)

lemma background_sealed:
  assumes "usable st c" "gc_EncryptData c" "inv (w_store w)" "gob_roundtrip enc dec served_data" "Data e = served_data"
    and "\<And>ct. accepts (box_entry (gc_NewGenericCacheEntry c set0 (VBytes ct) (3 * time_Minute))) (3 * time_Minute)"
  shows "\<exists>ct w'. background_set enc set0 set1 (k, e, 3 * time_Minute) c w = (Ret None, w') \<and> inv (w_store w') \<and> holds dec c served_data (VBytes ct)
    \<and> entry (w_store w') k = Some (stored (w_store w) set1 (box_entry (gc_NewGenericCacheEntry c set0 (VBytes ct) (3 * time_Minute))) (3 * time_Minute))"
  using sealed_set [OF assms(1-3), of enc dec e "3 * time_Minute" "3 * time_Minute" set0 set1 k] assms(4-6)
  by (simp add: background_set_def time_Minute_def time_Second_def)

section \<open>Requests and goroutines in any order\<close>

definition route_fine :: "(bytes \<Rightarrow> error + godata) \<Rightarrow> string \<Rightarrow> 'w GenericCache \<Rightarrow> 'w route \<Rightarrow> bool" where
  "route_fine dec name c s \<longleftrightarrow> inv (w_store (rt_world s))
     \<and> (\<forall>x. entry (w_store (rt_world s)) (GetKey c (bytes_of_string name)) = Some x \<longrightarrow> (\<exists>e. carries x (box_entry e) \<and> holds dec c served_data (Data e)))
     \<and> (\<forall>(k, e, x) \<in> set (rt_jobs s). k = GetKey c (bytes_of_string name) \<and> Data e = served_data \<and> x = 3 * time_Minute)
     \<and> (\<forall>e \<in> set (rt_sent s). Data e = served_data)"

lemma fine_serves:
  assumes "usable st c" "route_fine dec name c s"
  shows "\<exists>e job w. serve_entry dec name now now' c (rt_world s) = (Ret (e, job), w) \<and> Data e = served_data \<and> inv (w_store w)
    \<and> (\<forall>x. entry (w_store w) (GetKey c (bytes_of_string name)) = Some x \<longrightarrow> entry (w_store (rt_world s)) (GetKey c (bytes_of_string name)) = Some x)
    \<and> (\<forall>j. job = Some j \<longrightarrow> j = (GetKey c (bytes_of_string name), e, 3 * time_Minute))"
proof -
  let ?k = "GetKey c (bytes_of_string name)" and ?w = "rt_world s"
  have i: "inv (w_store ?w)" using assms(2) by (simp add: route_fine_def)
  show ?thesis
  proof (cases "\<exists>x. entry (w_store ?w) ?k = Some x \<and> live now x")
    case True
    then obtain x where x: "entry (w_store ?w) ?k = Some x" "live now x" by blast
    then obtain e where e: "carries x (box_entry e)" "holds dec c served_data (Data e)" using assms(2) by (auto simp: route_fine_def)
    from serve_held [OF assms(1) i x e, of now'] x(1) show ?thesis by (elim exE conjE) (rule exI [of _ "e\<lparr>Data := served_data\<rparr>"], simp)
  next
    case False
    then have "\<forall>x. entry (w_store ?w) ?k = Some x \<longrightarrow> \<not> live now x" by blast
    from serve_absent [OF assms(1) i this, of dec now'] show ?thesis
      by (elim exE conjE) (rule exI [of _ "gc_NewGenericCacheEntry c now' served_data (3 * time_Minute)"], simp add: new_entry_data Let_def)
  qed
qed

lemma fine_step:
  assumes "route_step enc dec name c s s'" "usable st c" "route_fine dec name c s" "gc_EncryptData c \<longrightarrow> gob_roundtrip enc dec served_data"
    and "\<And>e. if gc_EncryptData c then \<exists>ct. Data e = VBytes ct else Data e = served_data \<Longrightarrow> accepts (box_entry e) (3 * time_Minute)"
  shows "route_fine dec name c s'"
  using assms(1)
proof (cases rule: route_step.cases)
  case (request now now' e job w)
  from fine_serves [OF assms(2,3), of now now'] obtain e1 j1 w1 where 1: "serve_entry dec name now now' c (rt_world s) = (Ret (e1, j1), w1)"
    and r: "Data e1 = served_data" "inv (w_store w1)"
    "\<forall>x. entry (w_store w1) (GetKey c (bytes_of_string name)) = Some x \<longrightarrow> entry (w_store (rt_world s)) (GetKey c (bytes_of_string name)) = Some x"
    "\<forall>j. j1 = Some j \<longrightarrow> j = (GetKey c (bytes_of_string name), e1, 3 * time_Minute)" by (elim exE conjE)
  have "(Ret (e1, j1), w1) = (Ret (e, job), w)" by (rule trans [OF 1 [symmetric] request(2)])
  then show ?thesis using assms(3) request(1) r by (auto simp: route_fine_def split: option.splits)
next
  case (background js j js' now0 now r w)
  obtain k e x where j: "j = (k, e, x)" by (cases j)
  have i: "inv (w_store (rt_world s))" and k: "k = GetKey c (bytes_of_string name)" "Data e = served_data" "x = 3 * time_Minute"
    using assms(3) background(2) j by (auto simp: route_fine_def)
  have t: "3 * time_Minute = (if 3 * time_Minute \<noteq> 0 then 3 * time_Minute else gc_DefaultExp c)" by (simp add: time_Minute_def time_Second_def)
  from any_set [OF assms(2) i _ t, of enc dec e now0 now k] assms(4,5) k(2) obtain e' w' where
    s: "gc_Set enc now0 now k (box_entry e) (3 * time_Minute) c (rt_world s) = (Ret None, w')" "inv (w_store w')" "holds dec c served_data (Data e')"
    "entry (w_store w') k = Some (stored (w_store (rt_world s)) now (box_entry e') (3 * time_Minute))" by auto
  have "if gc_EncryptData c then \<exists>ct. Data e' = VBytes ct else Data e' = served_data" using s(3) by (auto simp: holds_def)
  moreover have "w' = w" using s(1) background(3) j k(3) by (simp add: background_set_def)
  moreover have "carries (stored (w_store (rt_world s)) now (box_entry e') (3 * time_Minute)) (box_entry e')" by (rule stored_carries) (simp, rule assms(5), fact)
  ultimately show ?thesis using assms(3) background(1,2) s(2-4) k(1) by (auto simp: route_fine_def)
qed

lemma fine_reachable:
  assumes "(route_step enc dec name c)\<^sup>*\<^sup>* s s'" "usable st c" "route_fine dec name c s" "gc_EncryptData c \<longrightarrow> gob_roundtrip enc dec served_data"
    and "\<And>e. if gc_EncryptData c then \<exists>ct. Data e = VBytes ct else Data e = served_data \<Longrightarrow> accepts (box_entry e) (3 * time_Minute)"
  shows "route_fine dec name c s'"
  using assms(1) by (induction rule: rtranclp_induct) (auto intro: assms(3) fine_step [OF _ assms(2) _ assms(4,5)])

end

section \<open>The example's Redis cache\<close>

interpretation sentinel_entries: entry_store "redis_ops mini_net enc dec (sentinel_store addr master pw connMs rwMs exp d)"
    "mini_sentinel.quiet host pw clk addr master d connMs rwMs exp" "mini_sentinel.redis_entry d" "\<lambda>now e. True" "redis_carries dec"
    "\<lambda>s now. redis_form enc (sentinel_store addr master pw connMs rwMs exp d)"
    "\<lambda>v e. storable enc dec v \<and> ttl_of (sentinel_store addr master pw connMs rwMs exp d) e \<noteq> None"
    for enc dec host pw clk addr master connMs rwMs exp d
  by (rule entry_store.intro) (rule sentinel_objects.object_store_axioms)

lemma example_entries:
  "entry_store (part_store write_pool_of put_write_pool (redis_ops mini_net genc gdec (example_store addr pw)))
    (\<lambda>p. mini_sentinel.quiet host pw clk addr ''mymaster'' 2 defTimeoutMilliseconds defTimeoutMilliseconds (30 * time_Second) (write_pool_of p))
    (\<lambda>p. mini_sentinel.redis_entry 2 (write_pool_of p)) (\<lambda>now e. True) (redis_carries gdec) (\<lambda>p now. redis_form genc (example_store addr pw))
    (\<lambda>v e. storable genc gdec v \<and> ttl_of (example_store addr pw) e \<noteq> None)"
  by (rule entry_store.intro, rule sentinel_objects.part_of_state) simp

lemma ttl_3min: "ttl_of st (3 * time_Minute) = Some (Some (3 * time_Minute))" "sint (3 * time_Minute) = 180000000000"
  by (simp_all add: ttl_of_def effective_def secs32_def DEFAULT_def FOREVER_def time_Second_def time_Minute_def go_div_def word_sless_alt Let_def)

definition sealed_key :: string where
  "sealed_key = ''test::'' @ entrySignature (bytes_of_string ''cached-encrypted-entry'') (bytes_of_string sharedSecret)"

lemma example_key:
  assumes "example_init net genc gdec env k8s t0 n = Running ex"
  shows "GetKey (genericRedisCache ex) (bytes_of_string ''cached-encrypted-entry'') = sealed_key"
  using example_running(9) [OF assms] example_running(8) [OF assms] by (simp add: GetKey_eq sealed_key_def)

lemma sealed_key_other: "sealed_key \<notin> {''testing'', ''test''}"
  by (simp add: sealed_key_def)

lemma secret_long: "16 \<le> length (bytes_of_string sharedSecret)"
  by (simp add: sharedSecret_def bytes_of_string_def)

section \<open>The route\<close>

text \<open>What the store below needs of gob: sealed entries are decoded as they were encoded.\<close>

definition sealed_gob :: "(godata \<Rightarrow> error + bytes) \<Rightarrow> (bytes \<Rightarrow> gotype \<Rightarrow> error + godata) \<Rightarrow> bool" where
  "sealed_gob genc gdec \<longleftrightarrow> (\<forall>ct added expires. gob_ok genc gdec (box_entry \<lparr>Data = VBytes ct, TimeAdded = added, ExpiresAt = expires\<rparr>))"

lemma sealed_storable:
  assumes "sealed_gob genc gdec"
  shows "storable genc gdec (box_entry (gc_NewGenericCacheEntry c now (VBytes ct) exp))"
  using assms by (auto simp: sealed_gob_def storable_def box_entry_def gc_NewGenericCacheEntry_def NewGenericCacheEntry_def Let_def)

lemma example_usable:
  assumes "example_init net genc gdec env k8s t0 n = Running ex"
    and "gc_Cache (genericRedisCache ex) = Some (part_iface write_pool_of put_write_pool (redis_iface mini_net genc gdec (example_store addr pw)))"
  shows "usable (part_store write_pool_of put_write_pool (redis_ops mini_net genc gdec (example_store addr pw))) (genericRedisCache ex)"
  using assms(2) example_running(8) [OF assms(1)] secret_long by (simp add: usable_def redis_iface_def)

text \<open>The goroutine's \<open>Set\<close> and a request after it.\<close>

lemma sealed_in_redis:
  assumes "example_init net genc gdec env k8s t0 n = Running ex" "c = genericRedisCache ex"
    and "gc_Cache c = Some (part_iface write_pool_of put_write_pool (redis_iface mini_net genc gdec (example_store addr pw)))"
    and "example_quiet host pw clk addr w" "gob_roundtrip enc dec served_data" "sealed_gob genc gdec" "Data e = served_data"
  shows "\<exists>ct b w'. background_set enc set0 set1 (sealed_key, e, 3 * time_Minute) c w = (Ret None, w') \<and> example_quiet host pw clk addr w'
    \<and> holds dec c served_data (VBytes ct) \<and> genc (box_entry (gc_NewGenericCacheEntry c set0 (VBytes ct) (3 * time_Minute))) = Inr b
    \<and> gdec b (TPtr TEntry) = Inr (box_entry (gc_NewGenericCacheEntry c set0 (VBytes ct) (3 * time_Minute)))
    \<and> example_entry w' sealed_key = Some (string_of_bytes b, Some (3 * time_Minute))"
proof -
  note use = example_usable [OF assms(1) assms(3) [unfolded assms(2)], folded assms(2)]
  have crypt: "gc_EncryptData c" using example_running(7) [OF assms(1)] assms(2) by simp
  note background = entry_store.background_sealed [OF example_entries use crypt assms(4,5,7)]
  have acc: "storable genc gdec (box_entry (gc_NewGenericCacheEntry c set0 (VBytes ct) (3 * time_Minute))) \<and> ttl_of (example_store addr pw) (3 * time_Minute) \<noteq> None" for ct
    using sealed_storable [OF assms(6)] by (simp add: ttl_3min(1))
  obtain ct w' where w': "background_set enc set0 set1 (sealed_key, e, 3 * time_Minute) c w = (Ret None, w')" "example_quiet host pw clk addr w'" "holds dec c served_data (VBytes ct)"
    "example_entry w' sealed_key = Some (redis_form genc (example_store addr pw) (box_entry (gc_NewGenericCacheEntry c set0 (VBytes ct) (3 * time_Minute))) (3 * time_Minute))"
    using background [OF acc, where ?set1.0 = set1 and k = sealed_key] by (elim exE conjE)
  let ?e = "gc_NewGenericCacheEntry c set0 (VBytes ct) (3 * time_Minute)"
  have "gob_ok genc gdec (box_entry ?e)" using sealed_storable [OF assms(6), of c set0 ct "3 * time_Minute"] by (simp add: storable_def box_entry_def)
  then obtain b where b: "genc (box_entry ?e) = Inr b" "gdec b (TPtr TEntry) = Inr (box_entry ?e)" by (auto simp: gob_ok_def split: sum.splits)
  then have "redis_form genc (example_store addr pw) (box_entry ?e) (3 * time_Minute) = (string_of_bytes b, Some (3 * time_Minute))"
    by (simp add: redis_form_def Serialize_def box_entry_def ttl_3min(1))
  then show ?thesis using w' b by auto
qed

text \<open>
  C7: \<open>/cached-encrypted-entry\<close>, from the start of the program on: the first request is answered with a new entry, and
  its goroutine stores it. What is then in Redis is gob's form of an entry whose data are encrypted. For three
  minutes of the server's clock requests are answered with the decrypted data and start no goroutine;
  after that there is a new entry and a new goroutine.
\<close>

theorem encrypted_route:
  assumes "mini_inv host pw clk (Some (addr, ''mymaster'')) 2 {} m" "Getenv env ''REDIS_PASSWORD'' = pw"
    and "url_Parse (if Getenv env ''REDIS_SENTINEL_ADDRESS'' = [] then sentinelTestServer else Getenv env ''REDIS_SENTINEL_ADDRESS'') = Inr addr"
    and "storable genc gdec (VString ''1,2,3..'')" "storable genc gdec (VString ''this'')"
    and "gob_roundtrip enc dec (box_test getNewEntry)" "sealed_gob genc gdec"
    and "db_val (m_dbs m 2) sealed_key = None" "0 \<le> sint elapsed"
  shows "\<exists>ex entry job ex1 ct b w. example_init mini_net genc gdec env k8s t0 m = Running ex
    \<and> cached_encrypted_entry dec now now' ex = (Ret (entry, Some job), ex1) \<and> Data entry = box_test getNewEntry
    \<and> background_set enc set0 set1 job (genericRedisCache ex1) (redisWorld ex1) = (Ret None, w)
    \<and> genc (box_entry (gc_NewGenericCacheEntry (genericRedisCache ex) set0 (VBytes ct) (3 * time_Minute))) = Inr b
    \<and> db_val (m_dbs (p_net (w_store w)) 2) sealed_key = Some (string_of_bytes b)
    \<and> (if sint elapsed < 180000000000
       then \<exists>entry' ex2. cached_encrypted_entry dec later later' (ex1\<lparr>redisWorld := later_world elapsed w\<rparr>) = (Ret (entry', None), ex2)
         \<and> Data entry' = box_test getNewEntry \<and> TimeAdded entry' = t_sec set0
       else \<exists>entry' job' ex2. cached_encrypted_entry dec later later' (ex1\<lparr>redisWorld := later_world elapsed w\<rparr>) = (Ret (entry', Some job'), ex2)
         \<and> Data entry' = box_test getNewEntry)"
proof -
  obtain ex where ex: "example_init mini_net genc gdec env k8s t0 m = Running ex"
    "gc_Cache (genericRedisCache ex) = Some (part_iface write_pool_of put_write_pool (redis_iface mini_net genc gdec (example_store addr pw)))"
    "example_quiet host pw clk addr (redisWorld ex)" "keys_of 2 (write_pool_of (w_store (redisWorld ex))) sealed_key = None"
    using example_redis [OF assms(1-5), of k8s t0] sealed_key_other assms(8) by (elim exE conjE) simp
  let ?c = "genericRedisCache ex"
  note key = example_key [OF ex(1)] and use = example_usable [OF ex(1,2)]
  note absent = entry_store.serve_absent [OF example_entries use, where name = "''cached-encrypted-entry''", unfolded key]
  note present = entry_store.serve_held [OF example_entries use, where name = "''cached-encrypted-entry''", unfolded key]
  let ?e = "gc_NewGenericCacheEntry ?c now' served_data (3 * time_Minute)"
  obtain w1 where 1: "serve_entry dec ''cached-encrypted-entry'' now now' ?c (redisWorld ex) = (Ret (?e, Some (sealed_key, ?e, 3 * time_Minute)), w1)" "example_quiet host pw clk addr w1"
    using absent [OF ex(3), where now = now and dec = dec and now' = now'] ex(4) by (auto simp: mini_sentinel.redis_entry_def keys_of_def Let_def)
  obtain ct b w where 2: "background_set enc set0 set1 (sealed_key, ?e, 3 * time_Minute) ?c w1 = (Ret None, w)" "example_quiet host pw clk addr w"
    "holds dec ?c served_data (VBytes ct)" "genc (box_entry (gc_NewGenericCacheEntry ?c set0 (VBytes ct) (3 * time_Minute))) = Inr b"
    "gdec b (TPtr TEntry) = Inr (box_entry (gc_NewGenericCacheEntry ?c set0 (VBytes ct) (3 * time_Minute)))"
    "example_entry w sealed_key = Some (string_of_bytes b, Some (3 * time_Minute))"
    using sealed_in_redis [where e = ?e, OF ex(1) refl ex(2) 1(2) assms(6,7) new_entry_data, of set0 set1] by (elim exE conjE)
  let ?ex = "ex\<lparr>redisWorld := w1\<rparr>" and ?w = "later_world elapsed w"
  have first: "cached_encrypted_entry dec now now' ex = (Ret (?e, Some (sealed_key, ?e, 3 * time_Minute)), ?ex)" by (simp add: cached_encrypted_entry_def 1(1))
  have db: "db_val (m_dbs (p_net (w_store w)) 2) sealed_key = Some (string_of_bytes b)" using 2(6) by (simp add: mini_sentinel.redis_entry_def write_pool_of_def)
  have e: "example_entry ?w sealed_key = (if 180000000000 \<le> sint elapsed then None else Some (string_of_bytes b, Some (3 * time_Minute - elapsed)))"
    using later_entry [OF 2(2,6) _ assms(9)] ttl_3min(2) by simp
  let ?sealed = "gc_NewGenericCacheEntry ?c set0 (VBytes ct) (3 * time_Minute)"
  have hit: "\<exists>entry' ex2. cached_encrypted_entry dec later later' (?ex\<lparr>redisWorld := ?w\<rparr>) = (Ret (entry', None), ex2) \<and> Data entry' = served_data \<and> TimeAdded entry' = t_sec set0"
    if "sint elapsed < 180000000000"
  proof -
    have "redis_carries gdec (string_of_bytes b, Some (3 * time_Minute - elapsed)) (box_entry ?sealed)" using 2(5) by (simp add: redis_carries_def Deserialize_def decoded_def)
    moreover have "example_entry ?w sealed_key = Some (string_of_bytes b, Some (3 * time_Minute - elapsed))" using e that by simp
    moreover have "holds dec ?c served_data (Data ?sealed)" using 2(3) by (simp add: new_entry_data)
    ultimately obtain w3 where "serve_entry dec ''cached-encrypted-entry'' later later' ?c ?w = (Ret (?sealed\<lparr>Data := served_data\<rparr>, None), w3)"
      using present [OF later_quiet [OF 2(2), of elapsed], where now = later and e = ?sealed and dec = dec and now' = later'] by blast
    then show ?thesis by (simp add: cached_encrypted_entry_def gc_NewGenericCacheEntry_def NewGenericCacheEntry_def Let_def)
  qed
  have miss: "\<exists>entry' job' ex2. cached_encrypted_entry dec later later' (?ex\<lparr>redisWorld := ?w\<rparr>) = (Ret (entry', Some job'), ex2) \<and> Data entry' = served_data"
    if "\<not> sint elapsed < 180000000000"
    using absent [OF later_quiet [OF 2(2), of elapsed], where now = later and dec = dec and now' = later'] e that by (auto simp: cached_encrypted_entry_def new_entry_data Let_def)
  have second: "background_set enc set0 set1 (sealed_key, ?e, 3 * time_Minute) (genericRedisCache ?ex) (redisWorld ?ex) = (Ret None, w)" using 2(1) by simp
  show ?thesis
    by (intro exI conjI, rule ex(1), rule first, rule new_entry_data, rule second, rule 2(4), rule db) (use hit miss in simp)
qed

text \<open>
  C22: The same route with requests and goroutines in any order: every response carries the data of \<open>getNewEntry\<close>, however
  they were kept and encrypted in between, and every further request is answered.
\<close>

theorem encrypted_requests:
  assumes "mini_inv host pw clk (Some (addr, ''mymaster'')) 2 {} m" "Getenv env ''REDIS_PASSWORD'' = pw"
    and "url_Parse (if Getenv env ''REDIS_SENTINEL_ADDRESS'' = [] then sentinelTestServer else Getenv env ''REDIS_SENTINEL_ADDRESS'') = Inr addr"
    and "storable genc gdec (VString ''1,2,3..'')" "storable genc gdec (VString ''this'')"
    and "gob_roundtrip enc dec (box_test getNewEntry)" "sealed_gob genc gdec" "db_val (m_dbs m 2) sealed_key = None"
    and "example_init mini_net genc gdec env k8s t0 m = Running ex" "c = genericRedisCache ex" "name = ''cached-encrypted-entry''"
    and "(route_step enc dec name c)\<^sup>*\<^sup>* \<lparr>rt_world = redisWorld ex, rt_jobs = [], rt_sent = []\<rparr> s"
  shows "(\<forall>e \<in> set (rt_sent s). Data e = box_test getNewEntry)
    \<and> (\<exists>e job w. serve_entry dec name now now' c (rt_world s) = (Ret (e, job), w) \<and> Data e = box_test getNewEntry)"
proof -
  obtain ex' where ex': "example_init mini_net genc gdec env k8s t0 m = Running ex'"
    "gc_Cache (genericRedisCache ex') = Some (part_iface write_pool_of put_write_pool (redis_iface mini_net genc gdec (example_store addr pw)))"
    "example_quiet host pw clk addr (redisWorld ex')" "keys_of 2 (write_pool_of (w_store (redisWorld ex'))) sealed_key = None"
    using example_redis [OF assms(1-5), of k8s t0] sealed_key_other assms(8) by (elim exE conjE) simp
  then have "ex' = ex" using assms(9) by simp
  note ex = ex' [unfolded this]
  note use = example_usable [OF ex(1,2), folded assms(10)]
  have crypt: "gc_EncryptData c" using example_running(7) [OF ex(1)] assms(10) by simp
  let ?fine = "entry_store.route_fine (\<lambda>p. mini_sentinel.quiet host pw clk addr ''mymaster'' 2 defTimeoutMilliseconds defTimeoutMilliseconds (30 * time_Second) (write_pool_of p))
      (\<lambda>p. mini_sentinel.redis_entry 2 (write_pool_of p)) (redis_carries gdec) dec name c"
  have fine: "?fine \<lparr>rt_world = redisWorld ex, rt_jobs = [], rt_sent = []\<rparr>"
    unfolding entry_store.route_fine_def [OF example_entries [of genc gdec addr pw host clk]] using ex(3,4) example_key [OF ex(1)]
    by (simp add: assms(10,11) mini_sentinel.redis_entry_def keys_of_def)
  have acc: "storable genc gdec (box_entry e) \<and> ttl_of (example_store addr pw) (3 * time_Minute) \<noteq> None"
    if data: "if gc_EncryptData c then \<exists>ct. Data e = VBytes ct else Data e = served_data" for e
  proof -
    obtain ct where "Data e = VBytes ct" using data crypt by auto
    then have "e = \<lparr>Data = VBytes ct, TimeAdded = TimeAdded e, ExpiresAt = ExpiresAt e\<rparr>" by simp
    then have "gob_ok genc gdec (box_entry e)" using assms(7) unfolding sealed_gob_def by metis
    then show ?thesis by (simp add: storable_def box_entry_def ttl_3min(1))
  qed
  have gob: "gc_EncryptData c \<longrightarrow> gob_roundtrip enc dec served_data" using assms(6) by simp
  have reach: "?fine s" by (rule entry_store.fine_reachable [OF example_entries [of genc gdec addr pw host clk] assms(12) use fine gob]) (rule acc)
  have "\<forall>e \<in> set (rt_sent s). Data e = served_data"
    using reach unfolding entry_store.route_fine_def [OF example_entries [of genc gdec addr pw host clk]] by blast
  moreover have "\<exists>e job w. serve_entry dec name now now' c (rt_world s) = (Ret (e, job), w) \<and> Data e = served_data"
    using entry_store.fine_serves [OF example_entries [of genc gdec addr pw host clk] use reach, of now now'] by (elim exE conjE) (intro exI conjI)
  ultimately show ?thesis by (rule conjI)
qed

section \<open>Example\<close>

text \<open>A codec for strings and sealed entries: the two times in unary, then the bytes.\<close>

definition unary :: "int64 \<Rightarrow> bytes" where
  "unary n = replicate (unat n) 1 @ [0]"

definition entry_enc :: "godata \<Rightarrow> error + bytes" where
  "entry_enc v = (case v of VString s \<Rightarrow> Inr (bytes_of_string s) | VEntry (VBytes ct) added expires \<Rightarrow> Inr (unary added @ unary expires @ ct) | _ \<Rightarrow> Inl (ErrExt ''gob''))"

definition read_unary :: "bytes \<Rightarrow> int64 \<times> bytes" where
  "read_unary b = (of_nat (length (takeWhile (\<lambda>x. x = 1) b)), tl (dropWhile (\<lambda>x. x = 1) b))"

definition entry_dec :: "bytes \<Rightarrow> gotype \<Rightarrow> error + godata" where
  "entry_dec b ty =
     Inr (if ty = TPtr TEntry then (case read_unary b of (added, rest) \<Rightarrow> case read_unary rest of (expires, ct) \<Rightarrow> VEntry (VBytes ct) added expires)
          else VString (string_of_bytes b))"

lemma read_unary_append: "read_unary (unary n @ b) = (n, b)"
proof -
  have "takeWhile (\<lambda>x. x = 1) (replicate m (1 :: byte) @ 0 # b) = replicate m 1" "dropWhile (\<lambda>x. x = 1) (replicate m (1 :: byte) @ 0 # b) = 0 # b" for m
    by (induction m) simp_all
  then show ?thesis by (simp add: read_unary_def unary_def)
qed

lemma entry_codec: "storable entry_enc entry_dec (VString s)" "sealed_gob entry_enc entry_dec"
  by (simp_all add: storable_def sealed_gob_def gob_ok_def entry_enc_def entry_dec_def box_entry_def read_unary_append)

theorem encrypted_route_witness:
  "\<exists>ex entry job ex1 w entry' ex2.
      example_init mini_net entry_enc entry_dec [''REDIS_SENTINEL_ADDRESS'' \<mapsto> ''redis://sentinel:26379'', ''REDIS_PASSWORD'' \<mapsto> ''pw''] None (time_Unix 1000) demo_site = Running ex
    \<and> cached_encrypted_entry (\<lambda>_. Inr (box_test getNewEntry)) (time_Unix 1000) (time_Unix 1000) ex = (Ret (entry, Some job), ex1)
    \<and> background_set (\<lambda>_. Inr [1]) (time_Unix 1000) (time_Unix 1000) job (genericRedisCache ex1) (redisWorld ex1) = (Ret None, w)
    \<and> cached_encrypted_entry (\<lambda>_. Inr (box_test getNewEntry)) (time_Unix 1060) (time_Unix 1060) (ex1\<lparr>redisWorld := later_world (60 * time_Second) w\<rparr>) = (Ret (entry', None), ex2)
    \<and> TimeAdded entry' = t_sec (time_Unix 1000)"
proof -
  have url: "url_Parse ''redis://sentinel:26379'' = Inr ''sentinel:26379''" by code_simp
  have db: "db_val (m_dbs demo_site 2) sealed_key = None" by (simp add: demo_site_def)
  have gob: "gob_roundtrip (\<lambda>_. Inr [1]) (\<lambda>_. Inr (box_test getNewEntry)) (box_test getNewEntry)" by (simp add: gob_roundtrip_def)
  have t: "0 \<le> sint (60 * time_Second)" "sint (60 * time_Second) < 180000000000" by (simp_all add: time_Second_def)
  have "Getenv [''REDIS_SENTINEL_ADDRESS'' \<mapsto> ''redis://sentinel:26379'', ''REDIS_PASSWORD'' \<mapsto> ''pw''] ''REDIS_PASSWORD'' = ''pw''"
    "url_Parse (if Getenv [''REDIS_SENTINEL_ADDRESS'' \<mapsto> ''redis://sentinel:26379'', ''REDIS_PASSWORD'' \<mapsto> ''pw''] ''REDIS_SENTINEL_ADDRESS'' = [] then sentinelTestServer
      else Getenv [''REDIS_SENTINEL_ADDRESS'' \<mapsto> ''redis://sentinel:26379'', ''REDIS_PASSWORD'' \<mapsto> ''pw''] ''REDIS_SENTINEL_ADDRESS'') = Inr ''sentinel:26379''"
    using url by (simp_all add: Getenv_def)
  from encrypted_route [OF demo_site_inv this entry_codec(1) entry_codec(1) gob entry_codec(2) db t(1), where k8s = None and ?t0.0 = "time_Unix 1000" and now = "time_Unix 1000" and now' = "time_Unix 1000"
      and ?set0.0 = "time_Unix 1000" and ?set1.0 = "time_Unix 1000" and later = "time_Unix 1060" and later' = "time_Unix 1060"]
  show ?thesis unfolding if_P [OF t(2)] by (elim exE conjE) (intro exI conjI, assumption+)
qed

theorem encrypted_requests_witness:
  "\<exists>ex e job w. example_init mini_net entry_enc entry_dec [''REDIS_SENTINEL_ADDRESS'' \<mapsto> ''redis://sentinel:26379'', ''REDIS_PASSWORD'' \<mapsto> ''pw''] None (time_Unix 1000) demo_site = Running ex
    \<and> serve_entry (\<lambda>_. Inr (box_test getNewEntry)) ''cached-encrypted-entry'' (time_Unix 1000) (time_Unix 1000) (genericRedisCache ex) (redisWorld ex) = (Ret (e, job), w)
    \<and> Data e = box_test getNewEntry"
proof -
  have url: "url_Parse ''redis://sentinel:26379'' = Inr ''sentinel:26379''" by code_simp
  have db: "db_val (m_dbs demo_site 2) sealed_key = None" by (simp add: demo_site_def)
  have gob: "gob_roundtrip (\<lambda>_. Inr [1]) (\<lambda>_. Inr (box_test getNewEntry)) (box_test getNewEntry)" by (simp add: gob_roundtrip_def)
  let ?env = "[''REDIS_SENTINEL_ADDRESS'' \<mapsto> ''redis://sentinel:26379'', ''REDIS_PASSWORD'' \<mapsto> ''pw'']"
  have env: "Getenv ?env ''REDIS_PASSWORD'' = ''pw''"
    "url_Parse (if Getenv ?env ''REDIS_SENTINEL_ADDRESS'' = [] then sentinelTestServer else Getenv ?env ''REDIS_SENTINEL_ADDRESS'') = Inr ''sentinel:26379''"
    using url by (simp_all add: Getenv_def)
  obtain ex where ex: "example_init mini_net entry_enc entry_dec ?env None (time_Unix 1000) demo_site = Running ex"
    using example_redis [OF demo_site_inv env entry_codec(1) entry_codec(1), of None "time_Unix 1000"] by blast
  from encrypted_requests [OF demo_site_inv env entry_codec(1) entry_codec(1) gob entry_codec(2) db ex refl refl rtranclp.rtrancl_refl, of "time_Unix 1000" "time_Unix 1000"]
  obtain e job w where "serve_entry (\<lambda>_. Inr (box_test getNewEntry)) ''cached-encrypted-entry'' (time_Unix 1000) (time_Unix 1000) (genericRedisCache ex) (redisWorld ex) = (Ret (e, job), w)"
    "Data e = box_test getNewEntry" unfolding route.select_convs by (elim exE conjE)
  with ex show ?thesis by (intro exI conjI)
qed

end
