(* ===== verification/TestScenarios.thy ===== *)
theory TestScenarios
  imports RedisPool "HOL-Library.Monad_Syntax"
begin

text \<open>
  The scenarios that every store has to pass, \<open>src/generic_test_store.go\<close>.

  A test has a world (the cache under test and what is behind it), a clock and the list of the failures
  reported with \<open>t.Errorf\<close>, each with its format and arguments. The result \<open>None\<close> is a panic, which ends
  a test at once. Only \<open>time.Sleep\<close> moves the clock; what other goroutines and servers do in the
  meantime is the parameter \<open>others\<close>, which gets the time and the length of the sleep.
\<close>

section \<open>Tests\<close>

datatype targ = AErr "error option" | AUint uint64 | AInt int64 | AStr string | AEntry GenericCacheEntry

record 'w testing =
  t_world :: 'w
  t_now :: Time
  t_errors :: "(string \<times> targ list) list"
  t_logs :: "(string \<times> targ list) list"

definition errorf :: "bool \<Rightarrow> string \<Rightarrow> targ list \<Rightarrow> 'w testing \<Rightarrow> 'w testing" where
  "errorf failed f as t = (if failed then t\<lparr>t_errors := t_errors t @ [(f, as)]\<rparr> else t)"

definition logf :: "string \<Rightarrow> targ list \<Rightarrow> 'w testing \<Rightarrow> 'w testing" where
  "logf f as t = t\<lparr>t_logs := t_logs t @ [(f, as)]\<rparr>"

text \<open>A call into the code under test, at the time of the clock.\<close>

definition call :: "(Time \<Rightarrow> 'w \<Rightarrow> 'a outcome \<times> 'w) \<Rightarrow> 'w testing \<Rightarrow> ('a \<times> 'w testing) option" where
  "call f t = (case f (t_now t) (t_world t) of (Ret r, w) \<Rightarrow> Some (r, t\<lparr>t_world := w\<rparr>) | (Panic p, w) \<Rightarrow> None)"

definition Sleep :: "(Time \<Rightarrow> duration \<Rightarrow> 'w \<Rightarrow> 'w) \<Rightarrow> duration \<Rightarrow> 'w testing \<Rightarrow> 'w testing" where
  "Sleep others d t = t\<lparr>t_world := others (t_now t) d (t_world t), t_now := time_Add (t_now t) d\<rparr>"

definition time_Hour :: duration where
  "time_Hour = 3600 * time_Second"

definition MaxUint64 :: uint64 where
  "MaxUint64 = 18446744073709551615"

text \<open>What a variable holds after a \<open>Get\<close> through its address: the new value, or the old one if nothing was written.\<close>

definition var_int :: "godata option \<Rightarrow> int64 \<Rightarrow> int64" where
  "var_int out old = (case out of Some (VInt i) \<Rightarrow> i | _ \<Rightarrow> old)"

definition var_string :: "godata option \<Rightarrow> string \<Rightarrow> string" where
  "var_string out old = (case out of Some (VString s) \<Rightarrow> s | _ \<Rightarrow> old)"

text \<open>
  A factory makes a new cache with the given default expiry; \<open>tested_cache\<close> is what its result may be: a
  generic cache or another store.
\<close>

datatype 's tested_cache = IsGeneric "'s GenericCache" | IsStore "'s world CacheStore"

fun as_CacheStore ::
  "(godata \<Rightarrow> error + bytes) \<Rightarrow> (bytes \<Rightarrow> error + godata) \<Rightarrow> 's tested_cache \<Rightarrow> 's world CacheStore" where
  "as_CacheStore enc dec (IsGeneric c) = gc_ops enc dec c"
| "as_CacheStore enc dec (IsStore st) = st"

fun as_GenericCache :: "'s tested_cache \<Rightarrow> 's GenericCache option" where
  "as_GenericCache (IsGeneric c) = Some c"
| "as_GenericCache (IsStore st) = None"

type_synonym ('w, 'c) factory = "duration \<Rightarrow> 'w testing \<Rightarrow> ('c \<times> 'w testing) option"

section \<open>The scenarios\<close>

definition typicalGetSet ::
  "(godata \<Rightarrow> error + bytes) \<Rightarrow> (bytes \<Rightarrow> error + godata) \<Rightarrow> ('s world, 's tested_cache) factory \<Rightarrow> 's world testing \<Rightarrow> 's world testing option" where
  "typicalGetSet enc dec newCache t = do {
     (c, t) \<leftarrow> newCache time_Hour t;
     let value = ''foo'';
     (err, t) \<leftarrow> call (\<lambda>now. m_Set (as_CacheStore enc dec c) now ''value'' (VString value) DEFAULT) t;
     let t = errorf (err \<noteq> None) ''Error setting a value: %s'' [AErr err] t;
     (_, t) \<leftarrow> call (\<lambda>now. m_Get (as_CacheStore enc dec c) now ''value'' (TPtr TString)) t;
     g \<leftarrow> as_GenericCache c;
     ((err, out), t) \<leftarrow> call (\<lambda>now. gc_Get dec now ''value'' (TPtr TString) g) t;
     let value = var_string out [];
     let t = errorf (err \<noteq> None) ''Error getting a value: %s'' [AErr err] t;
     let t = errorf (value \<noteq> ''foo'') ''Expected to get foo back, got %s'' [AStr value] t;
     let exp = 3 * time_Minute;
     let entry = gc_NewGenericCacheEntry g (t_now t) (VString ''encrypted-data'') exp;
     (err, t) \<leftarrow> call (\<lambda>now. m_Set (as_CacheStore enc dec c) now ''value'' (box_entry entry) exp) t;
     let t = errorf (err \<noteq> None) ''Error setting a value: %s'' [AErr err] t;
     ((err, out), t) \<leftarrow> call (\<lambda>now. m_Get (as_CacheStore enc dec c) now ''value'' (TPtr TEntry)) t;
     let getEntry = written out;
     let t = errorf (err \<noteq> None) ''Error getting a value: %s'' [AErr err] t;
     let t = errorf (Data getEntry \<noteq> VString ''encrypted-data'') ''Expected to get encrypted-data back, got %v'' [AEntry getEntry] t;
     Some t
   }"

definition incrDecr :: "('w, 'w CacheStore) factory \<Rightarrow> 'w testing \<Rightarrow> 'w testing option" where
  "incrDecr newCache t = do {
     (cache, t) \<leftarrow> newCache time_Hour t;
     (err, t) \<leftarrow> call (\<lambda>now. m_Set cache now ''int'' (VInt 10) DEFAULT) t;
     let t = errorf (err \<noteq> None) ''Error setting int: %s'' [AErr err] t;
     ((newValue, err), t) \<leftarrow> call (\<lambda>now. m_Increment cache now ''int'' 50) t;
     let t = errorf (err \<noteq> None) ''Error incrementing int: %s'' [AErr err] t;
     let t = errorf (newValue \<noteq> 60) ''Expected 60, was %d'' [AUint newValue] t;
     ((newValue, err), t) \<leftarrow> call (\<lambda>now. m_Decrement cache now ''int'' 50) t;
     let t = errorf (err \<noteq> None) ''Error decrementing: %s'' [AErr err] t;
     let t = errorf (newValue \<noteq> 10) ''Expected 10, was %d'' [AUint newValue] t;
     ((newValue, err), t) \<leftarrow> call (\<lambda>now. m_Increment cache now ''int'' (MaxUint64 - 5)) t;
     let t = errorf (err \<noteq> None) ''Error wrapping around: %s'' [AErr err] t;
     let t = errorf (newValue \<noteq> 4) ''Expected wraparound 4, got %d'' [AUint newValue] t;
     ((newValue, err), t) \<leftarrow> call (\<lambda>now. m_Decrement cache now ''int'' 25) t;
     let t = errorf (err \<noteq> None) ''Error decrementing below 0: %s'' [AErr err] t;
     let t = errorf (newValue \<noteq> 0) ''Expected capped at 0, got %d'' [AUint newValue] t;
     Some t
   }"

text \<open>The scenarios for Redis assert the field \<open>Cache\<close> to a \<open>*RedisStore\<close>.\<close>

definition incrRedisAtomicAndExpireAt ::
  "(godata \<Rightarrow> error + bytes) \<Rightarrow> (bytes \<Rightarrow> error + godata) \<Rightarrow> (Time \<Rightarrow> duration \<Rightarrow> 's world \<Rightarrow> 's world) \<Rightarrow>
   ('s world, 's GenericCache) factory \<Rightarrow> 's world testing \<Rightarrow> 's world testing option" where
  "incrRedisAtomicAndExpireAt enc dec others newStore t = do {
     (store, t) \<leftarrow> newStore time_Hour t;
     (err, t) \<leftarrow> call (\<lambda>now. gc_Set enc now now ''int'' (VInt 10) DEFAULT store) t;
     let t = errorf (err \<noteq> None) ''Error setting int: %s'' [AErr err] t;
     ((newValue, err), t) \<leftarrow> call (\<lambda>now. on_redis (\<lambda>r. r_IncrementAtomic r now ''int'' 50) (gc_Cache store)) t;
     let t = errorf (err \<noteq> None) ''Error incrementing int: %s'' [AErr err] t;
     (err, t) \<leftarrow> call (\<lambda>now. on_redis (\<lambda>r. r_ExpireAt r now ''int'' (t_sec now + 30)) (gc_Cache store)) t;
     let t = errorf (err \<noteq> None) ''Error setting expire at for 'int': %s'' [AErr err] t;
     let t = errorf (newValue \<noteq> 60) ''Expected 60, was %d'' [AUint newValue] t;
     ((newValue, err), t) \<leftarrow> call (\<lambda>now. on_redis (\<lambda>r. r_IncrementCheckSet r now ''int'' 50) (gc_Cache store)) t;
     let t = errorf (err \<noteq> None) ''Error incrementing int: %s'' [AErr err] t;
     let t = errorf (newValue \<noteq> 110) ''Expected 110, was %d'' [AUint newValue] t;
     ((_, err), t) \<leftarrow> call (\<lambda>now. on_redis (\<lambda>r. r_IncrementCheckSet r now ''badkey'' 50) (gc_Cache store)) t;
     let t = errorf (err \<noteq> Some ErrCacheMiss) ''Error incrementing badkey.. should have been ErrCacheMiss'' [] t;
     ((newValue, err), t) \<leftarrow> call (\<lambda>now. on_redis (\<lambda>r. r_IncrementAtomic r now ''newInt'' 2) (gc_Cache store)) t;
     let t = errorf (err \<noteq> None) ''Error incrementing int: %s'' [AErr err] t;
     let t = errorf (newValue \<noteq> 2) ''Expected 2, was %d'' [AUint newValue] t;
     (err, t) \<leftarrow> call (\<lambda>now. on_redis (\<lambda>r. r_ExpireAt r now ''newInt'' (t_sec now + 1)) (gc_Cache store)) t;
     let t = errorf (err \<noteq> None) ''Error setting expire at for 'int': %s'' [AErr err] t;
     let t = Sleep others (2 * time_Second) t;
     ((err, _), t) \<leftarrow> call (\<lambda>now. gc_Get dec now ''newInt'' (TPtr (TNum Uint64)) store) t;
     let t = errorf (err \<noteq> Some ErrCacheMiss) ''Expected cache miss'' [] t;
     Some t
   }"

definition expiration ::
  "(Time \<Rightarrow> duration \<Rightarrow> 'w \<Rightarrow> 'w) \<Rightarrow> ('w, 'w CacheStore) factory \<Rightarrow> 'w testing \<Rightarrow> 'w testing option" where
  "expiration others newCache t = do {
     (cache, t) \<leftarrow> newCache time_Second t;
     let value = 777;
     (_, t) \<leftarrow> call (\<lambda>now. m_Set cache now ''int'' (VInt value) (time_Second * 1)) t;
     let t = Sleep others (2 * time_Second) t;
     let v2 = 0;
     ((err, out), t) \<leftarrow> call (\<lambda>now. m_Get cache now ''int'' (TPtr TInt)) t;
     let v2 = var_int out v2;
     let t = errorf (err \<noteq> Some ErrCacheMiss) ''Expected CacheMiss, but got: %s - %v'' [AErr err, AInt v2] t;
     (_, t) \<leftarrow> call (\<lambda>now. m_Set cache now ''int'' (VInt value) time_Second) t;
     let t = Sleep others (2 * time_Second) t;
     ((err, _), t) \<leftarrow> call (\<lambda>now. m_Get cache now ''int'' (TPtr TInt)) t;
     let t = errorf (err \<noteq> Some ErrCacheMiss) ''Expected CacheMiss, but got: %s'' [AErr err] t;
     (_, t) \<leftarrow> call (\<lambda>now. m_Set cache now ''int'' (VInt value) time_Hour) t;
     let t = Sleep others (2 * time_Second) t;
     ((err, _), t) \<leftarrow> call (\<lambda>now. m_Get cache now ''int'' (TPtr TInt)) t;
     let t = errorf (err \<noteq> None) ''Expected to get the value, but got: %s'' [AErr err] t;
     (_, t) \<leftarrow> call (\<lambda>now. m_Set cache now ''int'' (VInt value) FOREVER) t;
     let t = Sleep others (2 * time_Second) t;
     ((err, _), t) \<leftarrow> call (\<lambda>now. m_Get cache now ''int'' (TPtr TInt)) t;
     let t = errorf (err \<noteq> None) ''Expected to get the value, but got: %s'' [AErr err] t;
     Some t
   }"

definition emptyCache :: "('w, 'w CacheStore) factory \<Rightarrow> 'w testing \<Rightarrow> 'w testing option" where
  "emptyCache newCache t = do {
     (cache, t) \<leftarrow> newCache time_Hour t;
     ((err, _), t) \<leftarrow> call (\<lambda>now. m_Get cache now ''notexist'' TInt) t;
     let t = errorf (err = None) ''Error expected for non-existent key'' [] t;
     let t = errorf (err \<noteq> Some ErrCacheMiss) ''Expected ErrCacheMiss for non-existent key: %s'' [AErr err] t;
     (err, t) \<leftarrow> call (\<lambda>now. m_Delete cache now ''notexist'') t;
     let t = errorf (err \<noteq> Some ErrCacheMiss) ''Expected ErrCacheMiss for non-existent key: %s'' [AErr err] t;
     ((_, err), t) \<leftarrow> call (\<lambda>now. m_Increment cache now ''notexist'' 1) t;
     let t = errorf (err \<noteq> Some ErrCacheMiss) ''Expected cache miss incrementing non-existent key: %s'' [AErr err] t;
     ((_, err), t) \<leftarrow> call (\<lambda>now. m_Decrement cache now ''notexist'' 1) t;
     let t = errorf (err \<noteq> Some ErrCacheMiss) ''Expected cache miss decrementing non-existent key: %s'' [AErr err] t;
     Some t
   }"

definition testReplace ::
  "(Time \<Rightarrow> duration \<Rightarrow> 'w \<Rightarrow> 'w) \<Rightarrow> ('w, 'w CacheStore) factory \<Rightarrow> 'w testing \<Rightarrow> 'w testing option" where
  "testReplace others newCache t = do {
     (cache, t) \<leftarrow> newCache time_Hour t;
     (err, t) \<leftarrow> call (\<lambda>now. m_Replace cache now ''notexist'' (VInt 1) FOREVER) t;
     let t = errorf (err \<noteq> Some ErrNotStored \<and> err \<noteq> Some ErrCacheMiss)
       ''Replace in empty cache: expected ErrNotStored or ErrCacheMiss, got: %s'' [AErr err] t;
     (err, t) \<leftarrow> call (\<lambda>now. m_Set cache now ''int'' (VInt 1) time_Second) t;
     let t = errorf (err \<noteq> None) ''Unexpected error: %s'' [AErr err] t;
     (err, t) \<leftarrow> call (\<lambda>now. m_Replace cache now ''int'' (VInt 2) time_Second) t;
     let t = errorf (err \<noteq> None) ''Unexpected error: %s'' [AErr err] t;
     ((err, out), t) \<leftarrow> call (\<lambda>now. m_Get cache now ''int'' (TPtr TInt)) t;
     let i = var_int out 0;
     let t = errorf (err \<noteq> None) ''Unexpected error getting a replaced item: %s'' [AErr err] t;
     let t = errorf (i \<noteq> 2) ''Expected 2, got %d'' [AInt i] t;
     let t = Sleep others (5 * time_Second) t;
     (err, t) \<leftarrow> call (\<lambda>now. m_Replace cache now ''int'' (VInt 3) time_Second) t;
     let t = errorf (err \<noteq> Some ErrNotStored \<and> err \<noteq> Some ErrCacheMiss) ''Expected ErrNotStored or ErrCacheMiss, got: %s'' [AErr err] t;
     ((err, _), t) \<leftarrow> call (\<lambda>now. m_Get cache now ''int'' (TPtr TInt)) t;
     let t = errorf (err \<noteq> Some ErrCacheMiss) ''Expected cache miss, got: %s'' [AErr err] t;
     Some t
   }"

definition testAdd ::
  "(Time \<Rightarrow> duration \<Rightarrow> 'w \<Rightarrow> 'w) \<Rightarrow> ('w, 'w CacheStore) factory \<Rightarrow> 'w testing \<Rightarrow> 'w testing option" where
  "testAdd others newCache t = do {
     (cache, t) \<leftarrow> newCache time_Hour t;
     (err, t) \<leftarrow> call (\<lambda>now. m_Add cache now ''int'' (VInt 1) time_Second) t;
     let t = errorf (err \<noteq> None) ''Unexpected error adding to empty cache: %s'' [AErr err] t;
     (err, t) \<leftarrow> call (\<lambda>now. m_Add cache now ''int'' (VInt 2) time_Second) t;
     let t = errorf (err \<noteq> Some ErrNotStored) ''Expected ErrNotStored adding dupe to cache: %s'' [AErr err] t;
     let t = Sleep others (2 * time_Second) t;
     (err, t) \<leftarrow> call (\<lambda>now. m_Add cache now ''int'' (VInt 3) time_Second) t;
     let t = errorf (err \<noteq> None) ''Unexpected error adding to cache: %s'' [AErr err] t;
     ((err, out), t) \<leftarrow> call (\<lambda>now. m_Get cache now ''int'' (TPtr TInt)) t;
     let i = var_int out 0;
     let t = errorf (err \<noteq> None) ''Unexpected error: %s'' [AErr err] t;
     let t = errorf (i \<noteq> 3) ''Expected 3, got: %d'' [AInt i] t;
     Some t
   }"

text \<open>\<open>show_time\<close> is the printed form of a time, which is part of the key.\<close>

definition testRedisGetExpiresIn ::
  "(Time \<Rightarrow> string) \<Rightarrow> ('s world, 's GenericCache) factory \<Rightarrow> 's world testing \<Rightarrow> 's world testing option" where
  "testRedisGetExpiresIn show_time newCache t = do {
     let key = Sprintf ''get-expires-in-%s'' [show_time (t_now t)];
     (cache, t) \<leftarrow> newCache time_Minute t;
     (err, t) \<leftarrow> call (\<lambda>now. gc_Add now key (VInt 1) time_Second cache) t;
     let t = errorf (err \<noteq> None) ''Unexpected error adding to empty cache: %s'' [AErr err] t;
     ((ttl, err), t) \<leftarrow> call (\<lambda>now. gc_RedisGetExpiresIn now key cache) t;
     let t = (case err of Some err \<Rightarrow> errorf True ''unexpected error == %s'' [AStr (Error err)] t | None \<Rightarrow> t);
     let t = errorf (ttl <s 500 \<or> 1000 <s ttl) ''unexpected value for ttl == %d'' [AInt ttl] t;
     Some (logf ''ttl == %d'' [AInt ttl] t)
   }"

end
