(* ===== verification/ScenarioContract.thy ===== *)
theory ScenarioContract
  imports GenericCacheSpec TestScenarios
begin

text \<open>
  What the scenarios of \<open>src/generic_test_store.go\<close> rely on, as the locale \<open>int_store\<close>: a store of integers with
  expiry, and what becomes of it while a test sleeps. In the locale every scenario passes; a generic
  cache in front of such a store (\<open>backing_store\<close>) is one again.
\<close>

section \<open>The clock\<close>

text \<open>A clock that is at least \<open>n\<close> seconds away from the end of the range of \<open>sane_clock\<close>.\<close>

definition running :: "nat \<Rightarrow> Time \<Rightarrow> bool" where
  "running n t \<longleftrightarrow> 0 \<le> sint (t_sec t) \<and> sint (t_sec t) + int n < 2 ^ 61 \<and> 0 \<le> t_nsec t \<and> t_nsec t < 1000000000"

lemma running_sane: "running n t \<Longrightarrow> sane_clock t"
  by (simp add: running_def sane_clock_def)

lemma running_less: "running n t \<Longrightarrow> m \<le> n \<Longrightarrow> running m t"
  by (simp add: running_def)

lemma time_Add_exact:
  assumes "0 \<le> sint (t_sec t)" "sint (t_sec t) < 2 ^ 62" "0 \<le> t_nsec t" "t_nsec t < 1000000000" "0 \<le> sint d"
  shows "nanos (time_Add t d) = nanos t + sint d" "0 \<le> t_nsec (time_Add t d)" "t_nsec (time_Add t d) < 1000000000" "0 \<le> sint (t_sec (time_Add t d))"
proof -
  let ?q = "sint d div 1000000000" and ?r = "sint d mod 1000000000"
  have sd: "sint d sdiv 1000000000 = ?q" using assms(5) by (cases "sint d = 0") (simp_all add: signed_divide_int_def)
  have q: "sint (go_div d time_Second) = ?q" "0 \<le> ?q" "?q \<le> 9223372036"
    using assms(5) sd sint_bounds64(2) [of d] by (simp_all add: sint_seconds)
  have r: "sint d - sint d sdiv 1000000000 * 1000000000 = ?r" "0 \<le> ?r" "?r < 1000000000"
    using sd by (simp_all add: minus_div_mult_eq_mod)
  have d: "sint d = ?q * 1000000000 + ?r" by simp
  have s: "sint (t_sec t + (go_div d time_Second + 1)) = sint (t_sec t) + ?q + 1" "sint (t_sec t + go_div d time_Second) = sint (t_sec t) + ?q"
    using assms(1,2) q by (simp_all add: sint_add64)
  show "nanos (time_Add t d) = nanos t + sint d" "0 \<le> t_nsec (time_Add t d)" "t_nsec (time_Add t d) < 1000000000" "0 \<le> sint (t_sec (time_Add t d))"
    using assms r q s d by (auto simp: time_Add_def Let_def nanos_def)
qed

lemma time_Add_nanos:
  assumes "running (m + n) t" "0 \<le> sint d" "sint d \<le> int n * 1000000000"
  shows "nanos (time_Add t d) = nanos t + sint d" "running m (time_Add t d)"
proof -
  have t: "0 \<le> sint (t_sec t)" "sint (t_sec t) < 2 ^ 62" "0 \<le> t_nsec t" "t_nsec t < 1000000000" using assms(1) by (simp_all add: running_def)
  note e = time_Add_exact [OF t assms(2)]
  show "nanos (time_Add t d) = nanos t + sint d" by (rule e(1))
  then have "sint (t_sec (time_Add t d)) * 1000000000 + t_nsec (time_Add t d) = sint (t_sec t) * 1000000000 + t_nsec t + sint d" by (simp add: nanos_def)
  then have "sint (t_sec (time_Add t d)) * 1000000000 < (sint (t_sec t) + int n + 1) * 1000000000" using e(2) t(4) assms(3) by (simp add: algebra_simps)
  then show "running m (time_Add t d)" using e(2-4) assms(1) by (simp add: running_def)
qed

section \<open>What the scenarios ask of a store\<close>

text \<open>
  \<open>held\<close> is the integer under a key together with the nanoseconds it has left, \<open>None\<close> for ever. How long
  it has left after it was stored with one of the expiries of the scenarios, and after some time:
\<close>

definition fresh :: "int option \<Rightarrow> bool" where
  "fresh r \<longleftrightarrow> (case r of None \<Rightarrow> True | Some l \<Rightarrow> 0 < l)"

definition expiries :: "duration set" where
  "expiries = {DEFAULT, FOREVER, time_Second, time_Hour}"

definition lives :: "duration \<Rightarrow> int option \<Rightarrow> bool" where
  "lives exp r \<longleftrightarrow> fresh r \<and> (exp = FOREVER \<longrightarrow> r = None) \<and> (exp = time_Second \<longrightarrow> (\<exists>l. r = Some l \<and> l \<le> 1000000000))
     \<and> (exp = time_Hour \<longrightarrow> (\<exists>l. r = Some l \<and> 3599000000000 < l))"

definition aged :: "int \<Rightarrow> (int64 \<times> int option) option \<Rightarrow> (int64 \<times> int option) option \<Rightarrow> bool" where
  "aged d x y \<longleftrightarrow> (case x of None \<Rightarrow> y = None | Some (i, None) \<Rightarrow> y = x
     | Some (i, Some l) \<Rightarrow> (l + 1000000000 \<le> d \<longrightarrow> y = None) \<and> (d < l \<longrightarrow> y = Some (i, Some (l - d))))"

locale int_store =
  fixes st :: "'w CacheStore" and others :: "Time \<Rightarrow> duration \<Rightarrow> 'w \<Rightarrow> 'w" and inv :: "'w \<Rightarrow> bool"
    and held :: "Time \<Rightarrow> 'w \<Rightarrow> string \<Rightarrow> (int64 \<times> int option) option" and keys :: "string set"
  assumes set_int: "inv w \<Longrightarrow> running 0 now \<Longrightarrow> k \<in> keys \<Longrightarrow> exp \<in> expiries \<Longrightarrow>
      \<exists>w' r. m_Set st now k (VInt i) exp w = (Ret None, w') \<and> inv w' \<and> held now w' k = Some (i, r) \<and> lives exp r"
    and add_int: "inv w \<Longrightarrow> running 0 now \<Longrightarrow> k \<in> keys \<Longrightarrow> exp \<in> expiries \<Longrightarrow> held now w k = None \<Longrightarrow>
      \<exists>w' r. m_Add st now k (VInt i) exp w = (Ret None, w') \<and> inv w' \<and> held now w' k = Some (i, r) \<and> lives exp r"
    and add_refused: "inv w \<Longrightarrow> running 0 now \<Longrightarrow> k \<in> keys \<Longrightarrow> exp \<in> expiries \<Longrightarrow> held now w k = Some x \<Longrightarrow>
      \<exists>w'. m_Add st now k (VInt i) exp w = (Ret (Some ErrNotStored), w') \<and> inv w' \<and> held now w' k = Some x"
    and replace_int: "inv w \<Longrightarrow> running 0 now \<Longrightarrow> k \<in> keys \<Longrightarrow> exp \<in> expiries \<Longrightarrow> held now w k = Some x \<Longrightarrow>
      \<exists>w' r. m_Replace st now k (VInt i) exp w = (Ret None, w') \<and> inv w' \<and> held now w' k = Some (i, r) \<and> lives exp r"
    and replace_refused: "inv w \<Longrightarrow> running 0 now \<Longrightarrow> k \<in> keys \<Longrightarrow> exp \<in> expiries \<Longrightarrow> held now w k = None \<Longrightarrow>
      \<exists>w'. m_Replace st now k (VInt i) exp w = (Ret (Some ErrNotStored), w') \<and> inv w' \<and> held now w' k = None"
    and get_int: "inv w \<Longrightarrow> running 0 now \<Longrightarrow> k \<in> keys \<Longrightarrow> held now w k = Some (i, r) \<Longrightarrow> fresh r \<Longrightarrow>
      \<exists>w'. m_Get st now k (TPtr TInt) w = (Ret (None, Some (VInt i)), w') \<and> inv w' \<and> held now w' k = Some (i, r)"
    and get_none: "inv w \<Longrightarrow> running 0 now \<Longrightarrow> k \<in> keys \<Longrightarrow> held now w k = None \<Longrightarrow> ty \<in> {TInt, TPtr TInt} \<Longrightarrow>
      \<exists>w'. m_Get st now k ty w = (Ret (Some ErrCacheMiss, None), w') \<and> inv w' \<and> held now w' k = None"
    and delete_none: "inv w \<Longrightarrow> running 0 now \<Longrightarrow> k \<in> keys \<Longrightarrow> held now w k = None \<Longrightarrow>
      \<exists>w'. m_Delete st now k w = (Ret (Some ErrCacheMiss), w') \<and> inv w' \<and> held now w' k = None"
    and increment_int: "inv w \<Longrightarrow> running 0 now \<Longrightarrow> k \<in> keys \<Longrightarrow> held now w k = Some (i, r) \<Longrightarrow>
      \<exists>w' r'. m_Increment st now k n w = (Ret (i + n, None), w') \<and> inv w' \<and> held now w' k = Some (i + n, r')"
    and increment_none: "inv w \<Longrightarrow> running 0 now \<Longrightarrow> k \<in> keys \<Longrightarrow> held now w k = None \<Longrightarrow>
      \<exists>w'. m_Increment st now k n w = (Ret (0, Some ErrCacheMiss), w') \<and> inv w' \<and> held now w' k = None"
    and decrement_int: "inv w \<Longrightarrow> running 0 now \<Longrightarrow> k \<in> keys \<Longrightarrow> held now w k = Some (i, r) \<Longrightarrow> uint i < 2 ^ 63 \<Longrightarrow> uint n < 2 ^ 63 \<Longrightarrow>
      \<exists>w' r'. m_Decrement st now k n w = (Ret (if i < n then 0 else i - n, None), w') \<and> inv w'
        \<and> held now w' k = Some (if i < n then 0 else i - n, r')"
    and decrement_none: "inv w \<Longrightarrow> running 0 now \<Longrightarrow> k \<in> keys \<Longrightarrow> held now w k = None \<Longrightarrow>
      \<exists>w'. m_Decrement st now k n w = (Ret (0, Some ErrCacheMiss), w') \<and> inv w' \<and> held now w' k = None"
    and sleep: "inv w \<Longrightarrow> running s now \<Longrightarrow> k \<in> keys \<Longrightarrow> s \<in> {2, 5} \<Longrightarrow> d = of_nat s * time_Second \<Longrightarrow>
      inv (others now d w) \<and> aged (sint d) (held now w k) (held (time_Add now d) (others now d w) k)"
begin

lemma passes_emptyCache:
  assumes "newCache time_Hour t = Some (st, u)" "inv (t_world u)" "running 0 (t_now u)" "''notexist'' \<in> keys"
    and "held (t_now u) (t_world u) ''notexist'' = None"
  shows "\<exists>v. emptyCache newCache t = Some v \<and> t_errors v = t_errors u"
proof -
  obtain w1 where 1: "m_Get st (t_now u) ''notexist'' TInt (t_world u) = (Ret (Some ErrCacheMiss, None), w1)" "inv w1" "held (t_now u) w1 ''notexist'' = None"
    using get_none [OF assms(2,3,4,5), of TInt] by auto
  obtain w2 where 2: "m_Delete st (t_now u) ''notexist'' w1 = (Ret (Some ErrCacheMiss), w2)" "inv w2" "held (t_now u) w2 ''notexist'' = None"
    using delete_none [OF 1(2) assms(3,4) 1(3)] by auto
  obtain w3 where 3: "m_Increment st (t_now u) ''notexist'' 1 w2 = (Ret (0, Some ErrCacheMiss), w3)" "inv w3" "held (t_now u) w3 ''notexist'' = None"
    using increment_none [OF 2(2) assms(3,4) 2(3), of 1] by auto
  obtain w4 where 4: "m_Decrement st (t_now u) ''notexist'' 1 w3 = (Ret (0, Some ErrCacheMiss), w4)"
    using decrement_none [OF 3(2) assms(3,4) 3(3), of 1] by auto
  show ?thesis using assms(1) 1(1) 2(1) 3(1) 4 by (simp add: emptyCache_def call_def errorf_def)
qed

lemma passes_incrDecr:
  assumes "newCache time_Hour t = Some (st, u)" "inv (t_world u)" "running 0 (t_now u)" "''int'' \<in> keys"
  shows "\<exists>v. incrDecr newCache t = Some v \<and> t_errors v = t_errors u"
proof -
  let ?now = "t_now u"
  obtain w0 r0 where 0: "m_Set st ?now ''int'' (VInt 10) DEFAULT (t_world u) = (Ret None, w0)" "inv w0" "held ?now w0 ''int'' = Some (10, r0)"
    using set_int [OF assms(2,3,4), of DEFAULT 10] by (auto simp: expiries_def)
  obtain w1 r1 where 1: "m_Increment st ?now ''int'' 50 w0 = (Ret (60, None), w1)" "inv w1" "held ?now w1 ''int'' = Some (60, r1)"
    using increment_int [OF 0(2) assms(3,4) 0(3), of 50] by auto
  obtain w2 r2 where 2: "m_Decrement st ?now ''int'' 50 w1 = (Ret (10, None), w2)" "inv w2" "held ?now w2 ''int'' = Some (10, r2)"
    using decrement_int [OF 1(2) assms(3,4) 1(3), of 50] by auto
  obtain w3 r3 where 3: "m_Increment st ?now ''int'' (MaxUint64 - 5) w2 = (Ret (4, None), w3)" "inv w3" "held ?now w3 ''int'' = Some (4, r3)"
    using increment_int [OF 2(2) assms(3,4) 2(3), of "MaxUint64 - 5"] by (auto simp: MaxUint64_def)
  obtain w4 where 4: "m_Decrement st ?now ''int'' 25 w3 = (Ret (0, None), w4)"
    using decrement_int [OF 3(2) assms(3,4) 3(3), of 25] by auto
  show ?thesis using assms(1) 0(1) 1(1) 2(1) 3(1) 4 by (simp add: incrDecr_def call_def errorf_def)
qed

lemma slept:
  assumes "inv w" "running n now" "n = m + s" "k \<in> keys" "s = 2 \<or> s = 5" "d = of_nat s * time_Second"
  shows "running m (time_Add now d)" "inv (others now d w)"
    "aged (int s * 1000000000) (held now w k) (held (time_Add now d) (others now d w) k)"
proof -
  have d: "sint d = int s * 1000000000" using assms(5,6) by (auto simp: time_Second_def)
  show "running m (time_Add now d)" using time_Add_nanos(2) [OF assms(2) [unfolded assms(3)], of d] assms(5) d by auto
  show "inv (others now d w)" "aged (int s * 1000000000) (held now w k) (held (time_Add now d) (others now d w) k)"
    using sleep [OF assms(1) running_less [OF assms(2)] assms(4) _ assms(6)] assms(3,5) d by auto
qed

lemma second_passes:
  assumes "inv w" "running n now" "n = m + s" "k \<in> keys" "s = 2 \<or> s = 5" "d = of_nat s * time_Second" "held now w k = Some (i, r)" "lives time_Second r"
  shows "running m (time_Add now d)" "inv (others now d w)" "held (time_Add now d) (others now d w) k = None"
  using slept [OF assms(1-6)] assms(5,7,8) by (auto simp: aged_def lives_def)

lemma long_stays:
  assumes "inv w" "running n now" "n = m + 2" "k \<in> keys" "d = 2 * time_Second" "held now w k = Some (i, r)" "lives e r" "e = time_Hour \<or> e = FOREVER"
  shows "running m (time_Add now d)" "inv (others now d w)"
    "\<exists>r'. held (time_Add now d) (others now d w) k = Some (i, r') \<and> fresh r'"
  using slept [OF assms(1-4), of d] assms(5-8) by (auto simp: aged_def lives_def fresh_def)

lemma exps [simp]: "DEFAULT \<in> expiries" "FOREVER \<in> expiries" "time_Second \<in> expiries" "time_Hour \<in> expiries"
  by (simp_all add: expiries_def)

lemma passes_testAdd:
  assumes "newCache time_Hour t = Some (st, u)" "inv (t_world u)" "running 2 (t_now u)" "''int'' \<in> keys"
    and "held (t_now u) (t_world u) ''int'' = None"
  shows "\<exists>v. testAdd others newCache t = Some v \<and> t_errors v = t_errors u"
proof -
  let ?now = "t_now u" and ?d = "2 * time_Second" and ?k = "''int''"
  let ?then = "time_Add ?now ?d"
  have now: "running 0 ?now" using running_less [OF assms(3)] by simp
  obtain w1 r1 where 1: "m_Add st ?now ?k (VInt 1) time_Second (t_world u) = (Ret None, w1)" "inv w1" "held ?now w1 ?k = Some (1, r1)" "lives time_Second r1"
    using add_int [OF assms(2) now assms(4) _ assms(5), of time_Second 1] by auto
  obtain w2 where 2: "m_Add st ?now ?k (VInt 2) time_Second w1 = (Ret (Some ErrNotStored), w2)" "inv w2" "held ?now w2 ?k = Some (1, r1)"
    using add_refused [OF 1(2) now assms(4) _ 1(3), of time_Second 2] by auto
  have 3: "running 0 ?then" "inv (others ?now ?d w2)" "held ?then (others ?now ?d w2) ?k = None"
    using second_passes [OF 2(2) assms(3) _ assms(4) _ _ 2(3) 1(4), of 0 2 ?d] by simp_all
  obtain w4 r4 where 4: "m_Add st ?then ?k (VInt 3) time_Second (others ?now ?d w2) = (Ret None, w4)" "inv w4" "held ?then w4 ?k = Some (3, r4)" "lives time_Second r4"
    using add_int [OF 3(2,1) assms(4) _ 3(3), of time_Second 3] by auto
  obtain w5 where 5: "m_Get st ?then ?k (TPtr TInt) w4 = (Ret (None, Some (VInt 3)), w5)"
    using get_int [OF 4(2) 3(1) assms(4) 4(3)] 4(4) by (auto simp: lives_def)
  show ?thesis using assms(1) 1(1) 2(1) 4(1) 5 by (simp add: testAdd_def call_def errorf_def Sleep_def var_int_def)
qed

lemma passes_testReplace:
  assumes "newCache time_Hour t = Some (st, u)" "inv (t_world u)" "running 5 (t_now u)" "''int'' \<in> keys" "''notexist'' \<in> keys"
    and "held (t_now u) (t_world u) ''notexist'' = None"
  shows "\<exists>v. testReplace others newCache t = Some v \<and> t_errors v = t_errors u"
proof -
  let ?now = "t_now u" and ?d = "5 * time_Second" and ?k = "''int''"
  let ?then = "time_Add ?now ?d"
  have now: "running 0 ?now" using running_less [OF assms(3)] by simp
  obtain w0 where 0: "m_Replace st ?now ''notexist'' (VInt 1) FOREVER (t_world u) = (Ret (Some ErrNotStored), w0)" "inv w0"
    using replace_refused [OF assms(2) now assms(5) _ assms(6), of FOREVER 1] by auto
  obtain w1 r1 where 1: "m_Set st ?now ?k (VInt 1) time_Second w0 = (Ret None, w1)" "inv w1" "held ?now w1 ?k = Some (1, r1)"
    using set_int [OF 0(2) now assms(4), of time_Second 1] by auto
  obtain w2 r2 where 2: "m_Replace st ?now ?k (VInt 2) time_Second w1 = (Ret None, w2)" "inv w2" "held ?now w2 ?k = Some (2, r2)" "lives time_Second r2"
    using replace_int [OF 1(2) now assms(4) _ 1(3), of time_Second 2] by auto
  obtain w3 where 3: "m_Get st ?now ?k (TPtr TInt) w2 = (Ret (None, Some (VInt 2)), w3)" "inv w3" "held ?now w3 ?k = Some (2, r2)"
    using get_int [OF 2(2) now assms(4) 2(3)] 2(4) by (auto simp: lives_def)
  have 4: "running 0 ?then" "inv (others ?now ?d w3)" "held ?then (others ?now ?d w3) ?k = None"
    using second_passes [OF 3(2) assms(3) _ assms(4) _ _ 3(3) 2(4), of 0 5 ?d] by simp_all
  obtain w5 where 5: "m_Replace st ?then ?k (VInt 3) time_Second (others ?now ?d w3) = (Ret (Some ErrNotStored), w5)" "inv w5" "held ?then w5 ?k = None"
    using replace_refused [OF 4(2,1) assms(4) _ 4(3), of time_Second 3] by auto
  obtain w6 where 6: "m_Get st ?then ?k (TPtr TInt) w5 = (Ret (Some ErrCacheMiss, None), w6)"
    using get_none [OF 5(2) 4(1) assms(4) 5(3), of "TPtr TInt"] by auto
  show ?thesis using assms(1) 0(1) 1(1) 2(1) 3(1) 5(1) 6 by (simp add: testReplace_def call_def errorf_def Sleep_def var_int_def)
qed

text \<open>The two halves of \<open>expiration\<close>: a value that is gone after the sleep, and one that is still there.\<close>

lemma set_sleep_miss:
  assumes "inv w" "running n now" "n = m + 2" "k \<in> keys"
  shows "\<exists>w1 w2. m_Set st now k (VInt i) time_Second w = (Ret None, w1)
    \<and> m_Get st (time_Add now (2 * time_Second)) k (TPtr TInt) (others now (2 * time_Second) w1) = (Ret (Some ErrCacheMiss, None), w2)
    \<and> inv w2 \<and> running m (time_Add now (2 * time_Second))"
proof -
  obtain w1 r where 1: "m_Set st now k (VInt i) time_Second w = (Ret None, w1)" "inv w1" "held now w1 k = Some (i, r)" "lives time_Second r"
    using set_int [OF assms(1) running_less [OF assms(2)] assms(4), of time_Second i] by auto
  have 2: "running m (time_Add now (2 * time_Second))" "inv (others now (2 * time_Second) w1)" "held (time_Add now (2 * time_Second)) (others now (2 * time_Second) w1) k = None"
    using second_passes [OF 1(2) assms(2-4) _ _ 1(3,4), of "2 * time_Second"] by simp_all
  show ?thesis using get_none [OF 2(2) running_less [OF 2(1)] assms(4) 2(3), of "TPtr TInt"] 1(1) 2(1) by blast
qed

lemma set_sleep_hit:
  assumes "inv w" "running n now" "n = m + 2" "k \<in> keys" "e = time_Hour \<or> e = FOREVER"
  shows "\<exists>w1 w2. m_Set st now k (VInt i) e w = (Ret None, w1)
    \<and> m_Get st (time_Add now (2 * time_Second)) k (TPtr TInt) (others now (2 * time_Second) w1) = (Ret (None, Some (VInt i)), w2)
    \<and> inv w2 \<and> running m (time_Add now (2 * time_Second))"
proof -
  obtain w1 r where 1: "m_Set st now k (VInt i) e w = (Ret None, w1)" "inv w1" "held now w1 k = Some (i, r)" "lives e r"
    using set_int [OF assms(1) running_less [OF assms(2)] assms(4), of e i] assms(5) by auto
  note 2 = long_stays [OF 1(2) assms(2-4) refl 1(3,4) assms(5)]
  obtain r' where r': "held (time_Add now (2 * time_Second)) (others now (2 * time_Second) w1) k = Some (i, r')" "fresh r'" using 2(3) by blast
  then show ?thesis using get_int [OF 2(2) running_less [OF 2(1)] assms(4) r'] 1(1) 2(1) by blast
qed

lemma passes_expiration:
  assumes "newCache time_Second t = Some (st, u)" "inv (t_world u)" "running 8 (t_now u)" "''int'' \<in> keys"
  shows "\<exists>v. expiration others newCache t = Some v \<and> t_errors v = t_errors u"
proof -
  let ?d = "2 * time_Second" and ?k = "''int''" and ?n0 = "t_now u"
  let ?n1 = "time_Add ?n0 ?d" let ?n2 = "time_Add ?n1 ?d" let ?n3 = "time_Add ?n2 ?d" let ?n4 = "time_Add ?n3 ?d"
  obtain a1 w1 where 1: "m_Set st ?n0 ?k (VInt 777) time_Second (t_world u) = (Ret None, a1)"
    "m_Get st ?n1 ?k (TPtr TInt) (others ?n0 ?d a1) = (Ret (Some ErrCacheMiss, None), w1)" "inv w1" "running 6 ?n1"
    using set_sleep_miss [OF assms(2,3) _ assms(4), of 6 777] by auto
  obtain a2 w2 where 2: "m_Set st ?n1 ?k (VInt 777) time_Second w1 = (Ret None, a2)"
    "m_Get st ?n2 ?k (TPtr TInt) (others ?n1 ?d a2) = (Ret (Some ErrCacheMiss, None), w2)" "inv w2" "running 4 ?n2"
    using set_sleep_miss [OF 1(3,4) _ assms(4), of 4 777] by auto
  obtain a3 w3 where 3: "m_Set st ?n2 ?k (VInt 777) time_Hour w2 = (Ret None, a3)"
    "m_Get st ?n3 ?k (TPtr TInt) (others ?n2 ?d a3) = (Ret (None, Some (VInt 777)), w3)" "inv w3" "running 2 ?n3"
    using set_sleep_hit [OF 2(3,4) _ assms(4), of 2 time_Hour 777] by auto
  obtain a4 w4 where 4: "m_Set st ?n3 ?k (VInt 777) FOREVER w3 = (Ret None, a4)"
    "m_Get st ?n4 ?k (TPtr TInt) (others ?n3 ?d a4) = (Ret (None, Some (VInt 777)), w4)"
    using set_sleep_hit [OF 3(3,4) _ assms(4), of 0 FOREVER 777] by auto
  show ?thesis using assms(1) 1(1,2) 2(1,2) 3(1,2) 4 by (simp add: expiration_def call_def errorf_def Sleep_def)
qed

end

section \<open>Generic caches in front of a store\<close>

text \<open>Each method of a generic cache hands an integer on to its store and returns what the store does.\<close>

lemma gc_calls:
  assumes "Option.bind (gc_Cache c) as_store = Some st" "t = (if exp \<noteq> 0 then exp else gc_DefaultExp c)"
  shows "m_Set st now k (VInt i) t (w_store w) = (Ret e, s) \<Longrightarrow> \<exists>w'. gc_Set enc now0 now k (VInt i) exp c w = (Ret e, w') \<and> w_store w' = s"
    "m_Add st now k (VInt i) t (w_store w) = (Ret e, s) \<Longrightarrow> \<exists>w'. gc_Add now k (VInt i) exp c w = (Ret e, w') \<and> w_store w' = s"
    "m_Replace st now k (VInt i) t (w_store w) = (Ret e, s) \<Longrightarrow> \<exists>w'. gc_Replace now k (VInt i) exp c w = (Ret e, w') \<and> w_store w' = s"
  using assms bind_as_store [OF assms(1)]
  by (cases e; auto simp: gc_Set_def gc_Add_def gc_Replace_def seal_def on_store_Some report_err_def Let_def)+

lemma gc_counts:
  assumes "Option.bind (gc_Cache c) as_store = Some st"
  shows "m_Increment st now k n (w_store w) = (Ret (r, e), s) \<Longrightarrow> \<exists>w'. gc_Increment now k n c w = (Ret (if e = None then r else 0, e), w') \<and> w_store w' = s"
    "m_Decrement st now k n (w_store w) = (Ret (r, e), s) \<Longrightarrow> \<exists>w'. gc_Decrement now k n c w = (Ret (if e = None then r else 0, e), w') \<and> w_store w' = s"
    "m_Delete st now k (w_store w) = (Ret (Some ErrCacheMiss), s) \<Longrightarrow> \<exists>w'. gc_Delete now k c w = (Ret (Some ErrCacheMiss), w') \<and> w_store w' = s"
  using assms bind_as_store [OF assms(1)]
  by (cases e; auto simp: gc_Increment_def gc_Decrement_def gc_Delete_def on_store_Some report_num_def Let_def)+

lemma gc_gets:
  assumes "Option.bind (gc_Cache c) as_store = Some st"
  shows "m_Get st now k (TPtr TInt) (w_store w) = (Ret (e, out), s) \<Longrightarrow> e \<in> {None, Some ErrCacheMiss} \<Longrightarrow>
      \<exists>w'. gc_Get dec now k (TPtr TInt) c w = (Ret (e, out), w') \<and> w_store w' = s"
    "m_Get st now k (TPtr TInterface) (w_store w) = (Ret (Some ErrCacheMiss, out), s) \<Longrightarrow>
      \<exists>w'. gc_Get dec now k TInt c w = (Ret (Some ErrCacheMiss, None), w') \<and> w_store w' = s"
  using assms bind_as_store [OF assms(1)]
  by (auto simp: gc_Get_def int_names_def fetch_def on_store_Some Let_def)

locale backing_store = int_store +
  assumes get_interface: "inv w \<Longrightarrow> running 0 now \<Longrightarrow> k \<in> keys \<Longrightarrow> held now w k = None \<Longrightarrow>
      \<exists>w'. m_Get st now k (TPtr TInterface) w = (Ret (Some ErrCacheMiss, None), w') \<and> inv w' \<and> held now w' k = None"
begin

lemma exp_same: "exp \<in> expiries \<Longrightarrow> gc_DefaultExp c = 0 \<Longrightarrow> (if exp \<noteq> 0 then exp else gc_DefaultExp c) = exp"
  by auto

lemma generic_cache:
  assumes "Option.bind (gc_Cache c) as_store = Some st" "gc_DefaultExp c = 0"
  shows "int_store (gc_ops enc dec c) (\<lambda>now d w. w\<lparr>w_store := others now d (w_store w)\<rparr>) (\<lambda>w. inv (w_store w)) (\<lambda>now w. held now (w_store w)) keys"
proof (unfold_locales, goal_cases)
  case (1 w now k exp i)
  then show ?case using set_int [OF 1(1-4), of i] gc_calls(1) [OF assms(1) exp_same [OF 1(4) assms(2), symmetric], of now k i w _ _ enc now]
    unfolding gc_ops_def by fastforce
next
  case (2 w now k exp i)
  then show ?case using add_int [OF 2(1-5), of i] gc_calls(2) [OF assms(1) exp_same [OF 2(4) assms(2), symmetric], of now k i w]
    unfolding gc_ops_def by fastforce
next
  case (3 w now k exp x i)
  then show ?case using add_refused [OF 3(1-5), of i] gc_calls(2) [OF assms(1) exp_same [OF 3(4) assms(2), symmetric], of now k i w]
    unfolding gc_ops_def by fastforce
next
  case (4 w now k exp x i)
  then show ?case using replace_int [OF 4(1-5), of i] gc_calls(3) [OF assms(1) exp_same [OF 4(4) assms(2), symmetric], of now k i w]
    unfolding gc_ops_def by fastforce
next
  case (5 w now k exp i)
  then show ?case using replace_refused [OF 5(1-5), of i] gc_calls(3) [OF assms(1) exp_same [OF 5(4) assms(2), symmetric], of now k i w]
    unfolding gc_ops_def by fastforce
next
  case (6 w now k i r)
  then show ?case using get_int [OF 6] gc_gets(1) [OF assms(1), of now k w] unfolding gc_ops_def by fastforce
next
  case (7 w now k ty)
  show ?case
  proof (cases "ty = TInt")
    case True
    then show ?thesis using get_interface [OF 7(1-4)] gc_gets(2) [OF assms(1), of now k w] unfolding gc_ops_def by fastforce
  next
    case False
    then have "ty = TPtr TInt" using 7(5) by simp
    then show ?thesis using get_none [OF 7] gc_gets(1) [OF assms(1), of now k w] unfolding gc_ops_def by fastforce
  qed
next
  case (8 w now k)
  then show ?case using delete_none [OF 8] gc_counts(3) [OF assms(1), of now k w] unfolding gc_ops_def by fastforce
next
  case (9 w now k i r n)
  then show ?case using increment_int [OF 9, of n] gc_counts(1) [OF assms(1), of now k n w] unfolding gc_ops_def by fastforce
next
  case (10 w now k n)
  then show ?case using increment_none [OF 10, of n] gc_counts(1) [OF assms(1), of now k n w] unfolding gc_ops_def by fastforce
next
  case (11 w now k i r n)
  then show ?case using decrement_int [OF 11] gc_counts(2) [OF assms(1), of now k n w] unfolding gc_ops_def by fastforce
next
  case (12 w now k n)
  then show ?case using decrement_none [OF 12, of n] gc_counts(2) [OF assms(1), of now k n w] unfolding gc_ops_def by fastforce
next
  case (13 w s now k d)
  then show ?case using sleep [OF 13] by simp
qed

end

section \<open>All scenarios\<close>

text \<open>
  A test has passed if it did not panic and reported nothing. \<open>behind\<close> is what happens to the store behind a
  generic cache during a sleep.
\<close>

definition passed :: "'w testing \<Rightarrow> 'w testing option \<Rightarrow> bool" where
  "passed t r \<longleftrightarrow> (\<exists>v. r = Some v \<and> t_errors v = t_errors t)"

definition behind :: "(Time \<Rightarrow> duration \<Rightarrow> 's \<Rightarrow> 's) \<Rightarrow> Time \<Rightarrow> duration \<Rightarrow> 's world \<Rightarrow> 's world" where
  "behind others now d w = w\<lparr>w_store := others now d (w_store w)\<rparr>"

lemma behind_eq: "behind others = (\<lambda>now d w. w\<lparr>w_store := others now d (w_store w)\<rparr>)"
  by (simp add: behind_def fun_eq_iff)

definition passes_all ::
  "(Time \<Rightarrow> duration \<Rightarrow> 'w \<Rightarrow> 'w) \<Rightarrow> ('w, 'w CacheStore) factory \<Rightarrow> 'w testing \<Rightarrow> bool" where
  "passes_all others newCache t \<longleftrightarrow> passed t (emptyCache newCache t) \<and> passed t (incrDecr newCache t) \<and> passed t (testAdd others newCache t)
     \<and> passed t (testReplace others newCache t) \<and> passed t (expiration others newCache t)"

context int_store
begin

lemma passes_all_of:
  assumes "newCache time_Hour t = Some (st, u)" "newCache time_Second t = Some (st, v)" "inv (t_world u)" "inv (t_world v)"
    and "t_now u = t_now t" "t_now v = t_now t" "t_errors u = t_errors t" "t_errors v = t_errors t" "running 8 (t_now t)"
    and "''int'' \<in> keys" "''notexist'' \<in> keys" "\<forall>k. held (t_now t) (t_world u) k = None"
  shows "passes_all others newCache t"
proof -
  have r: "running 0 (t_now u)" "running 2 (t_now u)" "running 5 (t_now u)" "running 8 (t_now v)"
    using running_less [OF assms(9)] assms(5,6,9) by simp_all
  have h: "held (t_now u) (t_world u) ''int'' = None" "held (t_now u) (t_world u) ''notexist'' = None" using assms(5,12) by simp_all
  show ?thesis
    using passes_emptyCache [where newCache = newCache and t = t, OF assms(1,3) r(1) assms(11) h(2)] passes_incrDecr [where newCache = newCache and t = t, OF assms(1,3) r(1) assms(10)]
      passes_testAdd [where newCache = newCache and t = t, OF assms(1,3) r(2) assms(10) h(1)] passes_testReplace [where newCache = newCache and t = t, OF assms(1,3) r(3) assms(10,11) h(2)]
      passes_expiration [where newCache = newCache and t = t, OF assms(2,4) r(4) assms(10)] assms(7,8)
    by (simp add: passes_all_def passed_def)
qed

end

context backing_store
begin

lemma generic_passes_all:
  assumes "Option.bind (gc_Cache c) as_store = Some st" "gc_DefaultExp c = 0" "inv s" "running 8 (t_now t)" "''int'' \<in> keys" "''notexist'' \<in> keys" "\<forall>k. held (t_now t) s k = None"
  shows "passes_all (behind others) (\<lambda>d t. Some (gc_ops enc dec c, t\<lparr>t_world := (t_world t)\<lparr>w_store := s\<rparr>\<rparr>)) t"
  unfolding behind_eq by (rule int_store.passes_all_of [OF generic_cache [OF assms(1,2)], where u = "t\<lparr>t_world := (t_world t)\<lparr>w_store := s\<rparr>\<rparr>" and v = "t\<lparr>t_world := (t_world t)\<lparr>w_store := s\<rparr>\<rparr>"]) (simp_all add: assms)

end

end
