(* ===== verification/ScenarioSpec.thy ===== *)
theory ScenarioSpec
  imports ScenarioContract RedisPoolSpec
begin

text \<open>
  The scenarios of \<open>src/generic_test_store.go\<close> on the stores of the package: the in-memory store, with and without
  its janitor, generic caches in front of it, and the Redis store over the test server.
\<close>

section \<open>The in-memory store\<close>

text \<open>
  While a test sleeps, the janitor sweeps; its last sweep is within the last second (the interval of the
  tests' janitors) before the end of the sleep.
\<close>

definition mem_sleep :: "nat \<Rightarrow> Time \<Rightarrow> duration \<Rightarrow> inMemoryStore \<Rightarrow> inMemoryStore" where
  "mem_sleep lag now d c =
     (case mem_DeleteExpired (\<lambda>_. time_Add now (d - of_nat (lag mod 1000000000))) c of Some c' \<Rightarrow> c' | None \<Rightarrow> c)"

definition left :: "Time \<Rightarrow> GenericCacheEntry \<Rightarrow> int option" where
  "left now e = (if ExpiresAt e = 0 then None else Some (sint (ExpiresAt e) * 1000000000 - nanos now))"

definition mem_held :: "Time \<Rightarrow> inMemoryStore \<Rightarrow> string \<Rightarrow> (int64 \<times> int option) option" where
  "mem_held now c k = (case mem_content c k of None \<Rightarrow> None | Some e \<Rightarrow> (case Data e of VInt i \<Rightarrow> Some (i, left now e) | _ \<Rightarrow> None))"

definition scenario_keys :: "string set" where
  "scenario_keys = {''int'', ''notexist''}"

definition int_entry :: "GenericCacheEntry \<Rightarrow> bool" where
  "int_entry e \<longleftrightarrow> (\<exists>i. Data e = VInt i) \<and> sint (ExpiresAt e) < 2 ^ 62"

definition mem_fit :: "inMemoryStore \<Rightarrow> bool" where
  "mem_fit c \<longleftrightarrow> mem_ok 100 c \<and> (\<forall>k e. mem_content c k = Some e \<longrightarrow> k \<in> scenario_keys \<and> int_entry e) \<and> 1000000000 \<le> sint (store_DefaultExp c)"

lemma mem_fit_inv: "mem_fit c \<Longrightarrow> mem_inv c"
  by (simp add: mem_fit_def mem_ok_def)

lemma mem_fit_le: "mem_fit c \<Longrightarrow> mem_ok 100 c' \<Longrightarrow> mem_content c' \<subseteq>\<^sub>m mem_content c \<Longrightarrow> store_DefaultExp c' = store_DefaultExp c \<Longrightarrow> mem_fit c'"
  by (auto simp: mem_fit_def dest: map_le_Some)

lemma held_cases:
  assumes "mem_fit c"
  shows "mem_held now c k = None \<longleftrightarrow> mem_content c k = None"
    "mem_held now c k = Some (i, r) \<longleftrightarrow> (\<exists>e. mem_content c k = Some e \<and> Data e = VInt i \<and> r = left now e)"
proof -
  have "mem_content c k = None \<or> (\<exists>e i. mem_content c k = Some e \<and> Data e = VInt i)"
    using assms by (cases "mem_content c k") (auto simp: mem_fit_def int_entry_def)
  then show "mem_held now c k = None \<longleftrightarrow> mem_content c k = None"
    "mem_held now c k = Some (i, r) \<longleftrightarrow> (\<exists>e. mem_content c k = Some e \<and> Data e = VInt i \<and> r = left now e)"
    by (auto simp: mem_held_def)
qed

lemma fit_touched:
  assumes "mem_fit c"
  shows "mem_fit (touched k c)" "mem_content (touched k c) k = mem_content c k" "mem_held now (touched k c) k = mem_held now c k"
  using assms after_get [OF mem_fit_inv [OF assms] refl, of k] mem_fit_le [OF assms ok_touched] by (auto simp: mem_held_def mem_fit_def)

lemma fit_added:
  assumes "mem_fit (c\<lparr>store_lru := l\<rparr>)" "k \<in> scenario_keys" "int_entry e"
  shows "mem_fit (c\<lparr>store_lru := arc_Add k (box_entry e) l\<rparr>)" "mem_content (c\<lparr>store_lru := arc_Add k (box_entry e) l\<rparr>) k = Some e"
proof -
  note add = after_add [OF mem_fit_inv [OF assms(1)], of k e]
  show "mem_content (c\<lparr>store_lru := arc_Add k (box_entry e) l\<rparr>) k = Some e" by (rule add(2))
  have "k' \<in> scenario_keys \<and> int_entry e'" if "mem_content (c\<lparr>store_lru := arc_Add k (box_entry e) l\<rparr>) k' = Some e'" for k' e'
    using map_le_Some [OF add(3) that] assms by (auto simp: mem_fit_def split: if_splits)
  then show "mem_fit (c\<lparr>store_lru := arc_Add k (box_entry e) l\<rparr>)" using assms(1) ok_added [of 100 l c k e] by (auto simp: mem_fit_def)
qed

lemma stored_lives:
  assumes "1000000000 \<le> sint (store_DefaultExp c)" "running 0 now" "exp \<in> expiries"
  shows "int_entry (mem_stored c now (VInt i) exp)" "lives exp (left now (mem_stored c now (VInt i) exp))"
proof -
  have e: "sint (t_sec now + go_div d time_Second) = sint (t_sec now) + sint d div 1000000000" "sint (t_sec now + go_div d time_Second) < 2 ^ 62"
    "1 \<le> sint d div 1000000000" if "1000000000 \<le> sint d" for d
    using sint_expiry [OF running_sane [OF assms(2)], of d] that by (simp_all add: signed_divide_int_def)
  have n: "0 \<le> sint (t_sec now)" "0 \<le> t_nsec now" "t_nsec now < 1000000000" using assms(2) by (simp_all add: running_def)
  have d: "1000000000 \<le> sint time_Second" "1000000000 \<le> sint time_Hour" "sint time_Hour div 1000000000 = 3600" "sint time_Second div 1000000000 = 1"
    "time_Second \<noteq> 0" "time_Hour \<noteq> 0" "time_Second \<noteq> FOREVER" "time_Hour \<noteq> FOREVER" "time_Second \<noteq> time_Hour" "DEFAULT \<noteq> FOREVER" "FOREVER \<noteq> 0" "DEFAULT = 0"
    by (simp_all add: time_Second_def time_Hour_def FOREVER_def DEFAULT_def)
  have pos: "t_sec now + go_div d time_Second \<noteq> 0" if "1000000000 \<le> sint d" for d
  proof
    assume "t_sec now + go_div d time_Second = 0"
    then have "sint (t_sec now + go_div d time_Second) = 0" by simp
    then show False using e(1,3) [OF that] n(1) by simp
  qed
  have f: "fresh (left now (mem_stored c now (VInt i) exp)) \<and> sint (ExpiresAt (mem_stored c now (VInt i) exp)) < 2 ^ 62"
    using assms(3) e [OF assms(1)] e [OF d(1)] e [OF d(2)] pos [OF assms(1)] pos [OF d(1)] pos [OF d(2)] n d
    by (auto simp: mem_stored_def expiry_of_def left_def expiries_def fresh_def nanos_def)
  then show "int_entry (mem_stored c now (VInt i) exp)" by (simp add: int_entry_def mem_stored_def)
  show "lives exp (left now (mem_stored c now (VInt i) exp))"
    unfolding lives_def using f assms(3) e(1) [OF d(1)] e(1) [OF d(2)] pos [OF d(1)] pos [OF d(2)] n d
    by (auto simp: mem_stored_def expiry_of_def left_def expiries_def nanos_def)
qed

lemma mem_store_int:
  assumes "mem_fit c" "running 0 now" "k \<in> scenario_keys" "exp \<in> expiries"
  shows "\<exists>c' r. mem_doAddSet now k (VInt i) exp c = (Ret None, c') \<and> mem_fit c' \<and> mem_held now c' k = Some (i, r) \<and> lives exp r"
proof -
  let ?e = "mem_stored c now (VInt i) exp"
  have e: "int_entry ?e" "lives exp (left now ?e)" "Data ?e = VInt i"
    using stored_lives [OF _ assms(2,4), of c i] assms(1) by (simp_all add: mem_fit_def mem_stored_def)
  have f: "mem_fit (c\<lparr>store_lru := store_lru c\<rparr>)" using assms(1) by simp
  from fit_added [OF f assms(3) e(1)] e show ?thesis
    by (auto simp: mem_doAddSet_eq held_cases)
qed

lemma fresh_Expired: "running 0 now \<Longrightarrow> int_entry e \<Longrightarrow> Expired now e \<longleftrightarrow> (\<exists>l. left now e = Some l \<and> l < 0)"
  using Expired_nanos [OF running_sane, of 0 now e] by (auto simp: int_entry_def left_def)

lemma mem_get_int:
  assumes "mem_fit c" "running 0 now" "mem_held now c k = Some (i, r)" "fresh r"
  shows "mem_Get now k (TPtr TInt) c = (Ret (None, Some (VInt i)), touched k c)"
proof -
  obtain e where e: "mem_content c k = Some e" "Data e = VInt i" "r = left now e" using assms(1,3) held_cases(2) by blast
  then have "\<not> Expired now e" using fresh_Expired [OF assms(2), of e] assms(1,4) by (auto simp: mem_fit_def fresh_def)
  then show ?thesis using e by (simp add: mem_Get_eq [OF mem_fit_inv [OF assms(1)]] mem_deliver_def)
qed

lemma mem_count_int:
  assumes "mem_fit c" "k \<in> scenario_keys" "mem_held now c k = Some (i, r)"
  shows "\<exists>c' r'. mem_count f k c = (Ret (f i, None), c') \<and> mem_fit c' \<and> mem_held now c' k = Some (f i, r')"
proof -
  obtain e where e: "mem_content c k = Some e" "Data e = VInt i" using assms(1,3) held_cases(2) by blast
  then have "int_entry (e\<lparr>Data := VInt (f i)\<rparr>)" using assms(1) by (auto simp: mem_fit_def int_entry_def)
  from fit_added [OF fit_touched(1) [OF assms(1)] assms(2) this] e show ?thesis by (auto simp: mem_count_def held_cases)
qed

lemma scenario_within: "mem_fit c \<Longrightarrow> within_size c"
proof -
  assume f: "mem_fit c"
  have a: "arc_inv (store_lru c)" "arc_size (store_lru c) = 100" using f mem_invD(1) [OF mem_fit_inv [OF f]] by (simp_all add: mem_fit_def mem_ok_def)
  have "dom (arc_lookup (store_lru c)) \<subseteq> scenario_keys"
  proof
    fix k assume "k \<in> dom (arc_lookup (store_lru c))"
    then obtain e where "mem_content c k = Some e" using mem_content_None [OF mem_fit_inv [OF f], of k] by auto
    then show "k \<in> scenario_keys" using f by (auto simp: mem_fit_def)
  qed
  then have "card (dom (arc_lookup (store_lru c))) \<le> card scenario_keys" by (rule card_mono [rotated]) (simp add: scenario_keys_def)
  then show ?thesis using a by (simp add: within_size_def arc_Len_card scenario_keys_def)
qed

lemma mem_sweep_default: "mem_sweep clock i ks c = Some c' \<Longrightarrow> store_DefaultExp c' = store_DefaultExp c"
  by (induction ks arbitrary: i c) (auto split: prod.splits option.splits)

lemma mem_sleep_ages:
  assumes "mem_fit c" "running s now" "s \<in> {2, 5}" "d = of_nat s * time_Second"
  shows "mem_fit (mem_sleep lag now d c)" "aged (sint d) (mem_held now c k) (mem_held (time_Add now d) (mem_sleep lag now d c) k)"
proof -
  let ?lag = "of_nat (lag mod 1000000000) :: int64"
  let ?tick = "time_Add now (d - ?lag)"
  note inv = mem_fit_inv [OF assms(1)]
  have d: "sint d = int s * 1000000000" using assms(3,4) by (auto simp: time_Second_def)
  have lag: "0 \<le> sint ?lag" "sint ?lag < 1000000000" "sint (d - ?lag) = sint d - sint ?lag"
  proof -
    have "sint ?lag = int (lag mod 1000000000)"
    proof -
      have "?lag = word_of_int (int (lag mod 1000000000))" by simp
      moreover have "sint (word_of_int (int (lag mod 1000000000)) :: int64) = int (lag mod 1000000000)" by (rule sint_word_of_int64) simp_all
      ultimately show ?thesis by metis
    qed
    then show l: "0 \<le> sint ?lag" "sint ?lag < 1000000000" by simp_all
    have "d - ?lag = word_of_int (sint d - sint ?lag)" by simp
    also have "sint \<dots> = sint d - sint ?lag" using l d assms(3) by (intro sint_word_of_int64) auto
    finally show "sint (d - ?lag) = sint d - sint ?lag" .
  qed
  have t: "nanos ?tick = nanos now + sint d - sint ?lag" "running 0 ?tick" "nanos (time_Add now d) = nanos now + sint d"
    using time_Add_nanos [of 0 s now "d - ?lag"] time_Add_nanos [of 0 s now d] assms(2,3) lag d by auto
  obtain c' where c': "mem_DeleteExpired (\<lambda>_. ?tick) c = Some c'" "swept (\<lambda>_. ?tick) 0 (arc_Keys (store_lru c)) c c'" "mem_sleep lag now d c = c'"
    using mem_sweep_swept [OF inv, of "\<lambda>_. ?tick" 0 "arc_Keys (store_lru c)"] by (auto simp: mem_DeleteExpired_def mem_sleep_def)
  have le: "mem_content c' \<subseteq>\<^sub>m mem_content c" using c'(2) by (simp add: swept_def)
  have "store_DefaultExp c' = store_DefaultExp c" using mem_sweep_default c'(1) by (simp add: mem_DeleteExpired_def)
  then show fit: "mem_fit (mem_sleep lag now d c)"
    using mem_fit_le [OF assms(1) ok_swept le] assms(1) c'(1,3) by (auto simp: mem_fit_def mem_DeleteExpired_def)
  have gone: "mem_content c' k = None" if "mem_content c k = Some e" "Expired ?tick e" for e
  proof -
    have "k \<in> set (arc_Keys (store_lru c))" using that(1) arc.keys_dom [OF mem_invD(1) [OF inv]] mem_content_Some [OF inv] by auto
    then obtain j where "j < length (arc_Keys (store_lru c))" "arc_Keys (store_lru c) ! j = k" by (auto simp: in_set_conv_nth)
    then show ?thesis using c'(2) that unfolding swept_def by auto
  qed
  have stays: "mem_content c' k = Some e" if "mem_content c k = Some e" "\<not> Expired ?tick e" for e
    using c'(2) scenario_within [OF assms(1)] that unfolding swept_def by auto
  show "aged (sint d) (mem_held now c k) (mem_held (time_Add now d) (mem_sleep lag now d c) k)"
  proof (cases "mem_held now c k")
    case None
    then have "mem_content c' k = None" using held_cases(1) [OF assms(1)] map_le_None [OF le] by blast
    then have "mem_held (time_Add now d) (mem_sleep lag now d c) k = None" using held_cases(1) [OF fit] c'(3) by blast
    then show ?thesis using None by (simp add: aged_def)
  next
    case (Some x)
    then obtain i e where e: "mem_content c k = Some e" "Data e = VInt i" "mem_held now c k = Some (i, left now e)"
      using held_cases(2) [OF assms(1)] by (cases x) blast
    have int: "int_entry e" using assms(1) e(1) by (auto simp: mem_fit_def)
    note ex = fresh_Expired [OF t(2) int]
    show ?thesis using gone [OF e(1)] stays [OF e(1)] e int ex t lag held_cases [OF fit, of "time_Add now d" k] c'(3)
      by (auto simp: aged_def left_def split: if_splits)
  qed
qed

text \<open>The values \<open>TInt\<close> and \<open>TPtr TInterface\<close> never reach the entry of an absent key.\<close>

lemma mem_get_none:
  assumes "mem_fit c" "mem_held now c k = None"
  shows "mem_Get now k ty c = (Ret (Some ErrCacheMiss, None), touched k c)"
  using assms by (simp add: mem_Get_eq [OF mem_fit_inv [OF assms(1)]] held_cases)

lemma dec_small:
  assumes "uint (i :: int64) < 2 ^ 63" "uint n < 2 ^ 63"
  shows "i <s n \<longleftrightarrow> i < n"
  using sint_eq_uint64 [OF assms(1)] sint_eq_uint64 [OF assms(2)] by (simp add: word_sless_alt word_less_def)

interpretation mem_test: backing_store mem_ops "mem_sleep lag" mem_fit mem_held scenario_keys for lag
proof (unfold_locales, goal_cases)
  case (1 w now k exp i)
  then show ?case using mem_store_int [OF 1, of i] by (simp add: mem_ops_def mem_Set_def)
next
  case (2 w now k exp i)
  then show ?case using mem_store_int [OF fit_touched(1) [OF 2(1), of k] 2(2-4), of i]
    by (simp add: mem_ops_def mem_Add_eq [OF mem_fit_inv [OF 2(1)]] held_cases)
next
  case (3 w now k exp x i)
  then show ?case using fit_touched [OF 3(1), where k = k] held_cases [OF 3(1), where now = now and k = k]
    by (cases x) (auto simp: mem_ops_def mem_Add_eq [OF mem_fit_inv [OF 3(1)]])
next
  case (4 w now k exp x i)
  then show ?case using mem_store_int [OF fit_touched(1) [OF 4(1), of k] 4(2-4), of i] held_cases [OF 4(1), where now = now and k = k]
    by (cases x) (auto simp: mem_ops_def mem_Replace_eq [OF mem_fit_inv [OF 4(1)]])
next
  case (5 w now k exp i)
  then show ?case using fit_touched [OF 5(1), where k = k] held_cases [OF 5(1), where now = now and k = k]
    by (auto simp: mem_ops_def mem_Replace_eq [OF mem_fit_inv [OF 5(1)]])
next
  case (6 w now k i r)
  then show ?case using mem_get_int [OF 6(1,2,4,5)] fit_touched [OF 6(1), where k = k] by (simp add: mem_ops_def)
next
  case (7 w now k ty)
  then show ?case using mem_get_none [OF 7(1,4), of ty] fit_touched [OF 7(1), where k = k] by (simp add: mem_ops_def)
next
  case (8 w now k)
  then show ?case using fit_touched [OF 8(1), where k = k] held_cases [OF 8(1), where now = now and k = k]
    by (auto simp: mem_ops_def mem_Delete_eq [OF mem_fit_inv [OF 8(1)]])
next
  case (9 w now k i r n)
  then show ?case using mem_count_int [OF 9(1,3,4), of "\<lambda>i. i + n"] by (simp add: mem_ops_def mem_Increment_eq [OF mem_fit_inv [OF 9(1)]])
next
  case (10 w now k n)
  then show ?case using fit_touched [OF 10(1), where k = k] held_cases [OF 10(1), where now = now and k = k]
    by (auto simp: mem_ops_def mem_Increment_eq [OF mem_fit_inv [OF 10(1)]] mem_count_def)
next
  case (11 w now k i r n)
  then show ?case using mem_count_int [OF 11(1,3,4), of "\<lambda>i. if i <s n then 0 else i - n"] dec_small [OF 11(5,6)]
    by (simp add: mem_ops_def mem_Decrement_eq [OF mem_fit_inv [OF 11(1)]] cong: if_cong)
next
  case (12 w now k n)
  then show ?case using fit_touched [OF 12(1), where k = k] held_cases [OF 12(1), where now = now and k = k]
    by (auto simp: mem_ops_def mem_Decrement_eq [OF mem_fit_inv [OF 12(1)]] mem_count_def)
next
  case (13 w s now k d)
  then show ?case using mem_sleep_ages [OF 13(1,2,4,5)] by blast
next
  case (14 w now k)
  then show ?case using mem_get_none [OF 14(1,4)] fit_touched [OF 14(1), where k = k] by (simp add: mem_ops_def)
qed

section \<open>The Redis store\<close>

text \<open>While a test sleeps, the keys of the server get older and its clock moves on.\<close>

definition redis_sleep :: "Time \<Rightarrow> duration \<Rightarrow> Miniredis pooled \<Rightarrow> Miniredis pooled" where
  "redis_sleep now t s = s\<lparr>ps_net := (FastForward t (ps_net s))\<lparr>m_now := time_Add (m_now (ps_net s)) t\<rparr>\<rparr>"

definition redis_held :: "int64 \<Rightarrow> Time \<Rightarrow> Miniredis pooled \<Rightarrow> string \<Rightarrow> (int64 \<times> int option) option" where
  "redis_held d now s k = (case keys_of d s k of None \<Rightarrow> None | Some v \<Rightarrow> map_option (\<lambda>i. (i, map_option sint (ttls_of d s k))) (Atoi v))"

definition redis_fit :: "string \<Rightarrow> string \<Rightarrow> (string \<times> string) option \<Rightarrow> int64 \<Rightarrow> Miniredis pooled \<Rightarrow> bool" where
  "redis_fit host pw sn d s \<longleftrightarrow> (\<exists>clk. serving host pw clk sn 0 d s) \<and> (\<forall>k v. keys_of d s k = Some v \<longrightarrow> (\<exists>i. v = show_int i))
     \<and> (\<forall>k t. ttls_of d s k = Some t \<longrightarrow> 0 < sint t)"

abbreviation test_redis :: "string \<Rightarrow> string \<Rightarrow> int64 \<Rightarrow> Miniredis RedisStore" where
  "test_redis host pw d \<equiv> mini_redis host pw 0 d"

lemma redis_ttl:
  assumes "exp \<in> expiries"
  shows "\<exists>t. ttl_of (test_redis host pw d) exp = Some t \<and> lives exp (map_option sint t) \<and> (\<forall>l. t = Some l \<longrightarrow> 0 < sint l)"
proof -
  have e: "effective (test_redis host pw d) exp = (if exp = FOREVER then 0 else exp)"
    by (simp add: effective_def NewRedisCache_def DEFAULT_def Let_def)
  have c: "DEFAULT = 0" "FOREVER \<noteq> time_Second" "FOREVER \<noteq> time_Hour" "time_Second \<noteq> 0" "time_Hour \<noteq> 0" "time_Second \<noteq> time_Hour"
    "secs32 time_Second = 1" "secs32 time_Hour = 3600" "0 <s time_Second" "0 <s time_Hour" "\<not> (0 :: int64) <s 0" "FOREVER \<noteq> 0"
    "sint (1 * time_Second) = 1000000000" "sint (3600 * time_Second) = 3600000000000"
    by (simp_all add: DEFAULT_def FOREVER_def time_Second_def time_Hour_def secs32_def go_div_def word_sless_alt)
  show ?thesis using assms c unfolding ttl_of_def Let_def e
    by (auto simp: expiries_def lives_def fresh_def)
qed

lemma redis_held_cases:
  assumes "redis_fit host pw sn d s"
  shows "redis_held d now s k = None \<longleftrightarrow> keys_of d s k = None"
    "redis_held d now s k = Some (i, r) \<longleftrightarrow> keys_of d s k = Some (show_int i) \<and> r = map_option sint (ttls_of d s k)"
proof -
  have "keys_of d s k = None \<or> (\<exists>j. keys_of d s k = Some (show_int j))"
    using assms by (cases "keys_of d s k") (auto simp: redis_fit_def)
  moreover have "show_int j = show_int j' \<Longrightarrow> j = j'" for j j' by (metis Atoi_show option.inject)
  ultimately show "redis_held d now s k = None \<longleftrightarrow> keys_of d s k = None"
    "redis_held d now s k = Some (i, r) \<longleftrightarrow> keys_of d s k = Some (show_int i) \<and> r = map_option sint (ttls_of d s k)"
    by (auto simp: redis_held_def)
qed

lemma redis_fit_same:
  assumes "redis_fit host pw sn d s" "serving host pw clk sn 0 d s'" "keys_of d s' = keys_of d s" "ttls_of d s' = ttls_of d s"
  shows "redis_fit host pw sn d s'" "redis_held d now s' k = redis_held d now s k"
proof -
  show "redis_fit host pw sn d s'" using assms(1,2) by (auto simp: redis_fit_def assms(3,4))
  show "redis_held d now s' k = redis_held d now s k" unfolding redis_held_def assms(3,4) by (rule refl)
qed

lemma redis_fit_upd:
  assumes "redis_fit host pw sn d s" "serving host pw clk sn 0 d s'" "keys_of d s' = (keys_of d s)(k \<mapsto> show_int i)" "ttls_of d s' = (ttls_of d s)(k := t)"
    and "\<forall>l. t = Some l \<longrightarrow> 0 < sint l"
  shows "redis_fit host pw sn d s'" "redis_held d now s' k = Some (i, map_option sint t)"
  using assms by (auto simp: redis_fit_def redis_held_def)

lemma redis_serving: "redis_fit host pw sn d s \<Longrightarrow> \<exists>clk. mini_store.quiet host pw clk sn d 0 s"
  by (auto simp: redis_fit_def serving_quiet)

lemma redis_Serialize: "Serialize enc (VInt i) = Inr (bytes_of_string (show_int i))"
  by (simp add: Serialize_def)

lemmas mini_add_result = mini_store.add_result [OF _ refl, folded serving_quiet keys_of_def ttls_of_def]
lemmas mini_replace_result = mini_store.replace_result [OF _ refl, folded serving_quiet keys_of_def ttls_of_def]
lemmas mini_delete_result = mini_store.delete_result [OF _ refl, folded serving_quiet keys_of_def ttls_of_def]
lemmas mini_increment_result = mini_store.increment_result [OF _ refl, folded serving_quiet keys_of_def ttls_of_def]
lemmas mini_increment_miss = mini_store.increment_miss [OF _ refl, folded serving_quiet keys_of_def ttls_of_def]
lemmas mini_decrement_result = mini_store.decrement_result [OF _ refl, folded serving_quiet keys_of_def ttls_of_def]
lemmas mini_decrement_miss = mini_store.decrement_miss [OF _ refl, folded serving_quiet keys_of_def ttls_of_def]
lemmas mini_atomic_result = mini_store.atomic_result [OF _ refl, folded serving_quiet keys_of_def ttls_of_def]

lemma redis_sleep_serving: "serving host pw clk sn exp d s \<Longrightarrow> serving host pw (time_Add clk t) sn exp d (redis_sleep now t s)"
  using FastForward_serving [of host pw clk sn exp d s t] by (auto simp: redis_sleep_def serving_def mini_inv_def FastForward_def peer_def)

lemma redis_sleep_db:
  assumes "serving host pw clk sn exp d s" "\<forall>k t. ttls_of d s k = Some t \<longrightarrow> 0 < sint t" "0 \<le> sint t"
  shows "keys_of d (redis_sleep now t s) k = (case ttls_of d s k of Some v \<Rightarrow> if sint v \<le> sint t then None else keys_of d s k | None \<Rightarrow> keys_of d s k)"
    "ttls_of d (redis_sleep now t s) k = (case ttls_of d s k of Some v \<Rightarrow> if sint v \<le> sint t then None else Some (v - t) | None \<Rightarrow> None)"
proof -
  have wf: "db_wf (m_dbs (ps_net s) d)" by (rule serving_db [OF assms(1)])
  have p: "\<And>v. ttls_of d s k = Some v \<Longrightarrow> sint (v - t) \<le> 0 \<longleftrightarrow> sint v \<le> sint t" using assms(2,3) sint_sub_pos by blast
  have k: "\<And>v. ttls_of d s k = Some v \<Longrightarrow> keys_of d s k \<noteq> None" using wf by (auto simp: db_wf_def ttls_of_def keys_of_def dom_def)
  show "keys_of d (redis_sleep now t s) k = (case ttls_of d s k of Some v \<Rightarrow> if sint v \<le> sint t then None else keys_of d s k | None \<Rightarrow> keys_of d s k)"
    using p k by (auto simp: redis_sleep_def keys_of_def ttls_of_def FastForward_def fastForward_def Let_def split: option.splits)
  show "ttls_of d (redis_sleep now t s) k = (case ttls_of d s k of Some v \<Rightarrow> if sint v \<le> sint t then None else Some (v - t) | None \<Rightarrow> None)"
    using p k by (auto simp: redis_sleep_def keys_of_def ttls_of_def FastForward_def fastForward_def Let_def split: option.splits)
qed

lemma redis_sleep_ages:
  assumes "redis_fit host pw sn d s" "x \<in> {2, 5}" "t = of_nat x * time_Second"
  shows "redis_fit host pw sn d (redis_sleep now t s)" "aged (sint t) (redis_held d now s k) (redis_held d now' (redis_sleep now t s) k)"
proof -
  obtain clk where q: "serving host pw clk sn 0 d s" using assms(1) by (auto simp: redis_fit_def)
  have t: "0 \<le> sint t" using assms(2,3) by (auto simp: time_Second_def)
  have pos: "\<forall>k t. ttls_of d s k = Some t \<longrightarrow> 0 < sint t" using assms(1) by (simp add: redis_fit_def)
  note db = redis_sleep_db [OF q pos t, of now]
  have sub: "sint (v - t) = sint v - sint t" if "sint t < sint v" for v
  proof -
    have "v - t = word_of_int (sint v - sint t)" by simp
    also have "sint \<dots> = sint v - sint t" using that t sint_bounds64 [of v] sint_bounds64 [of t] by (intro sint_word_of_int64) linarith+
    finally show ?thesis .
  qed
  show fit: "redis_fit host pw sn d (redis_sleep now t s)"
    using assms(1) redis_sleep_serving [OF q, of t now] sub unfolding redis_fit_def db by (auto split: option.splits if_splits)
  show "aged (sint t) (redis_held d now s k) (redis_held d now' (redis_sleep now t s) k)"
  proof (cases "redis_held d now s k")
    case None
    then have "keys_of d s k = None" using redis_held_cases(1) [OF assms(1)] by blast
    then have "keys_of d (redis_sleep now t s) k = None" by (auto simp: db split: option.splits)
    then show ?thesis using None redis_held_cases(1) [OF fit] by (auto simp: aged_def)
  next
    case (Some y)
    then obtain i where i: "keys_of d s k = Some (show_int i)" "y = (i, map_option sint (ttls_of d s k))"
      using redis_held_cases(2) [OF assms(1), of now k "fst y" "snd y"] by (cases y) auto
    have "redis_held d now' (redis_sleep now t s) k = (case ttls_of d s k of None \<Rightarrow> Some y | Some v \<Rightarrow> if sint v \<le> sint t then None else Some (i, Some (sint v - sint t)))"
      using i sub by (auto simp: redis_held_def db split: option.splits)
    then show ?thesis using Some i by (auto simp: aged_def split: option.splits if_splits)
  qed
qed

lemma redis_ready:
  assumes "redis_fit host pw sn d s" "exp \<in> expiries"
  obtains clk t where "serving host pw clk sn 0 d s" "ttl_of (test_redis host pw d) exp = Some t" "lives exp (map_option sint t)" "\<forall>l. t = Some l \<longrightarrow> 0 < sint l"
  using assms(1) redis_ttl [OF assms(2), of host pw d] unfolding redis_fit_def by blast

lemma redis_get:
  assumes "redis_fit host pw sn d s"
  shows "redis_held d now s k = Some (i, r) \<Longrightarrow> \<exists>s'. rs_Get mini_net dec (test_redis host pw d) now k (TPtr TInt) s = (Ret (None, Some (VInt i)), s')
      \<and> redis_fit host pw sn d s' \<and> redis_held d now s' k = Some (i, r)"
    "redis_held d now s k = None \<Longrightarrow> \<exists>s'. rs_Get mini_net dec (test_redis host pw d) now k ty s = (Ret (Some ErrCacheMiss, None), s')
      \<and> redis_fit host pw sn d s' \<and> redis_held d now s' k = None"
proof -
  obtain clk where q: "serving host pw clk sn 0 d s" using assms by (auto simp: redis_fit_def)
  have des: "Deserialize dec (bytes_of_string (show_int i)) (TPtr TInt) = (None, Some (VInt i))"
    by (simp add: Deserialize_def ParseInt_show parsed_def)
  show "\<exists>s'. rs_Get mini_net dec (test_redis host pw d) now k (TPtr TInt) s = (Ret (None, Some (VInt i)), s')
      \<and> redis_fit host pw sn d s' \<and> redis_held d now s' k = Some (i, r)" if h: "redis_held d now s k = Some (i, r)"
    using mini_get_result [OF q, of dec now k "TPtr TInt"] redis_fit_same [OF assms] h redis_held_cases(2) [OF assms, of now k i r] des by force
  show "\<exists>s'. rs_Get mini_net dec (test_redis host pw d) now k ty s = (Ret (Some ErrCacheMiss, None), s')
      \<and> redis_fit host pw sn d s' \<and> redis_held d now s' k = None" if h: "redis_held d now s k = None"
    using mini_get_result [OF q, of dec now k ty] redis_fit_same [OF assms] h redis_held_cases(1) [OF assms, of now k] by force
qed

interpretation redis_test: backing_store "redis_ops mini_net enc dec (test_redis host pw d)" redis_sleep "redis_fit host pw sn d" "redis_held d" UNIV
  for enc dec host pw sn d
proof (unfold_locales, goal_cases)
  case (1 w now k exp i)
  obtain clk t where q: "serving host pw clk sn 0 d w" and t: "ttl_of (test_redis host pw d) exp = Some t" "lives exp (map_option sint t)" "\<forall>l. t = Some l \<longrightarrow> 0 < sint l"
    by (rule redis_ready [OF 1(1,4)])
  obtain s' where s': "rs_Set mini_net enc (test_redis host pw d) now k (VInt i) exp w = (Ret None, s')" "serving host pw clk sn 0 d s'"
    "keys_of d s' = (keys_of d w)(k \<mapsto> show_int i)" "ttls_of d s' = (ttls_of d w)(k := t)"
    using mini_set_stores [OF q redis_Serialize [of enc i] t(1), of now k] by auto
  show ?case using redis_fit_upd [OF 1(1) s'(2-4) t(3)] s'(1) t(2) by (auto simp: redis_ops_def)
next
  case (2 w now k exp i)
  obtain clk t where q: "serving host pw clk sn 0 d w" and t: "ttl_of (test_redis host pw d) exp = Some t" "lives exp (map_option sint t)" "\<forall>l. t = Some l \<longrightarrow> 0 < sint l"
    by (rule redis_ready [OF 2(1,4)])
  have n: "keys_of d w k = None" using 2(5) redis_held_cases(1) [OF 2(1)] by blast
  obtain s' where s': "rs_Add mini_net enc (test_redis host pw d) now k (VInt i) exp w = (Ret None, s')" "serving host pw clk sn 0 d s'"
    "keys_of d s' = (keys_of d w)(k \<mapsto> show_int i)" "ttls_of d s' = (ttls_of d w)(k := t)"
    using mini_add_result [OF q redis_Serialize [of enc i] t(1), of now k] n by auto
  show ?case using redis_fit_upd [OF 2(1) s'(2-4) t(3)] s'(1) t(2) by (auto simp: redis_ops_def)
next
  case (3 w now k exp x i)
  obtain clk t where q: "serving host pw clk sn 0 d w" and t: "ttl_of (test_redis host pw d) exp = Some t"
    by (rule redis_ready [OF 3(1,4)])
  have n: "keys_of d w k \<noteq> None" using 3(5) redis_held_cases(1) [OF 3(1), of now k] by simp
  show ?case using mini_add_result [OF q redis_Serialize [of enc i] t, of now k] redis_fit_same [OF 3(1)] n 3(5) by (fastforce simp: redis_ops_def)
next
  case (4 w now k exp x i)
  obtain clk t where q: "serving host pw clk sn 0 d w" and t: "ttl_of (test_redis host pw d) exp = Some t" "lives exp (map_option sint t)" "\<forall>l. t = Some l \<longrightarrow> 0 < sint l"
    by (rule redis_ready [OF 4(1,4)])
  have n: "keys_of d w k \<noteq> None" using 4(5) redis_held_cases(1) [OF 4(1), of now k] by simp
  obtain s' where s': "rs_Replace mini_net enc (test_redis host pw d) now k (VInt i) exp w = (Ret None, s')" "serving host pw clk sn 0 d s'"
    "keys_of d s' = (keys_of d w)(k \<mapsto> show_int i)" "ttls_of d s' = (ttls_of d w)(k := t)"
    using mini_replace_result [OF q redis_Serialize [of enc i] t(1), of now k] n by auto
  show ?case using redis_fit_upd [OF 4(1) s'(2-4) t(3)] s'(1) t(2) by (auto simp: redis_ops_def)
next
  case (5 w now k exp i)
  obtain clk t where q: "serving host pw clk sn 0 d w" and t: "ttl_of (test_redis host pw d) exp = Some t"
    by (rule redis_ready [OF 5(1,4)])
  have n: "keys_of d w k = None" using 5(5) redis_held_cases(1) [OF 5(1), of now k] by simp
  show ?case using mini_replace_result [OF q redis_Serialize [of enc i] t, of now k] redis_fit_same [OF 5(1)] n 5(5) by (fastforce simp: redis_ops_def)
next
  case (6 w now k i r)
  then show ?case using redis_get(1) [OF 6(1,4), of dec] by (simp add: redis_ops_def)
next
  case (7 w now k ty)
  then show ?case using redis_get(2) [OF 7(1,4), of dec ty] by (simp add: redis_ops_def)
next
  case (8 w now k)
  obtain clk where q: "serving host pw clk sn 0 d w" using 8(1) by (auto simp: redis_fit_def)
  have n: "keys_of d w k = None" using 8(4) redis_held_cases(1) [OF 8(1), of now k] by simp
  then have "(keys_of d w)(k := None) = keys_of d w" by auto
  then show ?case using mini_delete_result [OF q, of now k] redis_fit_same [OF 8(1)] n 8(4) by (fastforce simp: redis_ops_def)
next
  case (9 w now k i r n)
  obtain clk where q: "serving host pw clk sn 0 d w" using 9(1) by (auto simp: redis_fit_def)
  have k: "keys_of d w k = Some (show_int i)" using 9(4) redis_held_cases(2) [OF 9(1), of now k i r] by simp
  show ?case using mini_increment_result [OF q k, of now n] redis_fit_upd [OF 9(1), of _ _ k "i + n" None] by (fastforce simp: redis_ops_def)
next
  case (10 w now k n)
  obtain clk where q: "serving host pw clk sn 0 d w" using 10(1) by (auto simp: redis_fit_def)
  have k: "keys_of d w k = None" using 10(4) redis_held_cases(1) [OF 10(1), of now k] by simp
  show ?case using mini_increment_miss [OF q k, of now n] redis_fit_same [OF 10(1)] 10(4) by (fastforce simp: redis_ops_def)
next
  case (11 w now k i r n)
  obtain clk where q: "serving host pw clk sn 0 d w" using 11(1) by (auto simp: redis_fit_def)
  have k: "keys_of d w k = Some (show_int i)" using 11(4) redis_held_cases(2) [OF 11(1), of now k i r] by simp
  let ?v = "if i < n then 0 else i - n"
  obtain s' where s': "rs_Decrement mini_net (test_redis host pw d) now k n w = (Ret (?v, None), s')" "serving host pw clk sn 0 d s'"
    "keys_of d s' = (keys_of d w)(k \<mapsto> show_int ?v)" "ttls_of d s' = ttls_of d w"
    using mini_decrement_result [OF q k 11(5), of now n] by blast
  have ttl: "ttls_of d s' = (ttls_of d w)(k := ttls_of d w k)" "\<forall>l. ttls_of d w k = Some l \<longrightarrow> 0 < sint l" using s'(4) 11(1) by (simp_all add: redis_fit_def)
  show ?case using redis_fit_upd [OF 11(1) s'(2,3) ttl] s'(1) unfolding redis_ops_def CacheStore.select_convs by blast
next
  case (12 w now k n)
  obtain clk where q: "serving host pw clk sn 0 d w" using 12(1) by (auto simp: redis_fit_def)
  have k: "keys_of d w k = None" using 12(4) redis_held_cases(1) [OF 12(1), of now k] by simp
  show ?case using mini_decrement_miss [OF q k, of now n] redis_fit_same [OF 12(1)] 12(4) by (fastforce simp: redis_ops_def)
next
  case (13 w s now k t)
  then show ?case using redis_sleep_ages [OF 13(1,4,5)] by blast
next
  case (14 w now k)
  then show ?case using redis_get(2) [OF 14(1,4), of dec] by (simp add: redis_ops_def)
qed

end
