(* ===== verification/ScenarioTheorems.thy ===== *)
theory ScenarioTheorems
  imports ScenarioSpec
begin

text \<open>
  The scenarios of \<open>src/generic_test_store.go\<close> as \<open>src/inmemory_test.go\<close> and \<open>src/generic_test.go\<close> run them: which
  pass, and what they report on a store without a janitor and on a server whose keys do not age.
\<close>

section \<open>Factories\<close>

text \<open>
  The factories of \<open>src/inmemory_test.go\<close> and \<open>src/generic_test.go\<close> for the in-memory store, and a generic cache
  over a Redis store without default expiry. A test has passed if it did not panic and reported nothing.
\<close>

definition newInMemoryStore :: "(inMemoryStore, inMemoryStore CacheStore) factory" where
  "newInMemoryStore defaultExpiration t =
     (case NewInMemoryStore 100 defaultExpiration time_Second True [] of
        Inl err \<Rightarrow> None
      | Inr (c, gauge, final) \<Rightarrow> Some (mem_ops, t\<lparr>t_world := c\<rparr>))"

definition newExpiryLRUInMemoryStore :: "(inMemoryStore world, inMemoryStore tested_cache) factory" where
  "newExpiryLRUInMemoryStore defaultExpiration t =
     (case NewInMemoryStore 100 time_Second time_Second True [] of
        Inl err \<Rightarrow> None
      | Inr (store, gauge, final) \<Rightarrow>
          Some (IsGeneric (NewCacheWithPool (Some (StoreIface mem_ops)) Writable L2 ''test-secret-must'' 0 (Some (bytes_of_string ''test'')) False),
                t\<lparr>t_world := (t_world t)\<lparr>w_store := store\<rparr>\<rparr>))"

definition as_stores ::
  "(godata \<Rightarrow> error + bytes) \<Rightarrow> (bytes \<Rightarrow> error + godata) \<Rightarrow> ('s world, 's tested_cache) factory \<Rightarrow> ('s world, 's world CacheStore) factory" where
  "as_stores enc dec newCache d t = (case newCache d t of None \<Rightarrow> None | Some (c, u) \<Rightarrow> Some (as_CacheStore enc dec c, u))"

lemma new_memory:
  assumes "1000000000 \<le> sint d"
  obtains c gauge final where "NewInMemoryStore 100 d time_Second True [] = Inr (c, gauge, final)" "mem_fit c" "mem_content c = Map.empty"
proof -
  obtain l :: "(string, godata) ARCCache" where l: "NewARC 100 = Some l" by (simp add: NewARC_def NewLRU_def)
  then obtain c gauge final where c: "NewInMemoryStore 100 d time_Second True [] = Inr (c, gauge, final)" "store_DefaultExp c = d"
    by (simp add: NewInMemoryStore_def runJanitor_def Let_def time_Second_def word_sless_alt)
  then show thesis using that NewInMemoryStore_ok(1,2) [OF c(1)] assms by (simp add: mem_fit_def)
qed

lemma default_durations: "1000000000 \<le> sint time_Hour" "1000000000 \<le> sint time_Second"
  by (simp_all add: time_Hour_def time_Second_def)

lemma new_memory_store:
  assumes "1000000000 \<le> sint d"
  shows "\<exists>u. newInMemoryStore d t = Some (mem_ops, u) \<and> mem_fit (t_world u) \<and> mem_content (t_world u) = Map.empty \<and> t_now u = t_now t \<and> t_errors u = t_errors t"
proof -
  obtain c gauge final where "NewInMemoryStore 100 d time_Second True [] = Inr (c, gauge, final)" "mem_fit c" "mem_content c = Map.empty"
    by (rule new_memory [OF assms])
  then show ?thesis by (simp add: newInMemoryStore_def)
qed

section \<open>In memory\<close>

lemma scenario_key [simp]: "''int'' \<in> scenario_keys" "''notexist'' \<in> scenario_keys"
  by (simp_all add: scenario_keys_def)

lemma stored_fresh:
  assumes "running 0 now" "exp \<noteq> FOREVER" "1000000000 \<le> sint (if exp = 0 then store_DefaultExp c else exp)"
  shows "\<not> Expired now (mem_stored c now v exp)"
proof -
  let ?d = "if exp = 0 then store_DefaultExp c else exp"
  have e: "sint (t_sec now + go_div ?d time_Second) = sint (t_sec now) + sint ?d div 1000000000" "sint (t_sec now + go_div ?d time_Second) < 2 ^ 62" "1 \<le> sint ?d div 1000000000"
    using sint_expiry [OF running_sane [OF assms(1)], of ?d] assms(3) by (simp_all add: signed_divide_int_def)
  have x: "ExpiresAt (mem_stored c now v exp) = t_sec now + go_div ?d time_Second" using assms(2) by (simp add: mem_stored_def expiry_of_def)
  show ?thesis using Expired_nanos [OF running_sane [OF assms(1)], of "mem_stored c now v exp"] e assms(1) unfolding x by (auto simp: nanos_def running_def)
qed

text \<open>
  The in-memory store passes the scenarios it is tested with, at any time of the present era: a missing key,
  counters with wrap-around and stop at 0, adding, replacing and expiry, as long as the janitor has swept
  within the last second of every sleep.
\<close>

theorem in_memory_scenarios:
  assumes "running 8 (t_now t)"
  shows "passes_all (mem_sleep lag) newInMemoryStore t"
proof -
  obtain u where u: "newInMemoryStore time_Hour t = Some (mem_ops, u)" "mem_fit (t_world u)" "mem_content (t_world u) = Map.empty" "t_now u = t_now t" "t_errors u = t_errors t"
    using new_memory_store [OF default_durations(1), of t] by blast
  obtain v where v: "newInMemoryStore time_Second t = Some (mem_ops, v)" "mem_fit (t_world v)" "t_now v = t_now t" "t_errors v = t_errors t"
    using new_memory_store [OF default_durations(2), of t] by blast
  show ?thesis
    by (rule mem_test.passes_all_of [where newCache = newInMemoryStore, OF u(1) v(1) u(2) v(2) u(4) v(3) u(5) v(4) assms])
      (simp_all add: u(3) mem_held_def)
qed

lemma generic_passed:
  assumes "newCache = (\<lambda>d t. Some (st, f t))" "newCache' time_Hour t = Some (st, f t)" "newCache' time_Second t = Some (st, f t)"
    and "passes_all others newCache t"
  shows "passes_all others newCache' t"
  using assms by (simp add: passes_all_def emptyCache_def incrDecr_def testAdd_def testReplace_def expiration_def)

definition lru_cache :: "inMemoryStore GenericCache" where
  "lru_cache = NewCacheWithPool (Some (StoreIface mem_ops)) Writable L2 ''test-secret-must'' 0 (Some (bytes_of_string ''test'')) False"

lemma gc_string:
  assumes "usable mem_ops c" "mem_inv (w_store w)"
  shows "\<exists>w'. gc_Set enc now now k (VString v) 0 c w = (Ret None, w') \<and> mem_inv (w_store w') \<and> store_DefaultExp (w_store w') = store_DefaultExp (w_store w)
      \<and> mem_content (w_store w') k = Some (mem_stored (w_store w) now (VString v) (gc_DefaultExp c))"
    "mem_content (w_store w) k = Some e \<Longrightarrow> Data e = VString v \<Longrightarrow> \<not> Expired now e \<Longrightarrow>
      \<exists>w'. gc_Get dec now k (TPtr TString) c w = (Ret (None, Some (VString v)), w') \<and> mem_inv (w_store w') \<and> mem_content (w_store w') k = Some e
       \<and> store_DefaultExp (w_store w') = store_DefaultExp (w_store w)"
proof -
  have b: "Option.bind (gc_Cache c) as_store = Some mem_ops" "gc_Cache c \<noteq> None" using assms(1) usable_cache [OF assms(1)] by (simp_all add: usable_def)
  show "\<exists>w'. gc_Set enc now now k (VString v) 0 c w = (Ret None, w') \<and> mem_inv (w_store w') \<and> store_DefaultExp (w_store w') = store_DefaultExp (w_store w)
      \<and> mem_content (w_store w') k = Some (mem_stored (w_store w) now (VString v) (gc_DefaultExp c))"
    using b after_add(1,2) [of "store_lru (w_store w)" "w_store w" k] assms(2)
    by (auto simp: gc_Set_def seal_def on_store_Some Let_def mem_ops_def mem_Set_def mem_doAddSet_eq mem_settable_def)
  show "\<exists>w'. gc_Get dec now k (TPtr TString) c w = (Ret (None, Some (VString v)), w') \<and> mem_inv (w_store w') \<and> mem_content (w_store w') k = Some e
       \<and> store_DefaultExp (w_store w') = store_DefaultExp (w_store w)"
    if "mem_content (w_store w) k = Some e" "Data e = VString v" "\<not> Expired now e"
    using b that after_get [OF assms(2) refl, of k]
    by (auto simp: gc_Get_def int_names_def fetch_def on_store_Some Let_def mem_ops_def mem_Get_eq [OF assms(2)] mem_deliver_def)
qed

text \<open>\<open>typicalGetSet\<close> on a generic cache over the in-memory store, encrypting or not.\<close>

lemma typical_passes:
  assumes "newCache time_Hour t = Some (IsGeneric c, u)" "usable mem_ops c" "gc_DefaultExp c = 0" "mem_inv (w_store (t_world u))"
    and "1000000000 \<le> sint (store_DefaultExp (w_store (t_world u)))" "running 0 (t_now u)" "gc_EncryptData c \<longrightarrow> gob_roundtrip enc dec (VString ''encrypted-data'')"
  shows "\<exists>v. typicalGetSet enc dec newCache t = Some v \<and> t_errors v = t_errors u"
proof -
  let ?now = "t_now u" and ?k = "''value''" and ?e1 = "mem_stored (w_store (t_world u)) (t_now u) (VString ''foo'') 0"
  have f: "\<not> Expired ?now ?e1" "Data ?e1 = VString ''foo''" using stored_fresh [OF assms(6), of 0 _ "VString ''foo''"] assms(5) by (simp_all add: FOREVER_def mem_stored_def)
  obtain w1 where w1: "gc_Set enc ?now ?now ?k (VString ''foo'') DEFAULT c (t_world u) = (Ret None, w1)" "mem_inv (w_store w1)" "mem_content (w_store w1) ?k = Some ?e1"
    using gc_string(1) [OF assms(2,4)] unfolding assms(3) DEFAULT_def by blast
  obtain w2 where w2: "gc_Get dec ?now ?k (TPtr TString) c w1 = (Ret (None, Some (VString ''foo'')), w2)" "mem_inv (w_store w2)" "mem_content (w_store w2) ?k = Some ?e1"
    using gc_string(2) [OF assms(2) w1(2,3) f(2,1)] by blast
  obtain w3 where w3: "gc_Get dec ?now ?k (TPtr TString) c w2 = (Ret (None, Some (VString ''foo'')), w3)" "mem_inv (w_store w3)"
    using gc_string(2) [OF assms(2) w2(2,3) f(2,1)] by blast
  let ?exp = "3 * time_Minute"
  let ?entry = "gc_NewGenericCacheEntry c ?now (VString ''encrypted-data'') ?exp"
  have d: "Data ?entry = VString ''encrypted-data''" by (simp add: gc_NewGenericCacheEntry_def NewGenericCacheEntry_def Let_def)
  obtain e' where e': "fst (gc_Set enc ?now ?now ?k (box_entry ?entry) ?exp c w3) = Ret None"
    "mem_inv (w_store (snd (gc_Set enc ?now ?now ?k (box_entry ?entry) ?exp c w3)))"
    "mem_content (w_store (snd (gc_Set enc ?now ?now ?k (box_entry ?entry) ?exp c w3))) ?k = Some (mem_stored (w_store w3) ?now (box_entry e') ?exp)"
    "holds dec c (Data ?entry) (Data e')"
    using mem.gc_Set_stores [OF assms(2) w3(2), of enc dec ?entry ?now ?now ?k ?exp] assms(7) unfolding d by (auto simp: time_Minute_def time_Second_def)
  have g: "\<not> Expired ?now (mem_stored (w_store w3) ?now (box_entry e') ?exp)" "Data (mem_stored (w_store w3) ?now (box_entry e') ?exp) = Data e'"
    using stored_fresh [OF assms(6), of ?exp _ "box_entry e'"] by (simp_all add: FOREVER_def mem_stored_def box_entry_def time_Minute_def time_Second_def)
  obtain w4 where w4: "gc_Set enc ?now ?now ?k (box_entry ?entry) ?exp c w3 = (Ret None, w4)" using e'(1) by (metis prod.collapse)
  obtain w5 e5 where w5: "gc_Get dec ?now ?k (TPtr TEntry) c w4 = (Ret (None, Some (box_entry e5)), w5)" "Data e5 = VString ''encrypted-data''"
    using mem.gc_Get_held [OF assms(2) e'(2,3), of dec "Data ?entry" ?now] e'(4) g w4 d by (cases "gc_Get dec ?now ?k (TPtr TEntry) c w4") simp
  show ?thesis using assms(1) w1(1) w2(1) w3(1) w4 w5
    by (simp add: typicalGetSet_def call_def errorf_def gc_ops_def var_string_def written_def Let_def)
qed


section \<open>The scenarios for Redis\<close>

lemma sint_of_nat64:
  assumes "n < 2 ^ 63"
  shows "sint (of_nat n :: int64) = int n"
proof -
  have "int n < 2 ^ 63" using assms by (metis of_nat_less_iff of_nat_numeral of_nat_power)
  moreover have "(of_nat n :: int64) = word_of_int (int n)" by simp
  ultimately show ?thesis using sint_word_of_int64 [of "int n"] by auto
qed

lemma nanos_whole:
  fixes a b c :: int
  assumes "a * 1000000000 + b = c * 1000000000" "0 \<le> b" "b < 1000000000"
  shows "b = 0" "a = c"
proof -
  show "a = c" using assms by linarith
  then show "b = 0" using assms(1) by simp
qed

lemma time_Sub_later:
  assumes "running 60 clk" "0 < n" "n \<le> 60"
  shows "sint (time_Sub (time_Unix (t_sec clk + of_nat n)) clk) = int n * 1000000000 - t_nsec clk"
proof -
  let ?t = "time_Unix (t_sec clk + of_nat n)" and ?x = "int n * 1000000000 - t_nsec clk"
  let ?d = "(t_sec ?t - t_sec clk) * time_Second + word_of_int (t_nsec ?t - t_nsec clk)"
  have c: "0 \<le> t_nsec clk" "t_nsec clk < 1000000000" "0 \<le> sint (t_sec clk)" "sint (t_sec clk) + 60 < 2 ^ 61" using assms(1) by (simp_all add: running_def)
  have d: "?d = word_of_int ?x" by (simp add: time_Unix_def time_Second_def)
  have x: "sint (word_of_int ?x :: int64) = ?x" using c assms(3) by (intro sint_word_of_int64) auto
  have n: "sint (of_nat n :: int64) = int n" using assms(3) by (intro sint_of_nat64) simp
  have s: "sint (t_sec ?t) = sint (t_sec clk) + int n" using c assms(3) n by (simp add: time_Unix_def sint_add64)
  have a: "nanos (time_Add clk ?d) = nanos clk + ?x" "running 0 (time_Add clk ?d)"
    using time_Add_nanos [of 0 60 clk ?d] assms c x unfolding d by simp_all
  have "nanos (time_Add clk ?d) = nanos ?t" using a(1) s by (simp add: nanos_def time_Unix_def)
  moreover have "time_Add clk ?d = ?t" if "nanos (time_Add clk ?d) = nanos ?t"
  proof -
    have m: "t_nsec ?t = 0" by (simp add: time_Unix_def)
    have "t_nsec (time_Add clk ?d) = 0" "sint (t_sec (time_Add clk ?d)) = sint (t_sec ?t)"
      using nanos_whole [of "sint (t_sec (time_Add clk ?d))" "t_nsec (time_Add clk ?d)" "sint (t_sec ?t)"] that a(2) m
      by (simp_all add: nanos_def running_def)
    then show ?thesis using m by (intro Time.equality) (simp_all add: signed_word_eqI)
  qed
  ultimately have "time_Sub ?t clk = ?d" by (simp add: time_Sub_def Let_def)
  then show ?thesis using x unfolding d by metis
qed

lemma gc_Get_miss:
  assumes "Option.bind (gc_Cache c) as_store = Some st" "m_Get st now k (TPtr (TNum Uint64)) (w_store w) = (Ret (Some ErrCacheMiss, out), s)"
  shows "\<exists>w'. gc_Get dec now k (TPtr (TNum Uint64)) c w = (Ret (Some ErrCacheMiss, out), w') \<and> w_store w' = s"
  using assms bind_as_store [OF assms(1)] by (auto simp: gc_Get_def int_names_def fetch_def on_store_Some Let_def)

lemma seconds_later:
  assumes "running 60 clk" "0 < n" "n \<le> 60"
  shows "uint (t_sec clk + of_nat n) < 2 ^ 63"
proof -
  have n: "sint (of_nat n :: int64) = int n" using assms(3) by (intro sint_of_nat64) simp
  have "sint (t_sec clk + of_nat n) = sint (t_sec clk) + int n" using assms n by (simp add: running_def sint_add64)
  then have "0 \<le> sint (t_sec clk + of_nat n)" "sint (t_sec clk + of_nat n) < 2 ^ 63" using assms(1,3) by (simp_all add: running_def)
  moreover have "uint (t_sec clk + of_nat n) = sint (t_sec clk + of_nat n) mod 2 ^ 64" using uint_word_of_int [of "sint (t_sec clk + of_nat n)", where 'a = 64] by simp
  ultimately show ?thesis by simp
qed

lemma no_ttls: "serving host pw clk sn exp d s \<Longrightarrow> keys_of d s = Map.empty \<Longrightarrow> ttls_of d s = Map.empty"
  using serving_db [of host pw clk sn exp d s] by (auto simp: db_wf_def ttls_of_def keys_of_def dom_def fun_eq_iff)

lemma mini_later:
  assumes "serving host pw clk sn 0 d s" "running 60 clk" "0 < n" "n \<le> 60" "keys_of d s k \<noteq> None"
  shows "\<exists>s1 l. rs_ExpireAt mini_net (test_redis host pw d) now k (t_sec clk + of_nat n) s = (Ret None, s1) \<and> serving host pw clk sn 0 d s1
      \<and> keys_of d s1 = keys_of d s \<and> ttls_of d s1 = (ttls_of d s)(k \<mapsto> l) \<and> 0 < sint l \<and> sint l \<le> int n * 1000000000"
proof -
  let ?l = "time_Sub (time_Unix (t_sec clk + of_nat n)) clk"
  have l: "0 < sint ?l" "sint ?l \<le> int n * 1000000000" using time_Sub_later [OF assms(2-4)] assms(2,3) by (simp_all add: running_def)
  then show ?thesis using mini_ExpireAt [OF assms(1) refl seconds_later [OF assms(2-4)] refl, of now k] assms(5) by auto
qed

text \<open>The calls of \<open>incrRedisAtomicAndExpireAt\<close> before the sleep, on the store.\<close>

lemma atomic_calls:
  assumes "serving host pw clk sn 0 d s" "keys_of d s = Map.empty" "running 60 clk" "ri = test_redis host pw d"
  shows "\<exists>s1 s2 s3 s4 s5 s6 s7. rs_Set mini_net enc ri clk ''int'' (VInt 10) DEFAULT s = (Ret None, s1)
    \<and> rs_IncrementAtomic mini_net ri clk ''int'' 50 s1 = (Ret (60, None), s2)
    \<and> rs_ExpireAt mini_net ri clk ''int'' (t_sec clk + 30) s2 = (Ret None, s3)
    \<and> rs_IncrementCheckSet mini_net ri clk ''int'' 50 s3 = (Ret (110, None), s4)
    \<and> rs_IncrementCheckSet mini_net ri clk ''badkey'' 50 s4 = (Ret (0, Some ErrCacheMiss), s5)
    \<and> rs_IncrementAtomic mini_net ri clk ''newInt'' 2 s5 = (Ret (2, None), s6)
    \<and> rs_ExpireAt mini_net ri clk ''newInt'' (t_sec clk + 1) s6 = (Ret None, s7)
    \<and> serving host pw clk sn 0 d s7 \<and> (\<forall>k t. ttls_of d s7 k = Some t \<longrightarrow> 0 < sint t)
    \<and> (\<exists>l. ttls_of d s7 ''newInt'' = Some l \<and> sint l \<le> 1000000000)"
proof -
  obtain t1 where t1: "ttl_of (test_redis host pw d) DEFAULT = Some t1" "\<forall>l. t1 = Some l \<longrightarrow> 0 < sint l"
    using redis_ttl [of DEFAULT host pw d] by (auto simp: expiries_def)
  obtain s1 where s1: "rs_Set mini_net enc (test_redis host pw d) clk ''int'' (VInt 10) DEFAULT s = (Ret None, s1)" "serving host pw clk sn 0 d s1"
    "keys_of d s1 = [''int'' \<mapsto> show_int 10]" "ttls_of d s1 = Map.empty(''int'' := t1)"
    using mini_set_stores [OF assms(1) redis_Serialize t1(1), where now = clk and k = "''int''"] assms(2) no_ttls [OF assms(1,2)] by auto
  obtain s2 where s2: "rs_IncrementAtomic mini_net (test_redis host pw d) clk ''int'' 50 s1 = (Ret (60, None), s2)" "serving host pw clk sn 0 d s2"
    "keys_of d s2 = [''int'' \<mapsto> show_int 60]" "ttls_of d s2 = Map.empty(''int'' := t1)"
    using mini_atomic_result [OF s1(2), where k = "''int''" and i = 10 and delta = 50 and now = clk] s1(3,4) by auto
  obtain s3 l3 where s3: "rs_ExpireAt mini_net (test_redis host pw d) clk ''int'' (t_sec clk + 30) s2 = (Ret None, s3)" "serving host pw clk sn 0 d s3"
    "keys_of d s3 = [''int'' \<mapsto> show_int 60]" "ttls_of d s3 = [''int'' \<mapsto> l3]"
    using mini_later [OF s2(2) assms(3), of 30 "''int''" clk] s2(3,4) by auto
  obtain s4 where s4: "rs_IncrementCheckSet mini_net (test_redis host pw d) clk ''int'' 50 s3 = (Ret (110, None), s4)" "serving host pw clk sn 0 d s4"
    "keys_of d s4 = [''int'' \<mapsto> show_int 110]" "ttls_of d s4 = Map.empty"
    using mini_CheckSet [OF s3(2) refl, where k = "''int''" and i = 60 and delta = 50 and now = clk] s3(3,4) by auto
  obtain s5 where s5: "rs_IncrementCheckSet mini_net (test_redis host pw d) clk ''badkey'' 50 s4 = (Ret (0, Some ErrCacheMiss), s5)" "serving host pw clk sn 0 d s5"
    "keys_of d s5 = keys_of d s4" "ttls_of d s5 = ttls_of d s4"
    using mini_CheckSet_miss [OF s4(2) refl, where k = "''badkey''" and delta = 50 and now = clk] s4(3,4) by auto
  obtain s6 where s6: "rs_IncrementAtomic mini_net (test_redis host pw d) clk ''newInt'' 2 s5 = (Ret (2, None), s6)" "serving host pw clk sn 0 d s6"
    "keys_of d s6 ''newInt'' = Some (show_int 2)" "ttls_of d s6 = Map.empty"
    using mini_atomic_result [OF s5(2), where k = "''newInt''" and i = 0 and delta = 2 and now = clk] s5(3,4) s4(3,4) by auto
  obtain s7 l7 where s7: "rs_ExpireAt mini_net (test_redis host pw d) clk ''newInt'' (t_sec clk + 1) s6 = (Ret None, s7)" "serving host pw clk sn 0 d s7"
    "ttls_of d s7 = [''newInt'' \<mapsto> l7]" "0 < sint l7" "sint l7 \<le> 1000000000"
    using mini_later [OF s6(2) assms(3), of 1 "''newInt''" clk] s6(3,4) by auto
  show ?thesis unfolding assms(4)
    by (intro exI conjI, rule s1(1), rule s2(1), rule s3(1), rule s4(1), rule s5(1), rule s6(1), rule s7(1), rule s7(2))
      (use s7(3-5) in auto)
qed

text \<open>A generic cache over a Redis store in database \<open>d\<close> of the server, as the tests make it, and a factory that returns it with the store in state \<open>s\<close>.\<close>

definition generic_factory :: "'s GenericCache \<Rightarrow> 's \<Rightarrow> ('s world, 's GenericCache) factory" where
  "generic_factory c s d t = Some (c, t\<lparr>t_world := (t_world t)\<lparr>w_store := s\<rparr>\<rparr>)"

definition redis_cache ::
  "(godata \<Rightarrow> error + bytes) \<Rightarrow> (bytes \<Rightarrow> gotype \<Rightarrow> error + godata) \<Rightarrow> Miniredis pooled iface option \<Rightarrow> string \<Rightarrow> string \<Rightarrow> int64 \<Rightarrow> bool \<Rightarrow> Miniredis pooled GenericCache" where
  "redis_cache genc gdec ro host pw d encrypt =
     NewCacheWithMultiPools (Some (redis_iface mini_net genc gdec (test_redis host pw d))) ro L2 ''test-secret-must'' 0 (Some (bytes_of_string ''test'')) encrypt"

lemma redis_cache_simps:
  "Option.bind (gc_Cache (redis_cache genc gdec ro host pw d encrypt)) as_store = Some (redis_ops mini_net genc gdec (test_redis host pw d))"
  "gc_Cache (redis_cache genc gdec ro host pw d encrypt) = Some (redis_iface mini_net genc gdec (test_redis host pw d))"
  "gc_DefaultExp (redis_cache genc gdec ro host pw d encrypt) = 0"
  by (simp_all add: redis_cache_def NewCacheWithMultiPools_def NewCacheWithPool_def redis_iface_def)

lemma on_redis_iface: "on_redis f (Some (redis_iface mini_net genc gdec st)) w =
   (let r = f \<lparr>r_ExpireAt = rs_ExpireAt mini_net st, r_GetExpiresIn = rs_GetExpiresIn mini_net st,
      r_IncrementAtomic = rs_IncrementAtomic mini_net st, r_IncrementCheckSet = rs_IncrementCheckSet mini_net st\<rparr> (w_store w) in (fst r, w\<lparr>w_store := snd r\<rparr>))"
  by (simp add: on_redis_def redis_iface_def case_prod_beta Let_def)

lemma atomic_scenario:
  assumes "serving host pw (t_now t) sn 0 d s" "keys_of d s = Map.empty" "running 60 (t_now t)"
  shows "passed t (incrRedisAtomicAndExpireAt enc dec (behind redis_sleep) (generic_factory (redis_cache genc gdec ro host pw d encrypt) s) t)"
proof -
  let ?ri = "test_redis host pw d" and ?c = "redis_cache genc gdec ro host pw d encrypt" and ?now = "t_now t" and ?w = "(t_world t)\<lparr>w_store := s\<rparr>"
  obtain s1 s2 s3 s4 s5 s6 s7 l where c: "rs_Set mini_net genc ?ri ?now ''int'' (VInt 10) DEFAULT s = (Ret None, s1)"
    "rs_IncrementAtomic mini_net ?ri ?now ''int'' 50 s1 = (Ret (60, None), s2)"
    "rs_ExpireAt mini_net ?ri ?now ''int'' (t_sec ?now + 30) s2 = (Ret None, s3)"
    "rs_IncrementCheckSet mini_net ?ri ?now ''int'' 50 s3 = (Ret (110, None), s4)"
    "rs_IncrementCheckSet mini_net ?ri ?now ''badkey'' 50 s4 = (Ret (0, Some ErrCacheMiss), s5)"
    "rs_IncrementAtomic mini_net ?ri ?now ''newInt'' 2 s5 = (Ret (2, None), s6)"
    "rs_ExpireAt mini_net ?ri ?now ''newInt'' (t_sec ?now + 1) s6 = (Ret None, s7)"
    and s7: "serving host pw ?now sn 0 d s7" "\<forall>k t. ttls_of d s7 k = Some t \<longrightarrow> 0 < sint t" "ttls_of d s7 ''newInt'' = Some l" "sint l \<le> 1000000000"
    using atomic_calls [OF assms refl, of genc] by blast
  note bnd = redis_cache_simps(1) [of genc gdec ro host pw d encrypt]
  obtain w1 where w1: "gc_Set enc ?now ?now ''int'' (VInt 10) DEFAULT ?c ?w = (Ret None, w1)" "w_store w1 = s1"
    using gc_calls(1) [OF bnd, of DEFAULT DEFAULT ?now "''int''" 10 ?w None s1 enc ?now] c(1)
    by (auto simp: redis_cache_simps redis_ops_def DEFAULT_def)
  let ?s8 = "redis_sleep ?now (2 * time_Second) s7"
  have two: "sint (2 * time_Second) = 2000000000" by (simp add: time_Second_def)
  have "keys_of d ?s8 ''newInt'' = None" using redis_sleep_db(1) [OF s7(1,2), of "2 * time_Second" ?now "''newInt''"] s7(3,4) two by simp
  then obtain s9 where "rs_Get mini_net gdec ?ri (time_Add ?now (2 * time_Second)) ''newInt'' (TPtr (TNum Uint64)) ?s8 = (Ret (Some ErrCacheMiss, None), s9)"
    using mini_get_result [OF redis_sleep_serving [OF s7(1), of "2 * time_Second" ?now], of gdec "time_Add ?now (2 * time_Second)" "''newInt''" "TPtr (TNum Uint64)"] by auto
  then obtain w9 where w9: "gc_Get dec (time_Add ?now (2 * time_Second)) ''newInt'' (TPtr (TNum Uint64)) ?c (w1\<lparr>w_store := ?s8\<rparr>) = (Ret (Some ErrCacheMiss, None), w9)"
    using gc_Get_miss [OF redis_cache_simps(1), where k = "''newInt''" and w = "w1\<lparr>w_store := ?s8\<rparr>"] by (fastforce simp: redis_ops_def)
  show ?thesis
    using w1 c(2-7) w9 by (simp add: incrRedisAtomicAndExpireAt_def generic_factory_def call_def errorf_def Sleep_def behind_def redis_cache_simps(2) on_redis_iface Let_def passed_def)
qed

lemma expires_scenario:
  assumes "serving host pw (t_now t) sn 0 d s" "keys_of d s = Map.empty" "running 60 (t_now t)"
  shows "passed t (testRedisGetExpiresIn show_time (generic_factory (redis_cache genc gdec ro host pw d encrypt) s) t)"
proof -
  let ?ri = "test_redis host pw d" and ?c = "redis_cache genc gdec ro host pw d encrypt" and ?now = "t_now t" and ?w = "(t_world t)\<lparr>w_store := s\<rparr>"
  let ?k = "Sprintf ''get-expires-in-%s'' [show_time (t_now t)]"
  have ttl: "ttl_of ?ri time_Second = Some (Some time_Second)"
    by (simp add: ttl_of_def effective_def secs32_def DEFAULT_def FOREVER_def time_Second_def go_div_def word_sless_alt Let_def)
  obtain s1 where s1: "rs_Add mini_net genc ?ri ?now ?k (VInt 1) time_Second s = (Ret None, s1)" "serving host pw ?now sn 0 d s1"
    "keys_of d s1 ?k = Some (show_int 1)" "ttls_of d s1 ?k = Some time_Second"
    using mini_add_result [OF assms(1) redis_Serialize [of genc 1] ttl, where now = ?now and k = ?k] assms(2) by auto
  note bnd = redis_cache_simps(1) [of genc gdec ro host pw d encrypt]
  obtain w1 where w1: "gc_Add ?now ?k (VInt 1) time_Second ?c ?w = (Ret None, w1)" "w_store w1 = s1"
    using gc_calls(2) [OF bnd, of time_Second time_Second ?now ?k 1 ?w None s1] s1(1)
    by (auto simp: redis_cache_simps redis_ops_def time_Second_def)
  have "go_div time_Second time_Millisecond = 1000" by (simp add: time_Second_def time_Millisecond_def go_div_def)
  then obtain s2 where s2: "rs_GetExpiresIn mini_net ?ri ?now ?k s1 = (Ret (1000, None), s2)"
    using mini_GetExpiresIn [OF s1(2) refl, where now = ?now and k = ?k] s1(3,4) by (auto simp: Let_def)
  have "\<exists>w2. gc_RedisGetExpiresIn ?now ?k ?c w1 = (Ret (1000, None), w2)"
    using s2 w1(2) by (simp add: gc_RedisGetExpiresIn_def redis_cache_simps(2) on_redis_iface Let_def report_num_def)
  then show ?thesis using w1(1)
    by (auto simp: testRedisGetExpiresIn_def generic_factory_def call_def errorf_def logf_def Let_def passed_def word_sless_alt)
qed

definition generic_store ::
  "(godata \<Rightarrow> error + bytes) \<Rightarrow> (bytes \<Rightarrow> error + godata) \<Rightarrow> ('s world, 's GenericCache) factory \<Rightarrow> ('s world, 's world CacheStore) factory" where
  "generic_store enc dec newCache d t = (case newCache d t of None \<Rightarrow> None | Some (c, u) \<Rightarrow> Some (gc_ops enc dec c, u))"

lemma generic_store_eq: "generic_store enc dec (generic_factory c s) = (\<lambda>d t. Some (gc_ops enc dec c, t\<lparr>t_world := (t_world t)\<lparr>w_store := s\<rparr>\<rparr>))"
  by (simp add: generic_store_def generic_factory_def fun_eq_iff)

lemma empty_fit: "serving host pw clk sn 0 d s \<Longrightarrow> keys_of d s = Map.empty \<Longrightarrow> redis_fit host pw sn d s \<and> (\<forall>k. redis_held d now s k = None)"
  using no_ttls [of host pw clk sn 0 d s] by (auto simp: redis_fit_def redis_held_def)


section \<open>What the scenarios report otherwise\<close>

lemma new_unswept:
  assumes "t_errors t = []"
  obtains u where "newInMemoryStore time_Hour t = Some (mem_ops, u)" "mem_fit (t_world u)" "mem_content (t_world u) = Map.empty" "t_now u = t_now t" "t_errors u = []"
  using new_memory_store [OF default_durations(1), of t] assms by auto

lemma unswept_add:
  assumes "running 8 (t_now t)" "t_errors t = []"
  shows "map_option t_errors (testAdd (\<lambda>_ _ c. c) newInMemoryStore t) = Some [(''Unexpected error adding to cache: %s'', [AErr (Some ErrNotStored)]),
      (''Unexpected error: %s'', [AErr (Some ErrCacheMiss)]), (''Expected 3, got: %d'', [AInt 0])]"
proof -
  obtain u where u: "newInMemoryStore time_Hour t = Some (mem_ops, u)" "mem_fit (t_world u)" "mem_content (t_world u) = Map.empty" "t_now u = t_now t" "t_errors u = []"
    by (rule new_unswept [OF assms(2)])
  let ?now = "t_now t" and ?d = "2 * time_Second" and ?k = "''int''"
  let ?then = "time_Add ?now ?d"
  have r: "running 0 ?now" "running 2 ?now" "running 0 ?then" "nanos ?then = nanos ?now + 2000000000"
    using running_less [OF assms(1)] time_Add_nanos [of 0 2 ?now ?d] by (simp_all add: time_Second_def)
  obtain w1 r1 where 1: "m_Add mem_ops ?now ?k (VInt 1) time_Second (t_world u) = (Ret None, w1)" "mem_fit w1" "mem_held ?now w1 ?k = Some (1, r1)" "lives time_Second r1"
    using mem_test.add_int [OF u(2) r(1), where k = ?k and exp = time_Second and i = 1] u(3) by (auto simp: expiries_def mem_held_def)
  obtain w2 where 2: "m_Add mem_ops ?now ?k (VInt 2) time_Second w1 = (Ret (Some ErrNotStored), w2)" "mem_fit w2" "mem_held ?now w2 ?k = Some (1, r1)"
    using mem_test.add_refused [OF 1(2) r(1) _ _ 1(3), of time_Second 2] by (auto simp: expiries_def)
  obtain e where e: "mem_content w2 ?k = Some e" "Data e = VInt 1" "r1 = left ?now e" using held_cases(2) [OF 2(2)] 2(3) by blast
  obtain l where l: "r1 = Some l" "l \<le> 1000000000" using 1(4) by (auto simp: lives_def)
  have held: "mem_held ?then w2 ?k = Some (1, left ?then e)" "left ?then e = Some (l - 2000000000)"
    using e l r(4) held_cases(2) [OF 2(2)] by (auto simp: left_def split: if_splits)
  obtain w3 where 3: "m_Add mem_ops ?then ?k (VInt 3) time_Second w2 = (Ret (Some ErrNotStored), w3)" "mem_fit w3" "mem_held ?then w3 ?k = Some (1, left ?then e)"
    using mem_test.add_refused [OF 2(2) r(3) _ _ held(1), of time_Second 3] by (auto simp: expiries_def)
  obtain w4 where 4: "m_Get mem_ops ?then ?k (TPtr TInt) w3 = (Ret (Some ErrCacheMiss, None), w4)"
  proof -
    obtain e' where e': "mem_content w3 ?k = Some e'" "left ?then e = left ?then e'" using held_cases(2) [OF 3(2)] 3(3) by blast
    have "int_entry e'" using 3(2) e'(1) by (auto simp: mem_fit_def)
    then have "Expired ?then e'" using fresh_Expired [OF r(3)] held(2) l(2) unfolding e'(2) by simp
    then show ?thesis using that e'(1) by (simp add: mem_ops_def mem_Get_eq [OF mem_fit_inv [OF 3(2)]])
  qed
  show ?thesis using u 1(1) 2(1) 3(1) 4 by (simp add: testAdd_def call_def errorf_def Sleep_def var_int_def)
qed

lemma unswept_replace:
  assumes "running 8 (t_now t)" "t_errors t = []"
  shows "map_option t_errors (testReplace (\<lambda>_ _ c. c) newInMemoryStore t) = Some [(''Expected ErrNotStored or ErrCacheMiss, got: %s'', [AErr None]),
      (''Expected cache miss, got: %s'', [AErr None])]"
proof -
  obtain u where u: "newInMemoryStore time_Hour t = Some (mem_ops, u)" "mem_fit (t_world u)" "mem_content (t_world u) = Map.empty" "t_now u = t_now t" "t_errors u = []"
    by (rule new_unswept [OF assms(2)])
  let ?now = "t_now t" and ?d = "5 * time_Second" and ?k = "''int''"
  let ?then = "time_Add ?now ?d"
  have r: "running 0 ?now" "running 0 ?then" using running_less [OF assms(1)] time_Add_nanos [of 0 5 ?now ?d] by (simp_all add: time_Second_def)
  obtain w0 where 0: "m_Replace mem_ops ?now ''notexist'' (VInt 1) FOREVER (t_world u) = (Ret (Some ErrNotStored), w0)" "mem_fit w0"
    using mem_test.replace_refused [OF u(2) r(1), where k = "''notexist''" and exp = FOREVER and i = 1] u(3) by (auto simp: expiries_def mem_held_def)
  obtain w1 r1 where 1: "m_Set mem_ops ?now ?k (VInt 1) time_Second w0 = (Ret None, w1)" "mem_fit w1" "mem_held ?now w1 ?k = Some (1, r1)"
    using mem_test.set_int [OF 0(2) r(1), where k = ?k and exp = time_Second and i = 1] by (auto simp: expiries_def)
  obtain w2 r2 where 2: "m_Replace mem_ops ?now ?k (VInt 2) time_Second w1 = (Ret None, w2)" "mem_fit w2" "mem_held ?now w2 ?k = Some (2, r2)" "lives time_Second r2"
    using mem_test.replace_int [OF 1(2) r(1) _ _ 1(3), of time_Second 2] by (auto simp: expiries_def)
  obtain w3 where 3: "m_Get mem_ops ?now ?k (TPtr TInt) w2 = (Ret (None, Some (VInt 2)), w3)" "mem_fit w3" "mem_held ?now w3 ?k = Some (2, r2)"
    using mem_test.get_int [OF 2(2) r(1) _ 2(3)] 2(4) by (auto simp: lives_def)
  obtain e where "mem_content w3 ?k = Some e" "Data e = VInt 2" using held_cases(2) [OF 3(2)] 3(3) by blast
  then have held: "mem_held ?then w3 ?k = Some (2, left ?then e)" using held_cases(2) [OF 3(2)] by blast
  obtain w4 r4 where 4: "m_Replace mem_ops ?then ?k (VInt 3) time_Second w3 = (Ret None, w4)" "mem_fit w4" "mem_held ?then w4 ?k = Some (3, r4)" "lives time_Second r4"
    using mem_test.replace_int [OF 3(2) r(2) _ _ held, of time_Second 3] by (auto simp: expiries_def)
  obtain w5 where 5: "m_Get mem_ops ?then ?k (TPtr TInt) w4 = (Ret (None, Some (VInt 3)), w5)"
    using mem_test.get_int [OF 4(2) r(2) _ 4(3)] 4(4) by (auto simp: lives_def)
  show ?thesis using u 0(1) 1(1) 2(1) 3(1) 4(1) 5 by (simp add: testReplace_def call_def errorf_def Sleep_def var_int_def)
qed

text \<open>
  Without a sweep during the sleep an expired entry is still in the way: \<open>Add\<close> refuses to replace it, \<open>Get\<close> does
  not find it, and \<open>Replace\<close> revives it. These are exactly the failures that the scenarios report.
\<close>

theorem in_memory_unswept:
  assumes "running 8 (t_now t)" "t_errors t = []"
  shows "map_option t_errors (testAdd (\<lambda>_ _ c. c) newInMemoryStore t) = Some [(''Unexpected error adding to cache: %s'', [AErr (Some ErrNotStored)]),
      (''Unexpected error: %s'', [AErr (Some ErrCacheMiss)]), (''Expected 3, got: %d'', [AInt 0])]
    \<and> map_option t_errors (testReplace (\<lambda>_ _ c. c) newInMemoryStore t) = Some [(''Expected ErrNotStored or ErrCacheMiss, got: %s'', [AErr None]),
      (''Expected cache miss, got: %s'', [AErr None])]"
  using unswept_add [OF assms] unswept_replace [OF assms] by blast

context int_store
begin

lemma stays_unaged:
  assumes "inv w" "running m now" "k \<in> keys" "exp \<in> expiries" "\<And>now now' w k. held now w k = held now' w k" "m = n + 2"
  shows "\<exists>w1 w2. m_Set st now k (VInt i) exp w = (Ret None, w1) \<and> m_Get st (time_Add now (2 * time_Second)) k (TPtr TInt) w1 = (Ret (None, Some (VInt i)), w2)
    \<and> inv w2 \<and> running n (time_Add now (2 * time_Second))"
proof -
  obtain w1 r where 1: "m_Set st now k (VInt i) exp w = (Ret None, w1)" "inv w1" "held now w1 k = Some (i, r)" "lives exp r"
    using set_int [OF assms(1) running_less [OF assms(2)] assms(3,4), of i] by auto
  have t: "running n (time_Add now (2 * time_Second))" using time_Add_nanos(2) [OF assms(2) [unfolded assms(6)], of "2 * time_Second"] by (simp add: time_Second_def)
  have h: "held (time_Add now (2 * time_Second)) w1 k = Some (i, r)" using 1(3) assms(5) [of now w1 k "time_Add now (2 * time_Second)"] by simp
  have "fresh r" using 1(4) by (simp add: lives_def)
  with get_int [OF 1(2) running_less [OF t] assms(3) h] 1(1) t show ?thesis by auto
qed

lemma unaged_expiration:
  assumes "newCache time_Second t = Some (st, u)" "inv (t_world u)" "running 8 (t_now u)" "''int'' \<in> keys" "\<And>now now' w k. held now w k = held now' w k"
  shows "map_option t_errors (expiration (\<lambda>_ _ w. w) newCache t) = Some (t_errors u @
    [(''Expected CacheMiss, but got: %s - %v'', [AErr None, AInt 777]), (''Expected CacheMiss, but got: %s'', [AErr None])])"
proof -
  let ?k = "''int''" and ?d = "2 * time_Second" and ?n0 = "t_now u"
  let ?n1 = "time_Add ?n0 ?d"
  let ?n2 = "time_Add ?n1 ?d"
  let ?n3 = "time_Add ?n2 ?d"
  obtain a1 b1 where 1: "m_Set st ?n0 ?k (VInt 777) time_Second (t_world u) = (Ret None, a1)" "m_Get st ?n1 ?k (TPtr TInt) a1 = (Ret (None, Some (VInt 777)), b1)" "inv b1" "running 6 ?n1"
    using stays_unaged [OF assms(2) assms(3) assms(4) _ assms(5), of time_Second 6 777] by auto
  obtain a2 b2 where 2: "m_Set st ?n1 ?k (VInt 777) time_Second b1 = (Ret None, a2)" "m_Get st ?n2 ?k (TPtr TInt) a2 = (Ret (None, Some (VInt 777)), b2)" "inv b2" "running 4 ?n2"
    using stays_unaged [OF 1(3) 1(4) assms(4) _ assms(5), of time_Second 4 777] by auto
  obtain a3 b3 where 3: "m_Set st ?n2 ?k (VInt 777) time_Hour b2 = (Ret None, a3)" "m_Get st ?n3 ?k (TPtr TInt) a3 = (Ret (None, Some (VInt 777)), b3)" "inv b3" "running 2 ?n3"
    using stays_unaged [OF 2(3) 2(4) assms(4) _ assms(5), of time_Hour 2 777] by auto
  obtain a4 b4 where 4: "m_Set st ?n3 ?k (VInt 777) FOREVER b3 = (Ret None, a4)" "m_Get st (time_Add ?n3 ?d) ?k (TPtr TInt) a4 = (Ret (None, Some (VInt 777)), b4)"
    using stays_unaged [OF 3(3) 3(4) assms(4) _ assms(5), of FOREVER 0 777] by auto
  show ?thesis using assms(1) 1(1,2) 2(1,2) 3(1,2) 4 by (simp add: expiration_def call_def errorf_def Sleep_def var_int_def)
qed

end

text \<open>
  On a server whose keys get no older while a test sleeps, \<open>expiration\<close> reports the two values that should have
  expired, and nothing else. The tests' server is such a one: its keys age only in \<open>FastForward\<close>.
\<close>

theorem redis_unaged:
  assumes "serving host pw (t_now t) sn 0 d s" "keys_of d s = Map.empty" "running 8 (t_now t)" "t_errors t = []" "c = redis_cache genc gdec ro host pw d encrypt"
  shows "map_option t_errors (expiration (\<lambda>_ _ w. w) (generic_store enc dec (generic_factory c s)) t) =
    Some [(''Expected CacheMiss, but got: %s - %v'', [AErr None, AInt 777]), (''Expected CacheMiss, but got: %s'', [AErr None])]"
proof -
  have held: "redis_held d now = redis_held d now'" for now now' by (simp add: redis_held_def fun_eq_iff)
  have laws: "int_store (gc_ops enc dec (redis_cache genc gdec ro host pw d encrypt)) (\<lambda>now t w. w\<lparr>w_store := redis_sleep now t (w_store w)\<rparr>)
      (\<lambda>w. redis_fit host pw sn d (w_store w)) (\<lambda>now w. redis_held d now (w_store w)) UNIV"
    by (rule redis_test.generic_cache [OF redis_cache_simps(1,3)])
  have "redis_fit host pw sn d s" using empty_fit [OF assms(1,2)] by simp
  then show ?thesis unfolding generic_store_eq assms(5)
    using int_store.unaged_expiration [OF laws, where newCache = "\<lambda>_ t. Some (gc_ops enc dec (redis_cache genc gdec ro host pw d encrypt), t\<lparr>t_world := (t_world t)\<lparr>w_store := s\<rparr>\<rparr>)"
      and t = t, OF refl] fun_cong [OF fun_cong [OF held]] assms(3,4) by simp
qed

section \<open>Examples\<close>

definition demo_test :: "'w \<Rightarrow> 'w testing" where
  "demo_test w = \<lparr>t_world = w, t_now = time_Unix 1000, t_errors = [], t_logs = []\<rparr>"

lemma demo_test_simps [simp]: "t_now (demo_test w) = time_Unix 1000" "t_errors (demo_test w) = []" "running 8 (time_Unix 1000)" "running 60 (time_Unix 1000)"
  by (simp_all add: demo_test_def running_def time_Unix_def)

theorem in_memory_scenarios_witness:
  "passes_all (mem_sleep 5) newInMemoryStore (demo_test (w_store demo_world))"
  by (rule in_memory_scenarios) simp


theorem in_memory_unswept_witness:
  "map_option (length \<circ> t_errors) (testAdd (\<lambda>_ _ c. c) newInMemoryStore (demo_test (w_store demo_world))) = Some 3"
  using in_memory_unswept [of "demo_test (w_store demo_world)"] by (auto simp: comp_def)

abbreviation demo_redis :: "Miniredis pooled GenericCache" where
  "demo_redis \<equiv> redis_cache no_gob_enc no_gob_dec None ''localhost:6379'' [] 3 False"


theorem redis_unaged_witness:
  "map_option (length \<circ> t_errors) (expiration (\<lambda>_ _ w. w) (generic_store no_gob_enc (\<lambda>_. Inl (ErrExt ''gob'')) (generic_factory demo_redis (demo_server Map.empty Map.empty)))
     (demo_test \<lparr>w_store = demo_server Map.empty Map.empty, w_log = []\<rparr>)) = Some 2"
  using redis_unaged [OF _ demo_serving(2) [of 3 Map.empty Map.empty] _ _ refl, where t = "demo_test \<lparr>w_store = demo_server Map.empty Map.empty, w_log = []\<rparr>"
      and host = "''localhost:6379''" and pw = "[]" and sn = None and genc = no_gob_enc and gdec = no_gob_dec and ro = None and encrypt = False
      and enc = no_gob_enc and dec = "\<lambda>_. Inl (ErrExt ''gob'')"] demo_serving(1)
  by (auto simp: comp_def)

end
