(* ===== verification/PersistenceMemorySpec.thy ===== *)
theory PersistenceMemorySpec
  imports ScenarioTheorems PersistenceMemory
begin

text \<open>
  The scenarios of \<open>src/generic_test_store.go\<close> on the store of \<open>persistence/inmemory.go\<close>: it is an \<open>int_store\<close>, whether or not
  its janitor sweeps during a sleep, because every method looks at the expiry.
\<close>

section \<open>The contract of the scenarios\<close>

definition pm_left :: "Time \<Rightarrow> item \<Rightarrow> int option" where
  "pm_left now i = map_option (\<lambda>e. nanos e - nanos now) (Expiration i)"

definition pm_held :: "Time \<Rightarrow> rcache \<Rightarrow> string \<Rightarrow> (int64 \<times> int option) option" where
  "pm_held now c k = (case rc_items c k of None \<Rightarrow> None | Some i \<Rightarrow>
     if item_Expired now i then None else (case Object i of VInt n \<Rightarrow> Some (n, pm_left now i) | _ \<Rightarrow> None))"

definition int_item :: "item \<Rightarrow> bool" where
  "int_item i \<longleftrightarrow> (\<exists>n. Object i = VInt n) \<and> (\<forall>e. Expiration i = Some e \<longrightarrow> 0 \<le> t_nsec e \<and> t_nsec e < 1000000000 \<and> 0 \<le> sint (t_sec e) \<and> sint (t_sec e) < 2 ^ 62)"

definition pm_fit :: "rcache \<Rightarrow> bool" where
  "pm_fit c \<longleftrightarrow> (\<forall>k i. rc_items c k = Some i \<longrightarrow> int_item i)"

text \<open>What the janitor, which ticks once a minute, may do during a sleep.\<close>

definition pm_sleep :: "bool \<Rightarrow> Time \<Rightarrow> duration \<Rightarrow> rcache \<Rightarrow> rcache" where
  "pm_sleep ticked now d c = (if ticked then rc_DeleteExpired (\<lambda>_. time_Add now d) c else c)"

lemma item_Expired_iff:
  assumes "running 0 now" "int_item i"
  shows "item_Expired now i \<longleftrightarrow> (\<exists>l. pm_left now i = Some l \<and> l < 0)"
proof (cases "Expiration i")
  case (Some e)
  then have "Before e now \<longleftrightarrow> nanos e < nanos now" using assms by (intro Before_nanos) (auto simp: int_item_def running_def)
  then show ?thesis using Some by (simp add: item_Expired_def pm_left_def)
qed (simp add: item_Expired_def pm_left_def)

lemma pm_held_cases:
  assumes "pm_fit c"
  shows "pm_held now c k = None \<longleftrightarrow> fst (rc_get now k c) = None"
    "pm_held now c k = Some (n, r) \<longleftrightarrow> (\<exists>i. rc_items c k = Some i \<and> \<not> item_Expired now i \<and> Object i = VInt n \<and> r = pm_left now i)"
proof -
  have "rc_items c k = None \<or> (\<exists>i n. rc_items c k = Some i \<and> Object i = VInt n)"
    using assms by (cases "rc_items c k") (auto simp: pm_fit_def int_item_def)
  then show "pm_held now c k = None \<longleftrightarrow> fst (rc_get now k c) = None"
    "pm_held now c k = Some (n, r) \<longleftrightarrow> (\<exists>i. rc_items c k = Some i \<and> \<not> item_Expired now i \<and> Object i = VInt n \<and> r = pm_left now i)"
    by (auto simp: pm_held_def rc_get_def split: if_splits)
qed

lemma rc_get_keeps:
  assumes "pm_fit c"
  shows "pm_fit (snd (rc_get now k c))" "pm_held now (snd (rc_get now k c)) k = pm_held now c k" "rc_defaultExpiration (snd (rc_get now k c)) = rc_defaultExpiration c"
    "pm_fit (rc_delete k c)" "pm_held now (rc_delete k c) k = None"
  using assms by (auto simp: rc_get_def rc_delete_def pm_fit_def pm_held_def split: option.splits if_splits)

lemma pm_store_int:
  assumes "pm_fit c" "running 0 now" "exp \<in> expiries"
  shows "pm_fit (rc_set now k (VInt n) exp c) \<and> (\<exists>r. pm_held now (rc_set now k (VInt n) exp c) k = Some (n, r) \<and> lives exp r)"
proof -
  let ?d = "if exp = 0 then rc_defaultExpiration c else exp"
  let ?i = "\<lparr>Object = VInt n, Expiration = (if 0 <s ?d then Some (time_Add now ?d) else None)\<rparr>"
  have set: "rc_set now k (VInt n) exp c = c\<lparr>rc_items := (rc_items c)(k \<mapsto> ?i)\<rparr>" by (simp add: rc_set_def Let_def)
  have t: "0 \<le> sint (t_sec now)" "sint (t_sec now) < 2 ^ 62" "0 \<le> t_nsec now" "t_nsec now < 1000000000" using assms(2) by (simp_all add: running_def)
  have e: "int_item ?i" "0 < sint ?d \<Longrightarrow> nanos (time_Add now ?d) = nanos now + sint ?d"
  proof -
    show n: "nanos (time_Add now ?d) = nanos now + sint ?d" if "0 < sint ?d" using time_Add_exact(1) [OF t] that by simp
    have "sint (t_sec (time_Add now ?d)) < 2 ^ 62" if "0 < sint ?d"
    proof -
      have "sint (t_sec (time_Add now ?d)) * 1000000000 \<le> nanos now + sint ?d"
        using n [OF that] time_Add_exact(2) [OF t, of ?d] that by (simp add: nanos_def)
      then show ?thesis using assms(2) sint_bounds64(2) [of ?d] unfolding nanos_def running_def by simp
    qed
    then show "int_item ?i" using time_Add_exact [OF t, of ?d] by (auto simp: int_item_def word_sless_alt)
  qed
  then have fit: "pm_fit (rc_set now k (VInt n) exp c)" using assms(1) unfolding set by (auto simp: pm_fit_def)
  have l: "pm_left now ?i = (if 0 < sint ?d then Some (sint ?d) else None)" using e(2) by (auto simp: pm_left_def word_sless_alt)
  then have "\<not> item_Expired now ?i" using item_Expired_iff [OF assms(2) e(1)] by auto
  then have "pm_held now (rc_set now k (VInt n) exp c) k = Some (n, pm_left now ?i)" unfolding set by (simp add: pm_held_def)
  moreover have "lives exp (pm_left now ?i)"
    using assms(3) unfolding l lives_def fresh_def expiries_def
    by (auto simp: DEFAULT_def FOREVER_def time_Second_def time_Hour_def)
  ultimately show ?thesis using fit by blast
qed

lemma pm_sleep_ages:
  assumes "pm_fit c" "running s now" "s \<in> {2, 5}" "d = of_nat s * time_Second"
  shows "pm_fit (pm_sleep ticked now d c)" "aged (sint d) (pm_held now c k) (pm_held (time_Add now d) (pm_sleep ticked now d c) k)"
proof -
  show "pm_fit (pm_sleep ticked now d c)"
    using assms(1) by (auto simp: pm_sleep_def pm_fit_def rc_DeleteExpired_def split: option.splits if_splits)
  have d: "sint d = int s * 1000000000" using assms(3,4) by (auto simp: time_Second_def)
  have t: "nanos (time_Add now d) = nanos now + sint d" "running 0 (time_Add now d)" using time_Add_nanos [of 0 s now d] assms(2) d by auto
  have held: "pm_held (time_Add now d) (pm_sleep ticked now d c) k = pm_held (time_Add now d) c k"
    by (auto simp: pm_sleep_def pm_held_def rc_DeleteExpired_def split: option.splits)
  have now: "running 0 now" using running_less [OF assms(2)] by simp
  show "aged (sint d) (pm_held now c k) (pm_held (time_Add now d) (pm_sleep ticked now d c) k)"
  proof (cases "rc_items c k")
    case None
    then show ?thesis unfolding held by (simp add: aged_def pm_held_def)
  next
    case (Some i)
    then have i: "int_item i" using assms(1) by (simp add: pm_fit_def)
    then obtain n where n: "Object i = VInt n" by (auto simp: int_item_def)
    have e: "item_Expired now i \<longleftrightarrow> (\<exists>l. pm_left now i = Some l \<and> l < 0)" "item_Expired (time_Add now d) i \<longleftrightarrow> (\<exists>l. pm_left (time_Add now d) i = Some l \<and> l < 0)"
      by (rule item_Expired_iff [OF now i], rule item_Expired_iff [OF t(2) i])
    show ?thesis unfolding held using Some n e t(1) d by (cases "Expiration i") (simp_all add: aged_def pm_held_def pm_left_def)
  qed
qed

lemma pm_absent: "pm_fit c \<Longrightarrow> pm_held now c k = None \<Longrightarrow> rc_get now k c = (None, snd (rc_get now k c))"
  by (metis pm_held_cases(1) prod.collapse)

lemma pm_present: "pm_fit c \<Longrightarrow> pm_held now c k = Some (n, r) \<Longrightarrow> rc_get now k c = (Some (VInt n), c)"
  by (auto simp: pm_held_cases(2) rc_get_def)

lemma pm_count_int:
  assumes "pm_fit c" "pm_held now c k = Some (n, r)" "f (VInt n) = Some (v, VInt v)"
  shows "\<exists>c'. pm_num (rc_count f now k c) = (Ret (v, None), c') \<and> pm_fit c' \<and> pm_held now c' k = Some (v, r)"
proof -
  obtain i where i: "rc_items c k = Some i" "\<not> item_Expired now i" "Object i = VInt n" "r = pm_left now i" using assms(1,2) pm_held_cases(2) by blast
  let ?c = "c\<lparr>rc_items := (rc_items c)(k \<mapsto> i\<lparr>Object := VInt v\<rparr>)\<rparr>"
  have "int_item i" using assms(1) i(1) by (simp add: pm_fit_def)
  then have "pm_fit ?c" using assms(1) by (auto simp: pm_fit_def int_item_def)
  moreover have "pm_held now ?c k = Some (v, r)" using i by (simp add: pm_held_def item_Expired_def pm_left_def)
  moreover have "pm_num (rc_count f now k c) = (Ret (v, None), ?c)" using i assms(3) by (simp add: rc_count_def pm_num_def)
  ultimately show ?thesis by blast
qed

lemma pm_count_none:
  assumes "pm_fit c" "pm_held now c k = None"
  shows "pm_num (rc_count f now k c) = (Ret (0, Some ErrCacheMiss), c)"
  using assms by (auto simp: pm_held_cases(1) rc_get_def rc_count_def pm_num_def split: option.splits if_splits)

interpretation pm_test: backing_store pm_ops "pm_sleep ticked" pm_fit pm_held UNIV for ticked
proof (unfold_locales, goal_cases)
  case (1 w now k exp i)
  then show ?case using pm_store_int [OF 1(1,2,4), of k i] by (auto simp: pm_ops_def pm_Set_def)
next
  case (2 w now k exp i)
  then show ?case using pm_absent [OF 2(1,5)] pm_store_int [OF rc_get_keeps(1) [OF 2(1), of now k] 2(2,4), of k i]
    by (auto simp: pm_ops_def pm_Add_def rc_Add_def split: prod.splits)
next
  case (3 w now k exp x i)
  then show ?case using pm_present [OF 3(1), of now k "fst x" "snd x"] by (simp add: pm_ops_def pm_Add_def rc_Add_def)
next
  case (4 w now k exp x i)
  then show ?case using pm_present [OF 4(1), of now k "fst x" "snd x"] pm_store_int [OF 4(1,2,4), of k i] by (auto simp: pm_ops_def pm_Replace_def rc_Replace_def)
next
  case (5 w now k exp i)
  then show ?case using pm_absent [OF 5(1,5)] rc_get_keeps(1,2) [OF 5(1), of now k] by (auto simp: pm_ops_def pm_Replace_def rc_Replace_def split: prod.splits)
next
  case (6 w now k i r)
  then show ?case using pm_present [OF 6(1,4)] by (simp add: pm_ops_def pm_Get_def)
next
  case (7 w now k ty)
  then show ?case using pm_absent [OF 7(1,4)] rc_get_keeps(1,2) [OF 7(1), of now k] by (auto simp: pm_ops_def pm_Get_def split: prod.splits)
next
  case (8 w now k)
  then show ?case using pm_absent [OF 8(1,4)] rc_get_keeps(4) [OF rc_get_keeps(1) [OF 8(1), of now k], of k] rc_get_keeps(5) [OF rc_get_keeps(1) [OF 8(1), of now k], of now k] by (auto simp: pm_ops_def pm_Delete_def rc_Delete_def split: prod.splits)
next
  case (9 w now k i r n)
  then show ?case using pm_count_int [OF 9(1,4), of "rc_plus n" "i + n"] by (auto simp: pm_ops_def pm_Increment_def rc_Increment_def)
next
  case (10 w now k n)
  then show ?case using pm_count_none [OF 10(1,4)] by (simp add: pm_ops_def pm_Increment_def rc_Increment_def)
next
  case (11 w now k i r n)
  have "n <s i \<longleftrightarrow> n < i" by (rule dec_small [OF 11(6,5)])
  then have "rc_minus n (VInt i) = Some (if i < n then 0 else i - n, VInt (if i < n then 0 else i - n))" by (auto simp: Let_def)
  then show ?case using pm_count_int [OF 11(1,4), of "rc_minus n"] unfolding pm_ops_def pm_Decrement_def rc_Decrement_def by fastforce
next
  case (12 w now k n)
  then show ?case using pm_count_none [OF 12(1,4)] by (simp add: pm_ops_def pm_Decrement_def rc_Decrement_def)
next
  case (13 w s now k d)
  then show ?case using pm_sleep_ages [OF 13(1,2,4,5)] by blast
next
  case (14 w now k)
  then show ?case using pm_absent [OF 14(1,4)] rc_get_keeps(1,2) [OF 14(1), of now k] by (auto simp: pm_ops_def pm_Get_def split: prod.splits)
qed

section \<open>The scenarios\<close>

definition newGenericStoreInMemory :: "(rcache world, rcache tested_cache) factory" where
  "newGenericStoreInMemory defaultExpiration t =
     Some (IsGeneric (NewCacheWithPool (Some (StoreIface pm_ops)) Writable L2 ''test-secret-must'' 0 (Some (bytes_of_string ''test'')) False),
           t\<lparr>t_world := (t_world t)\<lparr>w_store := pm_New time_Second\<rparr>\<rparr>)"

lemma pm_New_fit: "pm_fit (pm_New d)" "pm_held now (pm_New d) k = None"
  by (simp_all add: pm_New_def rc_New_def pm_fit_def pm_held_def)

lemma not_yet:
  assumes "running 0 now" "0 \<le> sint d"
  shows "\<not> Before (time_Add now d) now"
proof -
  have t: "0 \<le> sint (t_sec now)" "sint (t_sec now) < 2 ^ 61" "0 \<le> t_nsec now" "t_nsec now < 1000000000" using assms(1) by (simp_all add: running_def)
  then have u: "sint (t_sec now) < 2 ^ 62" by simp
  note e = time_Add_exact [OF t(1) u t(3,4) assms(2)]
  have "sint (t_sec (time_Add now d)) * 1000000000 \<le> nanos now + sint d" using e(1,2) by (simp add: nanos_def)
  then have "sint (t_sec (time_Add now d)) < 2 ^ 62" using t sint_bounds64(2) [of d] unfolding nanos_def by simp
  then have "Before (time_Add now d) now \<longleftrightarrow> nanos (time_Add now d) < nanos now" using e t u by (intro Before_nanos)
  then show ?thesis using e(1) assms(2) by simp
qed

text \<open>A value comes back from the store as it was set, until it expires.\<close>

lemma pm_Set_Get:
  assumes "running 0 now" "v \<noteq> VNil" "0 < sint (if exp = 0 then rc_defaultExpiration c else exp)"
  shows "\<exists>c'. pm_Set now k v exp c = (Ret None, c') \<and> pm_Get now k (TPtr (type_of v)) c' = (Ret (None, Some v), c') \<and> rc_defaultExpiration c' = rc_defaultExpiration c"
  using assms not_yet [OF assms(1), of "if exp = 0 then rc_defaultExpiration c else exp"]
  by (simp add: pm_Set_def pm_Get_def rc_set_def rc_get_def item_Expired_def Let_def)

definition pm_cache :: "rcache GenericCache" where
  "pm_cache = NewCacheWithPool (Some (StoreIface pm_ops)) Writable L2 ''test-secret-must'' 0 (Some (bytes_of_string ''test'')) False"

lemma pm_cache_simps: "gc_Cache pm_cache = Some (StoreIface pm_ops)" "Option.bind (gc_Cache pm_cache) as_store = Some pm_ops" "gc_DefaultExp pm_cache = 0" "gc_EncryptData pm_cache = False"
  by (simp_all add: pm_cache_def NewCacheWithPool_def)

lemma pm_sets: "m_Set pm_ops = pm_Set" "m_Get pm_ops = pm_Get"
  by (simp_all add: pm_ops_def)

lemma pm_calls:
  shows "pm_Set now k v exp (w_store w) = (Ret None, c') \<Longrightarrow> \<exists>w'. gc_Set enc now now k v exp pm_cache w = (Ret None, w') \<and> w_store w' = c'"
    "ty \<in> {TPtr TString, TPtr TEntry} \<Longrightarrow> pm_Get now k ty (w_store w) = (Ret (None, Some v), c') \<Longrightarrow>
      \<exists>w'. gc_Get dec now k ty pm_cache w = (Ret (None, Some v), w') \<and> w_store w' = c'"
proof -
  show "pm_Set now k v exp (w_store w) = (Ret None, c') \<Longrightarrow> \<exists>w'. gc_Set enc now now k v exp pm_cache w = (Ret None, w') \<and> w_store w' = c'"
    by (cases "exp = 0") (simp_all add: gc_Set_def pm_cache_simps on_store_Some [of "Some (StoreIface pm_ops)" pm_ops] pm_sets Let_def)
  show "ty \<in> {TPtr TString, TPtr TEntry} \<Longrightarrow> pm_Get now k ty (w_store w) = (Ret (None, Some v), c') \<Longrightarrow>
      \<exists>w'. gc_Get dec now k ty pm_cache w = (Ret (None, Some v), w') \<and> w_store w' = c'"
    by (auto simp: gc_Get_def fetch_entry_def fetch_def pm_cache_simps on_store_Some [of "Some (StoreIface pm_ops)" pm_ops] pm_sets Let_def split: option.splits)
qed

lemma pm_typical:
  assumes "running 0 (t_now t)"
  shows "passed t (typicalGetSet enc dec newGenericStoreInMemory t)"
proof -
  let ?now = "t_now t" and ?k = "''value''" and ?w = "(t_world t)\<lparr>w_store := pm_New time_Second\<rparr>"
  obtain c1 where c1: "pm_Set ?now ?k (VString ''foo'') 0 (pm_New time_Second) = (Ret None, c1)" "pm_Get ?now ?k (TPtr TString) c1 = (Ret (None, Some (VString ''foo'')), c1)"
    using pm_Set_Get [OF assms, of "VString ''foo''" 0 "pm_New time_Second" ?k] by (auto simp: pm_New_def rc_New_def time_Second_def)
  obtain w1 where w1: "gc_Set enc ?now ?now ?k (VString ''foo'') DEFAULT pm_cache ?w = (Ret None, w1)" "w_store w1 = c1"
    using pm_calls(1) [of ?now ?k "VString ''foo''" 0 ?w c1 enc] c1(1) by (auto simp: DEFAULT_def)
  obtain w2 where w2: "gc_Get dec ?now ?k (TPtr TString) pm_cache w1 = (Ret (None, Some (VString ''foo'')), w2)" "w_store w2 = c1"
    using pm_calls(2) [of "TPtr TString" ?now ?k w1] c1(2) w1(2) by fastforce
  obtain w3 where w3: "gc_Get dec ?now ?k (TPtr TString) pm_cache w2 = (Ret (None, Some (VString ''foo'')), w3)" "w_store w3 = c1"
    using pm_calls(2) [of "TPtr TString" ?now ?k w2] c1(2) w2(2) by fastforce
  let ?exp = "3 * time_Minute"
  let ?entry = "gc_NewGenericCacheEntry pm_cache ?now (VString ''encrypted-data'') ?exp"
  have d: "Data ?entry = VString ''encrypted-data''" "box_entry ?entry \<noteq> VNil" "type_of (box_entry ?entry) = TEntry" "?exp \<noteq> 0" "0 < sint ?exp"
    by (simp_all add: gc_NewGenericCacheEntry_def NewGenericCacheEntry_def box_entry_def Let_def time_Minute_def time_Second_def)
  obtain c4 where c4: "pm_Set ?now ?k (box_entry ?entry) ?exp c1 = (Ret None, c4)" "pm_Get ?now ?k (TPtr TEntry) c4 = (Ret (None, Some (box_entry ?entry)), c4)"
    using pm_Set_Get [OF assms d(2), of ?exp c1 ?k] d(3-5) by auto
  obtain w4 where w4: "gc_Set enc ?now ?now ?k (box_entry ?entry) ?exp pm_cache w3 = (Ret None, w4)" "w_store w4 = c4"
    using pm_calls(1) [of ?now ?k "box_entry ?entry" ?exp w3 c4 enc] c4(1) w3(2) d(4) by auto
  obtain w5 where w5: "gc_Get dec ?now ?k (TPtr TEntry) pm_cache w4 = (Ret (None, Some (box_entry ?entry)), w5)"
    using pm_calls(2) [of "TPtr TEntry" ?now ?k w4] c4(2) w4(2) by fastforce
  show ?thesis using w1(1) w2(1) w3(1) w4(1) w5 d(1)
    by (simp add: typicalGetSet_def newGenericStoreInMemory_def pm_cache_def [symmetric] call_def errorf_def gc_ops_def var_string_def written_def passed_def Let_def)
qed

text \<open>
  C25: A generic cache over the store of the vendored package, as the package's tests make it, passes the scenarios,
  whether or not the store's janitor ticks while a test sleeps.
\<close>

theorem persistence_memory_scenarios:
  assumes "running 8 (t_now t)"
  shows "passes_all (behind (pm_sleep ticked)) (as_stores enc dec newGenericStoreInMemory) t
    \<and> passed t (typicalGetSet enc dec newGenericStoreInMemory t)"
proof -
  let ?u = "\<lambda>t. t\<lparr>t_world := (t_world t)\<lparr>w_store := pm_New time_Second\<rparr>\<rparr>"
  have f: "as_stores enc dec newGenericStoreInMemory d t = Some (gc_ops enc dec pm_cache, ?u t)" for d
    by (simp add: as_stores_def newGenericStoreInMemory_def pm_cache_def)
  have "passes_all (behind (pm_sleep ticked)) (as_stores enc dec newGenericStoreInMemory) t"
    by (rule generic_passed [where newCache = "\<lambda>d t. Some (gc_ops enc dec pm_cache, ?u t)"
          and newCache' = "as_stores enc dec newGenericStoreInMemory" and st = "gc_ops enc dec pm_cache", OF refl f f])
      (rule pm_test.generic_passes_all [OF pm_cache_simps(2,3) pm_New_fit(1) assms UNIV_I UNIV_I]; simp add: pm_New_fit)
  then show ?thesis using pm_typical [OF running_less [OF assms]] by simp
qed

theorem persistence_memory_scenarios_witness:
  "passed (demo_test \<lparr>w_store = pm_New 0, w_log = []\<rparr>) (typicalGetSet string_enc string_dec newGenericStoreInMemory (demo_test \<lparr>w_store = pm_New 0, w_log = []\<rparr>))"
  using persistence_memory_scenarios [of "demo_test \<lparr>w_store = pm_New 0, w_log = []\<rparr>" True string_enc string_dec] by simp

end
