(* ===== verification/MemoryRoute.thy ===== *)
theory MemoryRoute
  imports SealedEntries PersistenceMemorySpec
begin

text \<open>
  The route \<open>/cached-in-memory-not-encrypted-entry\<close> of the example program: the vendored in-memory store gives values of every
  type back as they were set.
\<close>

section \<open>The vendored in-memory store keeps values\<close>

definition pm_form :: "rcache \<Rightarrow> Time \<Rightarrow> godata \<Rightarrow> duration \<Rightarrow> item" where
  "pm_form c now v exp = (let d = (if exp = 0 then rc_defaultExpiration c else exp) in
     \<lparr>Object = v, Expiration = (if 0 <s d then Some (time_Add now d) else None)\<rparr>)"

lemma pm_form_cong: "rc_defaultExpiration c = rc_defaultExpiration c' \<Longrightarrow> pm_form c = pm_form c'"
  by (simp add: pm_form_def fun_eq_iff)

interpretation pm_objects: object_store ty pm_ops "\<lambda>c. True" rc_items "\<lambda>now i. \<not> item_Expired now i" "\<lambda>i v. Object i = v \<and> v \<noteq> VNil" pm_form "\<lambda>v exp. v \<noteq> VNil" for ty
proof (unfold_locales, goal_cases)
  case (1 w v exp now k)
  have "pm_form (rc_set now k v exp w) = pm_form w" by (rule pm_form_cong) (simp add: rc_set_def Let_def)
  then show ?case by (simp add: pm_ops_def pm_Set_def) (simp add: rc_set_def pm_form_def Let_def)
next
  case (2 w v k e now)
  then show ?case by (auto simp: pm_ops_def pm_Get_def rc_get_def)
next
  case (3 w k now)
  let ?w = "snd (rc_get now k w)"
  have f: "fst (rc_get now k w) = None" "\<forall>e. rc_items ?w k = Some e \<longrightarrow> rc_items w k = Some e"
    using 3(2) by (auto simp: rc_get_def rc_delete_def split: option.splits)
  have "pm_form ?w = pm_form w" by (rule pm_form_cong) (auto simp: rc_get_def rc_delete_def split: option.splits)
  then show ?case using f by (cases "rc_get now k w") (auto simp: pm_ops_def pm_Get_def)
next
  case (4 v exp w now)
  then show ?case by (simp add: pm_form_def Let_def)
qed

interpretation pm_entries: entry_store pm_ops "\<lambda>c. True" rc_items "\<lambda>now i. \<not> item_Expired now i" "\<lambda>i v. Object i = v \<and> v \<noteq> VNil" pm_form "\<lambda>v exp. v \<noteq> VNil"
  by (rule entry_store.intro) (rule pm_objects.object_store_axioms)

lemma box_entry_not_nil [simp]: "box_entry e \<noteq> VNil"
  by (simp add: box_entry_def)

section \<open>The route\<close>

lemma memory_running:
  assumes "example_init net genc gdec env k8s now n = Running ex"
  shows "genericInMemoryCache ex = NewCacheWithPool (Some (StoreIface pm_ops)) Writable L1 sharedSecret defExpSeconds (Some (bytes_of_string ''mem'')) False"
    "rc_items (w_store (memoryWorld ex)) = Map.empty"
  using assms by (auto simp: example_init_def pm_New_def rc_New_def Let_def split: prod.splits outcome.splits option.splits sum.splits)

lemma live_3min:
  assumes "running 0 set1" "running 0 later" "nanos later \<le> nanos set1 + 180000000000"
  shows "\<not> item_Expired later (pm_form c set1 v (3 * time_Minute))"
proof -
  have d: "sint (3 * time_Minute) = 180000000000" "0 <s 3 * time_Minute" "3 * time_Minute \<noteq> 0" by (simp_all add: time_Minute_def time_Second_def word_sless_alt)
  have t: "0 \<le> sint (t_sec set1)" "sint (t_sec set1) < 2 ^ 62" "0 \<le> t_nsec set1" "t_nsec set1 < 1000000000" using assms(1) by (simp_all add: running_def)
  note e = time_Add_exact [OF t, of "3 * time_Minute"]
  have "sint (t_sec (time_Add set1 (3 * time_Minute))) * 1000000000 \<le> sint (t_sec set1) * 1000000000 + 181000000000"
    using e(1,2) d(1) t(4) by (simp add: nanos_def)
  then have "sint (t_sec (time_Add set1 (3 * time_Minute))) < 2 ^ 62" using assms(1) by (simp add: running_def)
  then have "Before (time_Add set1 (3 * time_Minute)) later \<longleftrightarrow> nanos (time_Add set1 (3 * time_Minute)) < nanos later"
    using e(2-4) d(1) assms(2) by (intro Before_nanos) (auto simp: running_def)
  then show ?thesis using e(1) d assms(3) by (simp add: item_Expired_def pm_form_def Let_def)
qed

text \<open>
  The route \<open>/cached-in-memory-not-encrypted-entry\<close>, whatever the order of requests and goroutines: every response carries
  the data of \<open>getNewEntry\<close>, every further request is answered, and once a goroutine has made its \<open>Set\<close>, requests of
  the next three minutes get that very entry, with the times it was made with, and start no goroutine.
\<close>

theorem memory_route:
  assumes "example_init net genc gdec env k8s t0 n = Running ex" "c = genericInMemoryCache ex" "name = ''cached-in-memory-not-encrypted-entry''"
    and "(route_step enc dec name c)\<^sup>*\<^sup>* \<lparr>rt_world = memoryWorld ex, rt_jobs = [], rt_sent = []\<rparr> s"
  shows "(\<forall>e \<in> set (rt_sent s). Data e = box_test getNewEntry)
    \<and> (\<exists>e job w. serve_entry dec name now now' c (rt_world s) = (Ret (e, job), w) \<and> Data e = box_test getNewEntry)
    \<and> (\<forall>(k, e, x) \<in> set (rt_jobs s). \<forall>set0 set1 later. running 0 set1 \<and> running 0 later \<and> nanos later \<le> nanos set1 + 180000000000 \<longrightarrow>
        (\<exists>w w'. background_set enc set0 set1 (k, e, x) c (rt_world s) = (Ret None, w) \<and> serve_entry dec name later now' c w = (Ret (e, None), w')))"
proof -
  have use: "usable pm_ops c" "\<not> gc_EncryptData c" "gc_EncryptData c \<longrightarrow> gob_roundtrip enc dec served_data"
    using memory_running(1) [OF assms(1)] assms(2) by (simp_all add: usable_def NewCacheWithPool_def)
  have start: "pm_entries.route_fine dec name c \<lparr>rt_world = memoryWorld ex, rt_jobs = [], rt_sent = []\<rparr>"
    using memory_running(2) [OF assms(1)] by (simp add: pm_entries.route_fine_def)
  have fine: "pm_entries.route_fine dec name c s" by (rule pm_entries.fine_reachable [OF assms(4) use(1) start use(3)]) simp
  have sent: "\<forall>e \<in> set (rt_sent s). Data e = served_data" using fine by (simp add: pm_entries.route_fine_def)
  have serves: "\<exists>e job w. serve_entry dec name now now' c (rt_world s) = (Ret (e, job), w) \<and> Data e = served_data"
    using pm_entries.fine_serves [OF use(1) fine, of now now'] by (elim exE conjE) (intro exI conjI)
  have job: "\<exists>w w'. background_set enc set0 set1 (k, e, x) c (rt_world s) = (Ret None, w) \<and> serve_entry dec name later now' c w = (Ret (e, None), w')"
    if j: "(k, e, x) \<in> set (rt_jobs s)" and t: "running 0 set1 \<and> running 0 later \<and> nanos later \<le> nanos set1 + 180000000000" for k e x set0 set1 later
  proof -
    have k: "k = GetKey c (bytes_of_string name)" "Data e = served_data" "x = 3 * time_Minute" using fine j by (auto simp: pm_entries.route_fine_def)
    obtain w where w: "gc_Set enc set0 set1 k (box_entry e) (3 * time_Minute) c (rt_world s) = (Ret None, w)"
      "rc_items (w_store w) k = Some (pm_form (w_store (rt_world s)) set1 (box_entry e) (3 * time_Minute))"
      using pm_entries.plain_set [OF use(1,2) _ refl, where w = "rt_world s" and e = e and exp = "3 * time_Minute" and enc = enc and ?now0.0 = set0 and now = set1 and k = k] by (auto simp: time_Minute_def time_Second_def)
    have "Object (pm_form (w_store (rt_world s)) set1 (box_entry e) (3 * time_Minute)) = box_entry e" by (simp add: pm_form_def Let_def)
    moreover have "\<not> item_Expired later (pm_form (w_store (rt_world s)) set1 (box_entry e) (3 * time_Minute))" using live_3min t by blast
    moreover have "holds dec c served_data (Data e)" using use(2) k(2) by (simp add: holds_def)
    ultimately obtain w' where "serve_entry dec name later now' c w = (Ret (e\<lparr>Data := served_data\<rparr>, None), w')"
      using pm_entries.serve_held [OF use(1) _ w(2) [unfolded k(1)], of later e dec now'] by auto
    moreover have "e\<lparr>Data := served_data\<rparr> = e" using k(2) by (cases e) simp
    ultimately show ?thesis using w(1) k(3) by (simp add: background_set_def)
  qed
  show ?thesis using sent serves job by (intro conjI) blast+
qed

theorem memory_route_witness:
  "\<exists>ex e job w. example_init mini_net str_enc str_dec [''REDIS_SENTINEL_ADDRESS'' \<mapsto> ''redis://sentinel:26379'', ''REDIS_PASSWORD'' \<mapsto> ''pw''] None (time_Unix 1000) demo_site = Running ex
    \<and> serve_entry string_dec ''cached-in-memory-not-encrypted-entry'' (time_Unix 1001) (time_Unix 1001) (genericInMemoryCache ex) (memoryWorld ex) = (Ret (e, job), w)
    \<and> Data e = box_test getNewEntry"
proof -
  obtain ex where ex: "example_init mini_net str_enc str_dec [''REDIS_SENTINEL_ADDRESS'' \<mapsto> ''redis://sentinel:26379'', ''REDIS_PASSWORD'' \<mapsto> ''pw''] None (time_Unix 1000) demo_site = Running ex"
    using demo_example by blast
  from memory_route [OF ex refl refl rtranclp.rtrancl_refl, of string_dec "time_Unix 1001" "time_Unix 1001" string_enc]
  obtain e job w where "serve_entry string_dec ''cached-in-memory-not-encrypted-entry'' (time_Unix 1001) (time_Unix 1001) (genericInMemoryCache ex) (memoryWorld ex) = (Ret (e, job), w)"
    "Data e = box_test getNewEntry" unfolding route.select_convs by (elim exE conjE)
  with ex show ?thesis by (intro exI conjI)
qed

end
