(* ===== verification/TestVectors.thy ===== *)
theory TestVectors
  imports AES Digest
begin

text \<open>
  Published test vectors, evaluated: they tie the definitions of the standard library's
  cryptographic functions to their standards.
\<close>

text \<open>The example of FIPS 197, appendix B.\<close>

lemma aes_test_vector:
  "aes_Encrypt [43, 126, 21, 22, 40, 174, 210, 166, 171, 247, 21, 136, 9, 207, 79, 60]
     [50, 67, 246, 168, 136, 90, 48, 141, 49, 49, 152, 162, 224, 55, 7, 52]
   = [57, 37, 132, 29, 2, 220, 9, 251, 220, 17, 133, 151, 25, 106, 11, 50]"
  by code_simp

text \<open>SHA-256 of \<open>abc\<close> (FIPS 180-4).\<close>

lemma sha256_test_vector:
  "EncodeToString (sha256_Sum (bytes_of_string ''abc'')) = ''ba7816bf8f01cfea414140de5dae2223b00361a396177a9cb410ff61f20015ad''"
  by code_simp

end
