(* ===== verification/Spec2Isabelle.thy ===== *)
theory Spec2Isabelle
  imports Janitor GinCacheSpec Metrics LruSpec TypedGet MemoryRoute TestVectors
begin

text \<open>
  \<^bold>\<open>A verification library for the go-cache package.\<close>

  \<^bold>\<open>The program.\<close> The package is a cache for microservices. \<open>GenericCache\<close> (\<open>src/generic.go\<close>) is a
  front end with default expiry, key signatures, optional encryption and an optional separate read
  cache. It calls a store through the interface \<open>persistence.CacheStore\<close>. The stores are the
  in-memory store of \<open>src/inmemory.go\<close>, an adaptive replacement cache (the vendored \<open>golang-lru\<close>)
  whose entries carry an expiry, swept by a janitor goroutine; the vendored Redis store, whose
  connection pools \<open>src/redispool.go\<close> sets up, with or without a sentinel; and the vendored
  in-memory store over \<open>robfig/go-cache\<close>. \<open>src/galapagos_gin/cache/cache.go\<close> caches whole pages of a gin
  server in a store, \<open>src/metrics.go\<close> counts with Prometheus, \<open>src/generic_test_store.go\<close> has the scenarios
  every store is tested with, and \<open>src/example/example.go\<close> is a server that uses all of it.

  \<^bold>\<open>Theories, from the bottom.\<close>
  \<^item> \<open>GoPrelude\<close>: machine types, calls that may panic, formatting, generic lemmas.
  \<^item> \<open>SimpleLRU\<close>: \<open>simplelru/lru.go\<close>, every operation, with list elements as addresses; refinement to association
    lists, interface \<open>lru_list\<close>. \<open>LruSpec\<close>: both give the same results for every sequence of calls.
  \<^item> \<open>ARCCache\<close>: \<open>golang-lru/arc.go\<close>, every operation; invariant, reachable states, interface
    \<open>evicting_cache\<close>: a cache may forget keys but never invents or changes values.
  \<^item> \<open>GoValues\<close>: dynamic values and types, errors, clock readings, cache entries and their expiry.
  \<^item> \<open>CacheStore\<close>: the store interface as a record of methods, and its contract, the locale
    \<open>cache_store\<close>. \<open>ObjectStore\<close>: the contract of stores that give values back as they were set, the locale
    \<open>object_store\<close>.
  \<^item> \<open>InMemoryStore\<close>: every method of \<open>src/inmemory.go\<close>; interpretation of the contract, functional
    properties of every method, invariant of reachable stores.
  \<^item> \<open>Janitor\<close>: the janitor goroutine, its ticker, its stop channel and the finalizer, interleaved
    with clients at the granularity of the cache's lock.
  \<^item> \<open>PKCS\<close>: the padding of \<open>src/pkcs.go\<close>.
  \<^item> \<open>AES\<close>, \<open>Digest\<close>: what the program uses of the standard library: AES-128 with the proof that
    decryption inverts encryption, SHA-1, SHA-256, HMAC and hexadecimal encoding. \<open>TestVectors\<close> evaluates
    published examples. \<open>UrlEscape\<close>, \<open>UrlParse\<close>: what it uses of \<open>net/url\<close>.
  \<^item> \<open>Encryption\<close>: \<open>keyAndIV\<close>, \<open>encryptByteArray\<close>, \<open>decryptByteArray\<close>; CBC over the interface
    \<open>block_cipher\<close>.
  \<^item> \<open>GenericCache\<close>: every function of \<open>src/generic.go\<close>; \<open>GenericCacheSpec\<close>: its properties, proved
    in the locale \<open>cache_store\<close> and instantiated for the in-memory store and for two pools.
    \<open>TypedGet\<close>: the type of what \<open>Get\<close> writes, over every store (locale \<open>typed_store\<close>).
  \<^item> \<open>Redigo\<close>: the vendored connection pool over a network that is a parameter; \<open>RedisStore\<close>: the
    vendored Redis store and its serializer; \<open>RedisContract\<close>: what the store does, proved from a
    contract of the server's commands; \<open>Miniredis\<close>, \<open>MiniredisSpec\<close>: the vendored in-process server as
    an interpretation of it; \<open>RedisStoreSpec\<close>: the properties of the store.
  \<^item> \<open>RedisPool\<close>, \<open>RedisPoolSpec\<close>: every function of \<open>src/redispool.go\<close> and what the set-up leaves.
  \<^item> \<open>GinCache\<close>: the caching writer, the decorators and the middleware, over gin's writer; \<open>GinRender\<close>: gin's
    rendering of text. \<open>PageContract\<close>: what the page cache does over any store of responses (the locale
    \<open>response_store\<close>); \<open>GinCacheSpec\<close>: over the in-memory store; \<open>PageStores\<close>: Redis and generic caches are such
    stores, and what happens when Redis is down.
  \<^item> \<open>Metrics\<close>: \<open>src/metrics.go\<close> over the Prometheus registry.
  \<^item> \<open>PersistenceMemory\<close>: the vendored in-memory store and the \<open>go-cache\<close> it wraps.
  \<^item> \<open>TestScenarios\<close>: every scenario of \<open>src/generic_test_store.go\<close> with the failures it reports;
    \<open>ScenarioContract\<close>: what the scenarios ask of a store (the locale \<open>int_store\<close>), that they pass on
    such a store, and that a generic cache in front of one is one; \<open>ScenarioSpec\<close>: the in-memory store
    and the Redis store are such stores; \<open>ScenarioTheorems\<close>, \<open>PersistenceMemorySpec\<close>: the scenarios as
    the tests run them, and what they report when nothing sweeps or ages.
  \<^item> \<open>Example\<close>, \<open>ExampleSpec\<close>: \<open>init\<close> and the routes of the example, with their goroutines; \<open>ExamplePages\<close>,
    \<open>SealedEntries\<close> (with the locale \<open>entry_store\<close>): the two routes over Redis, from the start of the program through
    every layer down to the server; \<open>MemoryRoute\<close>: the route over the vendored in-memory store.

  \<^bold>\<open>Correspondence.\<close> A Go struct is a record (a datatype where it points to itself), an interface
  value is its method table, a method takes the receiver's state and returns an outcome and the
  new state. Errors are values, panics are the outcome \<open>Panic\<close>. Every call of \<open>time.Now\<close> is a
  parameter. Values of type \<open>interface{}\<close> carry their dynamic type, because the code dispatches on
  its printed form and then asserts it. Integers are 64-bit words wherever they can wrap around.
  Log lines are kept as format and arguments.

  \<^bold>\<open>What is shown.\<close> Round trips (padding, encryption, set and get with and without encryption, through
  Redis, pages), functional behaviour of every store method on every branch, invariants of all
  reachable caches, stores and connection pools, safety and termination of the janitor under every
  interleaving, equivalence of the linked list with a plain one, refinement of the sweep by the
  goroutine's steps, the types of results, error behaviour, bounds and wrap-around, that the
  package's test scenarios pass on each of its stores, that the example answers every request and how its
  cached page and its encrypted entry live in Redis, and the places where the code does not do what its comments say.

  \<^bold>\<open>Bounds.\<close> No definition uses fuel: loops are structural, or end because a list gets shorter. The
  expiry theorems assume a clock reading between 1970 and \<open>2 ^ 61\<close> seconds.

  \<^bold>\<open>Parameters.\<close> The gob encoder and decoder are functions; the theorems assume of them only that the
  value at hand decodes to itself (for encryption from at least one byte), and for the types that
  the decoder writes what it was asked for. The network is the record \<open>Net\<close> of its operations, with a contract
  of the server's commands (locales \<open>redis_server\<close>, \<open>redis_pool\<close>) of which the vendored server is the
  instance. The environment, the error of the
  Kubernetes client and opentracing's \<open>Extract\<close> are arguments. What other goroutines and servers do
  while a test sleeps is the argument \<open>others\<close> of the scenarios; the theorems say which ones they are
  about.

  \<^bold>\<open>Not modelled.\<close> Memory, garbage collection (beyond the finalizer), the rendering of log lines and of
  JSON, gin's router and server, Redis timeouts, and of the vendored packages what the program does not call: Memcached stores, \<open>MSetNX\<close> and \<open>Mget\<close>,
  files and shards of \<open>go-cache\<close>, subscriptions and transactions of the Redis client.
\<close>

end
